theory Spec2Isabelle
  imports Main "HOL-Library.AList" "HOL-Library.Sublist" "HOL-Library.Multiset"
    "HOL-Library.Char_ord" "HOL-Library.List_Lexorder"
begin

section \<open>The org tree (storage/org.ts)\<close>

text \<open>
  \<^verbatim>\<open>OrgNode\<close> and \<^verbatim>\<open>OrgTree\<close> of types.ts. The tree is read from org.json at the
  start of every operation and written back at its end, so an operation is a function from
  the stored document to the stored document. A freshly parsed document shares no nodes,
  so the in-place updates of the source are updates at the first node (depth first, a
  node before its children) that \<^verbatim>\<open>findNode\<close> returns.
\<close>

datatype OrgNode =
  OrgNode (agentName: string) (parentAgentName: "string option")
    (children: "OrgNode list") (position: nat)

record OrgTree =
  roots :: "OrgNode list"

definition emptyTree :: OrgTree where
  "emptyTree = \<lparr>roots = []\<rparr>"

fun findNode :: "OrgNode list \<Rightarrow> string \<Rightarrow> OrgNode option" where
  "findNode [] a = None"
| "findNode (OrgNode nm p cs pos # ns) a =
     (if nm = a then Some (OrgNode nm p cs pos)
      else (case findNode cs a of
              Some found \<Rightarrow> Some found
            | None \<Rightarrow> findNode ns a))"

function removeFromChildren :: "OrgNode list \<Rightarrow> string \<Rightarrow> OrgNode list" where
  "removeFromChildren [] a = []"
| "removeFromChildren (OrgNode nm p cs pos # ns) a =
     OrgNode nm p (removeFromChildren (filter (\<lambda>n. agentName n \<noteq> a) cs) a) pos
       # removeFromChildren ns a"
  by pat_completeness auto
termination
proof (relation "measure (\<lambda>(ns, a). size_list size ns)", goal_cases)
  case 1
  show ?case by simp
next
  case (2 nm p cs pos ns a)
  have "size_list size (filter P xs) \<le> size_list size xs"
    for P and xs :: "OrgNode list"
    by (induction xs) auto
  then have "size_list size (filter (\<lambda>n. agentName n \<noteq> a) cs) \<le> size_list size cs" .
  then show ?case by simp
next
  case (3 nm p cs pos ns a)
  show ?case by simp
qed

definition removeFromTree :: "OrgNode list \<Rightarrow> string \<Rightarrow> OrgNode list" where
  "removeFromTree rs a = removeFromChildren (filter (\<lambda>n. agentName n \<noteq> a) rs) a"

text \<open>
  \<^verbatim>\<open>node.position = xs.length; xs.push(node)\<close>, the two statements that put a node at
  the end of a list of siblings.
\<close>

definition pushNode :: "OrgNode list \<Rightarrow> OrgNode \<Rightarrow> OrgNode list" where
  "pushNode xs n = xs @ [OrgNode (agentName n) (parentAgentName n) (children n) (length xs)]"

text \<open>
  \<^verbatim>\<open>const parent = this.findNode(tree.roots, name); if (parent) { ...
  parent.children.push(node) }\<close>: the push lands in the node that \<^verbatim>\<open>findNode\<close> returns,
  so the traversal below is the one of \<^verbatim>\<open>findNode\<close>; \<open>None\<close> is the case
  \<^verbatim>\<open>parent === null\<close>.
\<close>

fun pushChild :: "OrgNode list \<Rightarrow> string \<Rightarrow> OrgNode \<Rightarrow> OrgNode list option" where
  "pushChild [] q c = None"
| "pushChild (OrgNode nm p cs pos # ns) q c =
     (if nm = q then Some (OrgNode nm p (pushNode cs c) pos # ns)
      else (case pushChild cs q c of
              Some cs' \<Rightarrow> Some (OrgNode nm p cs' pos # ns)
            | None \<Rightarrow>
               (case pushChild ns q c of
                  Some ns' \<Rightarrow> Some (OrgNode nm p cs pos # ns')
                | None \<Rightarrow> None)))"

text \<open>
  The insertion that \<^verbatim>\<open>setParent\<close> and the loop body of \<^verbatim>\<open>removeAgent\<close> both
  spell out: a root when the parent name is null, a child of the parent when it is found,
  a root again when it is not.
\<close>

definition attach :: "OrgNode list \<Rightarrow> string option \<Rightarrow> OrgNode \<Rightarrow> OrgNode list" where
  "attach rs parentName n =
     (case parentName of
        None \<Rightarrow> pushNode rs n
      | Some q \<Rightarrow>
         (case pushChild rs q n of
            Some rs' \<Rightarrow> rs'
          | None \<Rightarrow> pushNode rs n))"

definition setParent :: "OrgTree \<Rightarrow> string \<Rightarrow> string option \<Rightarrow> OrgTree" where
  "setParent tree a parentName =
     (let rs = removeFromTree (roots tree) a;
          node = OrgNode a parentName [] 0
      in tree\<lparr>roots := attach rs parentName node\<rparr>)"

definition getParent :: "OrgTree \<Rightarrow> string \<Rightarrow> string option" where
  "getParent tree a =
     (case findNode (roots tree) a of
        None \<Rightarrow> None
      | Some node \<Rightarrow> parentAgentName node)"

definition getChildren :: "OrgTree \<Rightarrow> string \<Rightarrow> OrgNode list" where
  "getChildren tree a =
     (case findNode (roots tree) a of
        None \<Rightarrow> []
      | Some node \<Rightarrow> children node)"

definition reparent :: "string option \<Rightarrow> OrgNode \<Rightarrow> OrgNode" where
  "reparent parentName c = OrgNode (agentName c) parentName (children c) (position c)"

definition removeAgent :: "OrgTree \<Rightarrow> string \<Rightarrow> OrgTree" where
  "removeAgent tree a =
     (case findNode (roots tree) a of
        None \<Rightarrow> tree
      | Some node \<Rightarrow>
         (let parentName = parentAgentName node;
              orphans = children node;
              rs = removeFromTree (roots tree) a
          in tree\<lparr>roots :=
               foldl (\<lambda>r child. attach r parentName (reparent parentName child)) rs orphans\<rparr>))"

text \<open>The agent names of a forest, in the order \<^verbatim>\<open>findNode\<close> visits them.\<close>

fun names :: "OrgNode list \<Rightarrow> string list" where
  "names [] = []"
| "names (OrgNode nm p cs pos # ns) = nm # names cs @ names ns"


text \<open>
  How a list of orphans is stored once it has been appended after \<open>k\<close> siblings under the
  parent name \<open>parentName\<close>: name and children kept, parent pointer and position rewritten.
  It is used to state what \<^verbatim>\<open>removeAgent\<close> leaves behind.
\<close>

definition placed :: "string option \<Rightarrow> nat \<Rightarrow> OrgNode list \<Rightarrow> OrgNode list" where
  "placed parentName k cs =
     map (\<lambda>(i, c). OrgNode (agentName c) parentName (children c) i) (enumerate k cs)"

section \<open>Strings\<close>

text \<open>
  A \<^typ>\<open>char\<close> stands for one UTF-16 code unit below 256, so the model covers Latin-1
  strings. The white space of \<^verbatim>\<open>String.prototype.trim\<close> in that range is tab, line
  feed, vertical tab, form feed, carriage return, space and no-break space.
\<close>

definition nl :: string where
  "nl = [CHR 0x0A]"

definition isWhiteSpace :: "char \<Rightarrow> bool" where
  "isWhiteSpace c \<longleftrightarrow>
     c \<in> set [CHR 0x09, CHR 0x0A, CHR 0x0B, CHR 0x0C, CHR 0x0D, CHR 0x20, CHR 0xA0]"

definition trimStart :: "string \<Rightarrow> string" where
  "trimStart s = dropWhile isWhiteSpace s"

definition trimEnd :: "string \<Rightarrow> string" where
  "trimEnd s = rev (dropWhile isWhiteSpace (rev s))"

definition trim :: "string \<Rightarrow> string" where
  "trim s = trimEnd (trimStart s)"

definition endsWith :: "string \<Rightarrow> string \<Rightarrow> bool" where
  "endsWith s suf \<longleftrightarrow>
     length suf \<le> length s \<and> drop (length s - length suf) s = suf"

text \<open>
  The text before and after the first occurrence of \<open>pat\<close>; \<open>None\<close> when there is none.
\<close>

fun splitFirst :: "string \<Rightarrow> string \<Rightarrow> (string \<times> string) option" where
  "splitFirst pat [] = (if pat = [] then Some ([], []) else None)"
| "splitFirst pat (c # cs) =
     (if prefix pat (c # cs) then Some ([], drop (length pat) (c # cs))
      else (case splitFirst pat cs of
              None \<Rightarrow> None
            | Some (before, after) \<Rightarrow> Some (c # before, after)))"

text \<open>\<^verbatim>\<open>s.replace(pat, rep)\<close> with a string pattern: the first occurrence only.\<close>

definition replaceFirst :: "string \<Rightarrow> string \<Rightarrow> string \<Rightarrow> string" where
  "replaceFirst pat rep s =
     (case splitFirst pat s of
        None \<Rightarrow> s
      | Some (before, after) \<Rightarrow> before @ rep @ after)"

text \<open>\<^verbatim>\<open>s.indexOf(c)\<close>, with \<open>None\<close> for -1.\<close>

fun indexOf :: "char \<Rightarrow> string \<Rightarrow> nat option" where
  "indexOf c [] = None"
| "indexOf c (x # xs) =
     (if x = c then Some 0 else map_option Suc (indexOf c xs))"

text \<open>\<^verbatim>\<open>s.split("\n")\<close>.\<close>

fun splitLines :: "string \<Rightarrow> string list" where
  "splitLines [] = [[]]"
| "splitLines (c # cs) =
     (if c = CHR 0x0A then [] # splitLines cs
      else (case splitLines cs of
              [] \<Rightarrow> [[c]]
            | l # ls \<Rightarrow> (c # l) # ls))"

text \<open>
  JavaScript truthiness of a \<^verbatim>\<open>string | null\<close> (and of an optional string): null,
  undefined and the empty string are falsy.
\<close>

fun truthy :: "string option \<Rightarrow> bool" where
  "truthy None = False"
| "truthy (Some s) = (s \<noteq> [])"


section \<open>Entities (types.ts, constants.ts)\<close>

text \<open>
  Field names carry the entity as a prefix, since several entities have fields of the same
  name. A \<^verbatim>\<open>number\<close> is only stored and compared, never computed with, and is an
  \<^typ>\<open>int\<close> here. A timestamp is the text that \<^verbatim>\<open>toISOString\<close> returned.
\<close>

datatype AgentLevel = ic | lead | manager | vp | c_suite

datatype AgentStatus = agent_idle | agent_running | agent_error | agent_offline

datatype TaskStatus =
  task_pending | task_running | task_review | task_completed | task_failed | task_blocked

text \<open>
  The parameter type \<^verbatim>\<open>"completed" | "failed" | "blocked"\<close> of \<^verbatim>\<open>completeAgent\<close>
  and of the \<^verbatim>\<open>finish_task\<close> tool.
\<close>

datatype FinalStatus = completed | failed | blocked

fun toTaskStatus :: "FinalStatus \<Rightarrow> TaskStatus" where
  "toTaskStatus completed = task_completed"
| "toTaskStatus failed = task_failed"
| "toTaskStatus blocked = task_blocked"

fun finalStatusText :: "FinalStatus \<Rightarrow> string" where
  "finalStatusText completed = ''completed''"
| "finalStatusText failed = ''failed''"
| "finalStatusText blocked = ''blocked''"

fun taskStatusText :: "TaskStatus \<Rightarrow> string" where
  "taskStatusText task_pending = ''pending''"
| "taskStatusText task_running = ''running''"
| "taskStatusText task_review = ''review''"
| "taskStatusText task_completed = ''completed''"
| "taskStatusText task_failed = ''failed''"
| "taskStatusText task_blocked = ''blocked''"

fun isTerminal :: "TaskStatus \<Rightarrow> bool" where
  "isTerminal task_completed = True"
| "isTerminal task_failed = True"
| "isTerminal task_blocked = True"
| "isTerminal _ = False"

record AgentConfig =
  agent_name :: string
  agent_displayName :: string
  agent_role :: string
  agent_department :: string
  agent_level :: AgentLevel
  agent_personality :: string
  agent_status :: AgentStatus
  agent_currentTaskId :: "string option"
  agent_avatarColor :: "string option"
  agent_createdAt :: string
  agent_updatedAt :: string

record TaskTag =
  tag_label :: string
  tag_color :: string
  tag_bg :: string

record TaskState =
  task_id :: string
  task_parentTaskId :: "string option"
  task_assigneeId :: string
  task_delegatorId :: "string option"
  task_prompt :: string
  task_context :: "string option"
  task_priority :: int
  task_status :: TaskStatus
  task_tags :: "TaskTag list"
  task_result :: "string option"
  task_costUsd :: "int option"
  task_durationMs :: "int option"
  task_numTurns :: "int option"
  task_createdAt :: string
  task_startedAt :: "string option"
  task_completedAt :: "string option"

datatype MessageType = msg_direct | msg_system | msg_chat

datatype MessageStatus = msg_pending | msg_delivered | msg_read

record Message =
  msg_id :: string
  msg_fromAgentId :: "string option"
  msg_toAgentId :: string
  msg_threadId :: string
  msg_subject :: "string option"
  msg_body :: string
  msg_type :: MessageType
  msg_status :: MessageStatus
  msg_createdAt :: string
  msg_readAt :: "string option"

text \<open>
  A board item as it exists at run time: \<^verbatim>\<open>fromMarkdown\<close> casts whatever text the
  \<^verbatim>\<open>type\<close> line holds (or \<^verbatim>\<open>undefined\<close>, here \<open>None\<close>, when there is no such
  line) to \<^verbatim>\<open>BoardItemType\<close> without a check. An item that type-checks has one of the
  four names of \<^verbatim>\<open>BOARD_ITEM_TYPES\<close>.
\<close>

record BoardItem =
  item_id :: string
  item_type :: "string option"
  item_author :: string
  item_summary :: string
  item_body :: string
  item_createdAt :: string
  item_path :: string

definition BOARD_ITEM_TYPES :: "string list" where
  "BOARD_ITEM_TYPES = [''status_update'', ''blocker'', ''finding'', ''request'']"

fun BOARD_TYPE_TO_FOLDER :: "string option \<Rightarrow> string option" where
  "BOARD_TYPE_TO_FOLDER None = None"
| "BOARD_TYPE_TO_FOLDER (Some t) =
     (if t = ''status_update'' then Some ''status-updates''
      else if t = ''blocker'' then Some ''blockers''
      else if t = ''finding'' then Some ''findings''
      else if t = ''request'' then Some ''requests''
      else None)"

section \<open>Entity stores\<close>

text \<open>
  The stores are modelled twice. For the engine, which works with entities whose numbers
  are finite, a directory is a map from file name to the entity that the file holds
  (sections storage/tasks.ts to storage/org.ts below). For the files themselves, the file
  system is a map from the path that \<^verbatim>\<open>path.join\<close> computes to the content written
  (section \<open>The files of the JSON stores\<close> and storage/board.ts). In both, the write to a
  temporary file and the rename are one step, and failures of the file system other than a
  missing file are not modelled: a write is taken to succeed, as it does when the last
  segment of its path is a file name (see \<open>isFileName\<close>) in a directory that
  \<^verbatim>\<open>mkdir\<close> has made.
\<close>

definition isFileName :: "string \<Rightarrow> bool" where
  "isFileName s \<longleftrightarrow> s \<noteq> [] \<and> CHR ''/'' \<notin> set s \<and> CHR 0x00 \<notin> set s"

subsection \<open>JSON\<close>

text \<open>
  The values that \<^verbatim>\<open>JSON.stringify\<close> is given and \<^verbatim>\<open>JSON.parse\<close> returns. A
  JavaScript number is finite, negative zero, NaN or one of the two infinities; the entity
  records above carry finite numbers only. \<open>reparse\<close> is the value of
  \<^verbatim>\<open>JSON.parse(JSON.stringify(v, null, 2))\<close>: NaN and the infinities are written as
  \<^verbatim>\<open>null\<close>, negative zero as \<^verbatim>\<open>0\<close>, everything else is read back as written.
\<close>

datatype number = Finite int | NegZero | NaN | PosInfinity | NegInfinity

datatype json =
  JNull | JBool bool | JNum number | JStr string | JArr "json list"
  | JObj "(string \<times> json) list"

fun reparseNumber :: "number \<Rightarrow> json" where
  "reparseNumber (Finite k) = JNum (Finite k)"
| "reparseNumber NegZero = JNum (Finite 0)"
| "reparseNumber NaN = JNull"
| "reparseNumber PosInfinity = JNull"
| "reparseNumber NegInfinity = JNull"

fun reparse :: "json \<Rightarrow> json" where
  "reparse JNull = JNull"
| "reparse (JBool b) = JBool b"
| "reparse (JNum x) = reparseNumber x"
| "reparse (JStr s) = JStr s"
| "reparse (JArr vs) = JArr (map reparse vs)"
| "reparse (JObj kvs) = JObj (map (map_prod id reparse) kvs)"

text \<open>A value all of whose numbers are finite and not negative zero.\<close>

fun finiteJson :: "json \<Rightarrow> bool" where
  "finiteJson JNull = True"
| "finiteJson (JBool b) = True"
| "finiteJson (JNum x) = (case x of Finite k \<Rightarrow> True | _ \<Rightarrow> False)"
| "finiteJson (JStr s) = True"
| "finiteJson (JArr vs) = list_all finiteJson vs"
| "finiteJson (JObj kvs) = list_all (\<lambda>kv. finiteJson (snd kv)) kvs"

text \<open>The objects that the entity records stand for, property by property.\<close>

definition jsonOptStr :: "string option \<Rightarrow> json" where
  "jsonOptStr v = (case v of None \<Rightarrow> JNull | Some s \<Rightarrow> JStr s)"

definition jsonOptNum :: "int option \<Rightarrow> json" where
  "jsonOptNum v = (case v of None \<Rightarrow> JNull | Some k \<Rightarrow> JNum (Finite k))"

fun agentLevelText :: "AgentLevel \<Rightarrow> string" where
  "agentLevelText ic = ''ic''"
| "agentLevelText lead = ''lead''"
| "agentLevelText manager = ''manager''"
| "agentLevelText vp = ''vp''"
| "agentLevelText c_suite = ''c-suite''"

fun agentStatusText :: "AgentStatus \<Rightarrow> string" where
  "agentStatusText agent_idle = ''idle''"
| "agentStatusText agent_running = ''running''"
| "agentStatusText agent_error = ''error''"
| "agentStatusText agent_offline = ''offline''"

fun messageTypeText :: "MessageType \<Rightarrow> string" where
  "messageTypeText msg_direct = ''direct''"
| "messageTypeText msg_system = ''system''"
| "messageTypeText msg_chat = ''chat''"

fun messageStatusText :: "MessageStatus \<Rightarrow> string" where
  "messageStatusText msg_pending = ''pending''"
| "messageStatusText msg_delivered = ''delivered''"
| "messageStatusText msg_read = ''read''"

definition agentToJson :: "AgentConfig \<Rightarrow> json" where
  "agentToJson a =
     JObj [(''name'', JStr (agent_name a)),
           (''displayName'', JStr (agent_displayName a)),
           (''role'', JStr (agent_role a)),
           (''department'', JStr (agent_department a)),
           (''level'', JStr (agentLevelText (agent_level a))),
           (''personality'', JStr (agent_personality a)),
           (''status'', JStr (agentStatusText (agent_status a))),
           (''currentTaskId'', jsonOptStr (agent_currentTaskId a)),
           (''avatarColor'', jsonOptStr (agent_avatarColor a)),
           (''createdAt'', JStr (agent_createdAt a)),
           (''updatedAt'', JStr (agent_updatedAt a))]"

definition tagToJson :: "TaskTag \<Rightarrow> json" where
  "tagToJson g =
     JObj [(''label'', JStr (tag_label g)), (''color'', JStr (tag_color g)),
           (''bg'', JStr (tag_bg g))]"

definition taskToJson :: "TaskState \<Rightarrow> json" where
  "taskToJson t =
     JObj [(''id'', JStr (task_id t)),
           (''parentTaskId'', jsonOptStr (task_parentTaskId t)),
           (''assigneeId'', JStr (task_assigneeId t)),
           (''delegatorId'', jsonOptStr (task_delegatorId t)),
           (''prompt'', JStr (task_prompt t)),
           (''context'', jsonOptStr (task_context t)),
           (''priority'', JNum (Finite (task_priority t))),
           (''status'', JStr (taskStatusText (task_status t))),
           (''tags'', JArr (map tagToJson (task_tags t))),
           (''result'', jsonOptStr (task_result t)),
           (''costUsd'', jsonOptNum (task_costUsd t)),
           (''durationMs'', jsonOptNum (task_durationMs t)),
           (''numTurns'', jsonOptNum (task_numTurns t)),
           (''createdAt'', JStr (task_createdAt t)),
           (''startedAt'', jsonOptStr (task_startedAt t)),
           (''completedAt'', jsonOptStr (task_completedAt t))]"

definition messageToJson :: "Message \<Rightarrow> json" where
  "messageToJson m =
     JObj [(''id'', JStr (msg_id m)),
           (''fromAgentId'', jsonOptStr (msg_fromAgentId m)),
           (''toAgentId'', JStr (msg_toAgentId m)),
           (''threadId'', JStr (msg_threadId m)),
           (''subject'', jsonOptStr (msg_subject m)),
           (''body'', JStr (msg_body m)),
           (''type'', JStr (messageTypeText (msg_type m))),
           (''status'', JStr (messageStatusText (msg_status m))),
           (''createdAt'', JStr (msg_createdAt m)),
           (''readAt'', jsonOptStr (msg_readAt m))]"

fun nodeToJson :: "OrgNode \<Rightarrow> json" where
  "nodeToJson (OrgNode nm p cs pos) =
     JObj [(''agentName'', JStr nm),
           (''parentAgentName'', jsonOptStr p),
           (''children'', JArr (map nodeToJson cs)),
           (''position'', JNum (Finite (int pos)))]"

definition treeToJson :: "OrgTree \<Rightarrow> json" where
  "treeToJson tree = JObj [(''roots'', JArr (map nodeToJson (roots tree)))]"

subsection \<open>Sorting and paths\<close>

text \<open>
  \<^verbatim>\<open>Array.prototype.sort(cmp)\<close> is code of the JavaScript engine and is a parameter
  \<open>srt\<close> of the listings below. What the language promises of it is \<open>conformingSort\<close>:
  where the comparator is the difference of a key on the elements of the array, the
  result is the array sorted by that key, equal keys in their former order (the sort is
  stable). For a comparator that is not consistent the language leaves the order to the
  engine. \<open>sortBy\<close> is one such sort, by insertion.
\<close>

definition conformingSort :: "(('a \<Rightarrow> 'a \<Rightarrow> int) \<Rightarrow> 'a list \<Rightarrow> 'a list) \<Rightarrow> bool" where
  "conformingSort srt \<longleftrightarrow>
     (\<forall>cmp key xs. (\<forall>a\<in>set xs. \<forall>b\<in>set xs. cmp a b = key a - key b)
        \<longrightarrow> srt cmp xs = sort_key key xs)"

fun insortBy :: "('a \<Rightarrow> 'a \<Rightarrow> int) \<Rightarrow> 'a \<Rightarrow> 'a list \<Rightarrow> 'a list" where
  "insortBy cmp x [] = [x]"
| "insortBy cmp x (y # ys) =
     (if cmp x y \<le> 0 then x # y # ys else y # insortBy cmp x ys)"

definition sortBy :: "('a \<Rightarrow> 'a \<Rightarrow> int) \<Rightarrow> 'a list \<Rightarrow> 'a list" where
  "sortBy cmp xs = foldr (insortBy cmp) xs []"

text \<open>
  \<^verbatim>\<open>new Date(x).getTime() - new Date(y).getTime()\<close> as the sort reads it: the time of a
  text that is no date is NaN (\<open>None\<close>), the difference is then NaN, and the sort reads a
  comparator value of NaN as 0.
\<close>

definition minusTime :: "int option \<Rightarrow> int option \<Rightarrow> int" where
  "minusTime x y =
     (case x of
        None \<Rightarrow> 0
      | Some u \<Rightarrow> (case y of None \<Rightarrow> 0 | Some v \<Rightarrow> u - v))"

text \<open>The time of a text that is a date, for the statements about the listings.\<close>

definition timeOf :: "(string \<Rightarrow> int option) \<Rightarrow> string \<Rightarrow> int" where
  "timeOf getTime s = (case getTime s of None \<Rightarrow> 0 | Some v \<Rightarrow> v)"

text \<open>
  \<^verbatim>\<open>path.join\<close> of node:path on POSIX: the arguments that are not empty are joined
  with \<open>/\<close> and the result is normalised: empty segments and \<open>.\<close> are dropped, \<open>..\<close>
  removes the segment before it (and stays when the path is relative and there is none).
\<close>

fun splitOn :: "char \<Rightarrow> string \<Rightarrow> string list" where
  "splitOn sep [] = [[]]"
| "splitOn sep (c # cs) =
     (if c = sep then [] # splitOn sep cs
      else (case splitOn sep cs of
              [] \<Rightarrow> [[c]]
            | l # ls \<Rightarrow> (c # l) # ls))"

fun joinWith :: "string \<Rightarrow> string list \<Rightarrow> string" where
  "joinWith sep [] = []"
| "joinWith sep [x] = x"
| "joinWith sep (x # y # zs) = x @ sep @ joinWith sep (y # zs)"

text \<open>\<open>acc\<close> holds the segments kept so far, the last one first.\<close>

fun normalizeSegments :: "bool \<Rightarrow> string list \<Rightarrow> string list \<Rightarrow> string list" where
  "normalizeSegments allowAboveRoot acc [] = rev acc"
| "normalizeSegments allowAboveRoot acc (seg # segs) =
     (if seg = [] \<or> seg = ''.'' then normalizeSegments allowAboveRoot acc segs
      else if seg = ''..'' then
        (case acc of
           [] \<Rightarrow>
             if allowAboveRoot then normalizeSegments allowAboveRoot [''..''] segs
             else normalizeSegments allowAboveRoot [] segs
         | lastSeg # below \<Rightarrow>
             if lastSeg \<noteq> ''..'' then normalizeSegments allowAboveRoot below segs
             else if allowAboveRoot then normalizeSegments allowAboveRoot (''..'' # acc) segs
             else normalizeSegments allowAboveRoot acc segs)
      else normalizeSegments allowAboveRoot (seg # acc) segs)"

text \<open>A stack of segments that \<open>normalizeSegments\<close> can have built, the last one first.\<close>

fun normalStack :: "bool \<Rightarrow> string list \<Rightarrow> bool" where
  "normalStack allowAboveRoot [] = True"
| "normalStack allowAboveRoot (seg # below) =
     (seg \<noteq> [] \<and> seg \<noteq> ''.'' \<and>
      (seg = ''..'' \<longrightarrow> allowAboveRoot \<and> (below = [] \<or> hd below = ''..'')) \<and>
      normalStack allowAboveRoot below)"

definition normalize :: "string \<Rightarrow> string" where
  "normalize path =
     (if path = [] then ''.''
      else
        (let isAbsolute = prefix ''/'' path;
             trailingSeparator = endsWith path ''/'';
             body = joinWith ''/'' (normalizeSegments (\<not> isAbsolute) [] (splitOn CHR ''/'' path))
         in if body = [] then (if isAbsolute then ''/'' else if trailingSeparator then ''./'' else ''.'')
            else (if isAbsolute then ''/'' else []) @ body @
                 (if trailingSeparator then ''/'' else [])))"

definition pathJoin :: "string list \<Rightarrow> string" where
  "pathJoin args =
     (let parts = filter (\<lambda>a. a \<noteq> []) args
      in if parts = [] then ''.'' else normalize (joinWith ''/'' parts))"

subsection \<open>storage/tasks.ts\<close>

type_synonym TaskDir = "string \<rightharpoonup> TaskState"

definition TaskStorage_save :: "TaskDir \<Rightarrow> TaskState \<Rightarrow> TaskDir" where
  "TaskStorage_save dir task = dir(task_id task @ ''.json'' \<mapsto> task)"

definition TaskStorage_get :: "TaskDir \<Rightarrow> string \<Rightarrow> TaskState option" where
  "TaskStorage_get dir ident = dir (ident @ ''.json'')"

record TaskFilter =
  filter_assigneeId :: "string option"
  filter_status :: "string option"

definition taskMatches :: "TaskFilter option \<Rightarrow> TaskState \<Rightarrow> bool" where
  "taskMatches flt task \<longleftrightarrow>
     (case flt of
        None \<Rightarrow> True
      | Some f \<Rightarrow>
          \<not> (truthy (filter_assigneeId f) \<and> Some (task_assigneeId task) \<noteq> filter_assigneeId f) \<and>
          \<not> (truthy (filter_status f) \<and> Some (taskStatusText (task_status task)) \<noteq> filter_status f))"

text \<open>
  The loop of \<^verbatim>\<open>list\<close> over the entries that \<^verbatim>\<open>readdir\<close> returned, in the order
  it returned them.
\<close>

fun collectTasks :: "TaskDir \<Rightarrow> TaskFilter option \<Rightarrow> string list \<Rightarrow> TaskState list" where
  "collectTasks dir flt [] = []"
| "collectTasks dir flt (entry # entries) =
     (if \<not> endsWith entry ''.json'' \<or> endsWith entry ''.tmp'' then collectTasks dir flt entries
      else (case TaskStorage_get dir (replaceFirst ''.json'' [] entry) of
              None \<Rightarrow> collectTasks dir flt entries
            | Some task \<Rightarrow>
                if taskMatches flt task then task # collectTasks dir flt entries
                else collectTasks dir flt entries))"

text \<open>
  \<^verbatim>\<open>tasks.sort((a, b) => new Date(b.createdAt).getTime() - new Date(a.createdAt).getTime())\<close>.
  \<open>getTime\<close> is \<^verbatim>\<open>s => new Date(s).getTime()\<close>, a parameter, with \<open>None\<close> for NaN;
  \<open>srt\<close> is the sort of the engine; \<open>entries\<close> is what \<^verbatim>\<open>readdir\<close> returned.
\<close>

definition TaskStorage_list ::
  "((TaskState \<Rightarrow> TaskState \<Rightarrow> int) \<Rightarrow> TaskState list \<Rightarrow> TaskState list) \<Rightarrow>
   (string \<Rightarrow> int option) \<Rightarrow> TaskDir \<Rightarrow> string list \<Rightarrow> TaskFilter option \<Rightarrow> TaskState list" where
  "TaskStorage_list srt getTime dir entries flt =
     srt (\<lambda>a b. minusTime (getTime (task_createdAt b)) (getTime (task_createdAt a)))
       (collectTasks dir flt entries)"

subsection \<open>storage/agents.ts\<close>

type_synonym AgentDir = "string \<rightharpoonup> AgentConfig"

definition AgentStorage_save :: "AgentDir \<Rightarrow> AgentConfig \<Rightarrow> AgentDir" where
  "AgentStorage_save dir agent = dir(agent_name agent \<mapsto> agent)"

definition AgentStorage_get :: "AgentDir \<Rightarrow> string \<Rightarrow> AgentConfig option" where
  "AgentStorage_get dir name = dir name"

subsection \<open>storage/messages.ts\<close>

text \<open>A message file is keyed by its thread directory and its file name.\<close>

type_synonym MessageDir = "(string \<times> string) \<rightharpoonup> Message"

definition MessageStorage_save :: "MessageDir \<Rightarrow> Message \<Rightarrow> MessageDir" where
  "MessageStorage_save dir message = dir((msg_threadId message, msg_id message @ ''.json'') \<mapsto> message)"

definition MessageStorage_get :: "MessageDir \<Rightarrow> string \<Rightarrow> string \<Rightarrow> Message option" where
  "MessageStorage_get dir messageId threadId = dir (threadId, messageId @ ''.json'')"

fun collectMessages :: "MessageDir \<Rightarrow> string \<Rightarrow> string list \<Rightarrow> Message list" where
  "collectMessages dir threadId [] = []"
| "collectMessages dir threadId (entry # entries) =
     (if \<not> endsWith entry ''.json'' \<or> endsWith entry ''.tmp''
      then collectMessages dir threadId entries
      else (case MessageStorage_get dir (replaceFirst ''.json'' [] entry) threadId of
              None \<Rightarrow> collectMessages dir threadId entries
            | Some msg \<Rightarrow> msg # collectMessages dir threadId entries))"

text \<open>\<open>readdir\<close> gives the entries of a thread directory, in the order the system lists them.\<close>

definition listThread ::
  "((Message \<Rightarrow> Message \<Rightarrow> int) \<Rightarrow> Message list \<Rightarrow> Message list) \<Rightarrow>
   (string \<Rightarrow> int option) \<Rightarrow> MessageDir \<Rightarrow> (string \<Rightarrow> string list) \<Rightarrow> string \<Rightarrow> Message list" where
  "listThread srt getTime dir readdir threadId =
     srt (\<lambda>a b. minusTime (getTime (msg_createdAt a)) (getTime (msg_createdAt b)))
       (collectMessages dir threadId (readdir threadId))"

text \<open>\<open>threads\<close> is the result of \<^verbatim>\<open>listThreads\<close>: the thread directories, as listed.\<close>

text \<open>The loop of \<^verbatim>\<open>getUnread\<close> over the threads, before the final sort.\<close>

definition collectUnread ::
  "((Message \<Rightarrow> Message \<Rightarrow> int) \<Rightarrow> Message list \<Rightarrow> Message list) \<Rightarrow>
   (string \<Rightarrow> int option) \<Rightarrow> MessageDir \<Rightarrow> (string \<Rightarrow> string list) \<Rightarrow> string list \<Rightarrow> string
     \<Rightarrow> Message list" where
  "collectUnread srt getTime dir readdir threads agent =
     concat (map (\<lambda>threadId.
        filter (\<lambda>msg. msg_toAgentId msg = agent \<and> msg_status msg \<noteq> msg_read)
          (listThread srt getTime dir readdir threadId)) threads)"

definition getUnread ::
  "((Message \<Rightarrow> Message \<Rightarrow> int) \<Rightarrow> Message list \<Rightarrow> Message list) \<Rightarrow>
   (string \<Rightarrow> int option) \<Rightarrow> MessageDir \<Rightarrow> (string \<Rightarrow> string list) \<Rightarrow> string list \<Rightarrow> string
     \<Rightarrow> Message list" where
  "getUnread srt getTime dir readdir threads agent =
     srt (\<lambda>a b. minusTime (getTime (msg_createdAt a)) (getTime (msg_createdAt b)))
       (collectUnread srt getTime dir readdir threads agent)"

subsection \<open>storage/org.ts: the document\<close>

text \<open>org.json is absent (\<open>None\<close>) or holds a tree.\<close>

definition OrgStorage_save :: "OrgTree option \<Rightarrow> OrgTree \<Rightarrow> OrgTree option" where
  "OrgStorage_save file tree = Some tree"

definition OrgStorage_get :: "OrgTree option \<Rightarrow> OrgTree" where
  "OrgStorage_get file = (case file of None \<Rightarrow> \<lparr>roots = []\<rparr> | Some tree \<Rightarrow> tree)"


subsection \<open>The files of the JSON stores\<close>

text \<open>
  A JSON file is held as the value that \<^verbatim>\<open>JSON.parse\<close> reads from it. \<open>writeJsonFile\<close>
  is \<^verbatim>\<open>writeFile(tmpPath, JSON.stringify(v, null, 2))\<close> followed by the rename;
  \<open>readJsonFile\<close> is \<^verbatim>\<open>JSON.parse(await readFile(filePath, "utf-8"))\<close>, with \<open>None\<close>
  for ENOENT.
\<close>

type_synonym JsonFiles = "string \<rightharpoonup> json"

definition writeJsonFile :: "JsonFiles \<Rightarrow> string \<Rightarrow> json \<Rightarrow> JsonFiles" where
  "writeJsonFile fs filePath v = fs(filePath \<mapsto> reparse v)"

definition readJsonFile :: "JsonFiles \<Rightarrow> string \<Rightarrow> json option" where
  "readJsonFile fs filePath = fs filePath"

text \<open>
  The property \<open>k\<close> of a value. The stores read \<^verbatim>\<open>task.id\<close>, \<^verbatim>\<open>agent.name\<close>,
  \<^verbatim>\<open>message.threadId\<close> and \<^verbatim>\<open>message.id\<close>, which are strings by their types; a
  value in which they are not is outside the model (\<open>None\<close> below).
\<close>

definition property :: "string \<Rightarrow> json \<Rightarrow> json option" where
  "property k v = (case v of JObj kvs \<Rightarrow> map_of kvs k | _ \<Rightarrow> None)"

definition stringProperty :: "string \<Rightarrow> json \<Rightarrow> string option" where
  "stringProperty k v = (case property k v of Some (JStr s) \<Rightarrow> Some s | _ \<Rightarrow> None)"

text \<open>storage/tasks.ts; \<open>basePath\<close> is the argument of the constructor.\<close>

definition TaskStorage_tasksDir :: "string \<Rightarrow> string" where
  "TaskStorage_tasksDir basePath = pathJoin [basePath, ''tasks'']"

definition TaskStorage_save_file :: "string \<Rightarrow> JsonFiles \<Rightarrow> json \<Rightarrow> JsonFiles option" where
  "TaskStorage_save_file basePath fs task =
     (case stringProperty ''id'' task of
        None \<Rightarrow> None
      | Some ident \<Rightarrow>
          Some (writeJsonFile fs
                  (pathJoin [TaskStorage_tasksDir basePath, ident @ ''.json'']) task))"

definition TaskStorage_get_file :: "string \<Rightarrow> JsonFiles \<Rightarrow> string \<Rightarrow> json option" where
  "TaskStorage_get_file basePath fs ident =
     readJsonFile fs (pathJoin [TaskStorage_tasksDir basePath, ident @ ''.json''])"

text \<open>storage/agents.ts; \<open>ensureAgentDir\<close> returns the directory it makes.\<close>

definition AgentStorage_agentsDir :: "string \<Rightarrow> string" where
  "AgentStorage_agentsDir basePath = pathJoin [basePath, ''agents'']"

definition ensureAgentDir :: "string \<Rightarrow> string \<Rightarrow> string" where
  "ensureAgentDir basePath name = pathJoin [AgentStorage_agentsDir basePath, name]"

definition AgentStorage_save_file :: "string \<Rightarrow> JsonFiles \<Rightarrow> json \<Rightarrow> JsonFiles option" where
  "AgentStorage_save_file basePath fs agent =
     (case stringProperty ''name'' agent of
        None \<Rightarrow> None
      | Some name \<Rightarrow>
          Some (writeJsonFile fs
                  (pathJoin [ensureAgentDir basePath name, ''config.json'']) agent))"

definition AgentStorage_get_file :: "string \<Rightarrow> JsonFiles \<Rightarrow> string \<Rightarrow> json option" where
  "AgentStorage_get_file basePath fs name =
     readJsonFile fs (pathJoin [AgentStorage_agentsDir basePath, name, ''config.json''])"

text \<open>storage/messages.ts\<close>

definition MessageStorage_messagesDir :: "string \<Rightarrow> string" where
  "MessageStorage_messagesDir basePath = pathJoin [basePath, ''messages'']"

definition MessageStorage_save_file :: "string \<Rightarrow> JsonFiles \<Rightarrow> json \<Rightarrow> JsonFiles option" where
  "MessageStorage_save_file basePath fs message =
     (case stringProperty ''threadId'' message of
        None \<Rightarrow> None
      | Some threadId \<Rightarrow>
          (case stringProperty ''id'' message of
             None \<Rightarrow> None
           | Some ident \<Rightarrow>
               Some (writeJsonFile fs
                       (pathJoin [pathJoin [MessageStorage_messagesDir basePath, threadId],
                                  ident @ ''.json''])
                       message)))"

definition MessageStorage_get_file ::
  "string \<Rightarrow> JsonFiles \<Rightarrow> string \<Rightarrow> string \<Rightarrow> json option" where
  "MessageStorage_get_file basePath fs messageId threadId =
     readJsonFile fs
       (pathJoin [MessageStorage_messagesDir basePath, threadId, messageId @ ''.json''])"

text \<open>storage/org.ts; a missing file reads as \<^verbatim>\<open>{ roots: [] }\<close>.\<close>

definition OrgStorage_filePath :: "string \<Rightarrow> string" where
  "OrgStorage_filePath basePath = pathJoin [basePath, ''org.json'']"

definition OrgStorage_save_file :: "string \<Rightarrow> JsonFiles \<Rightarrow> json \<Rightarrow> JsonFiles" where
  "OrgStorage_save_file basePath fs tree = writeJsonFile fs (OrgStorage_filePath basePath) tree"

definition OrgStorage_get_file :: "string \<Rightarrow> JsonFiles \<Rightarrow> json" where
  "OrgStorage_get_file basePath fs =
     (case readJsonFile fs (OrgStorage_filePath basePath) of
        None \<Rightarrow> JObj [(''roots'', JArr [])]
      | Some tree \<Rightarrow> tree)"

subsection \<open>storage/board.ts\<close>

text \<open>
  \<^verbatim>\<open>`${item.type}`\<close> prints \<^verbatim>\<open>undefined\<close> for a missing type.
\<close>

definition typeText :: "string option \<Rightarrow> string" where
  "typeText t = (case t of None \<Rightarrow> ''undefined'' | Some x \<Rightarrow> x)"

definition toMarkdown :: "BoardItem \<Rightarrow> string" where
  "toMarkdown item =
     ''---'' @ nl @
     ''id: '' @ item_id item @ nl @
     ''type: '' @ typeText (item_type item) @ nl @
     ''author: '' @ item_author item @ nl @
     ''summary: '' @ item_summary item @ nl @
     ''createdAt: '' @ item_createdAt item @ nl @
     ''---'' @ nl @ nl @ item_body item @ nl"

text \<open>
  The loop over the lines of the front matter: a line without a colon is skipped, a later
  line for the same key replaces an earlier one.
\<close>

fun parseFields :: "(string \<rightharpoonup> string) \<Rightarrow> string list \<Rightarrow> (string \<rightharpoonup> string)" where
  "parseFields flds [] = flds"
| "parseFields flds (line # lines) =
     (case indexOf CHR '':'' line of
        None \<Rightarrow> parseFields flds lines
      | Some colonIdx \<Rightarrow>
          parseFields (flds(trim (take colonIdx line) \<mapsto> trim (drop (colonIdx + 1) line))) lines)"

text \<open>
  \<^verbatim>\<open>content.match(/^---\n([\s\S]*?)\n---\n\n?([\s\S]*)$/)\<close>: the text starts with
  the opening rule; the lazy first group ends at the first closing rule after it; one more
  line feed is skipped when there is one; the second group is the rest. An empty first
  group is falsy, and the result is null.
\<close>

definition matchDocument :: "string \<Rightarrow> (string \<times> string) option" where
  "matchDocument content =
     (if \<not> prefix (''---'' @ nl) content then None
      else (case splitFirst (nl @ ''---'' @ nl) (drop 4 content) of
              None \<Rightarrow> None
            | Some (frontmatter, rest) \<Rightarrow>
                Some (frontmatter, (if prefix nl rest then drop 1 rest else rest))))"

definition orEmpty :: "string option \<Rightarrow> string" where
  "orEmpty v = (case v of None \<Rightarrow> [] | Some x \<Rightarrow> x)"

definition fromMarkdown :: "string \<Rightarrow> string \<Rightarrow> BoardItem option" where
  "fromMarkdown content filePath =
     (case matchDocument content of
        None \<Rightarrow> None
      | Some (frontmatter, rest) \<Rightarrow>
          if frontmatter = [] then None
          else
            (let body = trimEnd rest;
                 flds = parseFields Map.empty (splitLines frontmatter)
             in Some \<lparr>item_id = orEmpty (flds ''id''),
                      item_type = flds ''type'',
                      item_author = orEmpty (flds ''author''),
                      item_summary = orEmpty (flds ''summary''),
                      item_body = body,
                      item_createdAt = orEmpty (flds ''createdAt''),
                      item_path = filePath\<rparr>))"

text \<open>
  A value that a line of the front matter gives back as it was written: it has no line
  feed, and no white space at either end.
\<close>

definition plainValue :: "string \<Rightarrow> bool" where
  "plainValue v \<longleftrightarrow> CHR 0x0A \<notin> set v \<and> trim v = v"

text \<open>
  A board file is keyed by its path, and holds its text. \<open>basePath\<close> is the argument of the
  constructor; \<open>boardPath\<close> is \<^verbatim>\<open>join(this.boardDir, folder, `${id}.md`)\<close>, the path
  that \<^verbatim>\<open>get\<close> reads and hands to \<^verbatim>\<open>fromMarkdown\<close>.
\<close>

type_synonym BoardDir = "string \<rightharpoonup> string"

definition BoardStorage_boardDir :: "string \<Rightarrow> string" where
  "BoardStorage_boardDir basePath = pathJoin [basePath, ''board'']"

definition boardPath :: "string \<Rightarrow> string \<Rightarrow> string \<Rightarrow> string" where
  "boardPath basePath folder ident =
     pathJoin [BoardStorage_boardDir basePath, folder, ident @ ''.md'']"

text \<open>
  \<^verbatim>\<open>save\<close> raises a TypeError (\<open>None\<close>) in \<^verbatim>\<open>join\<close> when the type has no folder.
  In \<^verbatim>\<open>get\<close> a type without a folder gives null; the names that every JavaScript
  object inherits, such as \<^verbatim>\<open>constructor\<close>, are not modelled as types.
\<close>

definition BoardStorage_save :: "string \<Rightarrow> BoardDir \<Rightarrow> BoardItem \<Rightarrow> BoardDir option" where
  "BoardStorage_save basePath dir item =
     (case BOARD_TYPE_TO_FOLDER (item_type item) of
        None \<Rightarrow> None
      | Some folder \<Rightarrow>
          Some (dir(pathJoin [pathJoin [BoardStorage_boardDir basePath, folder],
                              item_id item @ ''.md'']
                      \<mapsto> toMarkdown item)))"

definition BoardStorage_get :: "string \<Rightarrow> BoardDir \<Rightarrow> string \<Rightarrow> string \<Rightarrow> BoardItem option" where
  "BoardStorage_get basePath dir type ident =
     (case BOARD_TYPE_TO_FOLDER (Some type) of
        None \<Rightarrow> None
      | Some folder \<Rightarrow>
          (case dir (boardPath basePath folder ident) of
             None \<Rightarrow> None
           | Some content \<Rightarrow> fromMarkdown content (boardPath basePath folder ident)))"

section \<open>The engine (engine.ts, delegation-flow.ts, mcp/tools/finish-task.ts)\<close>

datatype Event =
  agent_status_changed string AgentStatus
| task_status_changed string TaskStatus

record RunningAgent =
  ra_name :: string
  ra_taskId :: string
  ra_startedAt :: string

text \<open>
  The workspace directory and the memory of one engine. \<open>runningAgents\<close> is the
  \<^verbatim>\<open>Map\<close> in insertion order, \<open>emitted\<close> the events passed to \<^verbatim>\<open>emit\<close> so far
  (the subscribers are outside the model). \<open>clock\<close> gives the text of every reading of
  \<^verbatim>\<open>new Date()\<close> in advance and \<open>ticks\<close> counts the readings made; nothing is
  assumed about the texts. \<open>resultsDir\<close> holds the files
  \<^verbatim>\<open>agents/<name>/results/<file>\<close>, keyed by agent name and file name.
\<close>

record Engine =
  agentsDir :: AgentDir
  tasksDir :: TaskDir
  messagesDir :: MessageDir
  boardDir :: BoardDir
  orgFile :: "OrgTree option"
  resultsDir :: "(string \<times> string) \<rightharpoonup> string"
  runningAgents :: "(string \<times> RunningAgent) list"
  concurrencyLimit :: int
  emitted :: "Event list"
  clock :: "nat \<Rightarrow> string"
  ticks :: nat

definition DEFAULT_CONCURRENCY_LIMIT :: int where
  "DEFAULT_CONCURRENCY_LIMIT = 3"

text \<open>The constructor, on an empty workspace.\<close>

definition newEngine :: "(nat \<Rightarrow> string) \<Rightarrow> Engine" where
  "newEngine clk =
     \<lparr>agentsDir = Map.empty, tasksDir = Map.empty, messagesDir = Map.empty,
      boardDir = Map.empty, orgFile = None, resultsDir = Map.empty,
      runningAgents = [], concurrencyLimit = DEFAULT_CONCURRENCY_LIMIT,
      emitted = [], clock = clk, ticks = 0\<rparr>"

definition now :: "Engine \<Rightarrow> string" where
  "now s = clock s (ticks s)"

definition tick :: "Engine \<Rightarrow> Engine" where
  "tick s = s\<lparr>ticks := Suc (ticks s)\<rparr>"

definition emit :: "Engine \<Rightarrow> Event \<Rightarrow> Engine" where
  "emit s e = s\<lparr>emitted := emitted s @ [e]\<rparr>"

definition getRunningAgentCount :: "Engine \<Rightarrow> nat" where
  "getRunningAgentCount s = length (runningAgents s)"

definition isAgentRunning :: "Engine \<Rightarrow> string \<Rightarrow> bool" where
  "isAgentRunning s agent \<longleftrightarrow> map_of (runningAgents s) agent \<noteq> None"

definition setConcurrencyLimit :: "Engine \<Rightarrow> int \<Rightarrow> Engine" where
  "setConcurrencyLimit s limit = s\<lparr>concurrencyLimit := limit\<rparr>"

subsection \<open>delegation-flow.ts\<close>

text \<open>\<^verbatim>\<open>now.toISOString().replace(/[:.]/g, "-")\<close>.\<close>

definition stamp :: "string \<Rightarrow> string" where
  "stamp isoNow = map (\<lambda>c. if c = CHR '':'' \<or> c = CHR ''.'' then CHR ''-'' else c) isoNow"

definition resultFileName :: "string \<Rightarrow> string \<Rightarrow> string" where
  "resultFileName isoNow childTaskId = stamp isoNow @ ''-'' @ childTaskId @ ''.md''"

text \<open>
  Two timestamps have the same shape when they are equally long and carry the marks
  \<open>:\<close>, \<open>.\<close> and \<open>-\<close> at the same places, as any two texts of \<^verbatim>\<open>toISOString\<close> for
  years 0 to 9999 do.
\<close>

definition isMark :: "char \<Rightarrow> bool" where
  "isMark c \<longleftrightarrow> c = CHR '':'' \<or> c = CHR ''.'' \<or> c = CHR ''-''"

definition sameShape :: "string \<Rightarrow> string \<Rightarrow> bool" where
  "sameShape iso1 iso2 = list_all2 (\<lambda>a b. if isMark a \<or> isMark b then a = b else True) iso1 iso2"

definition NO_RESULT :: string where
  "NO_RESULT = ''(no result provided)''"

text \<open>\<^verbatim>\<open>childResult?.trim() ?? "(no result provided)"\<close>.\<close>

definition resultText :: "string option \<Rightarrow> string" where
  "resultText childResult =
     (case childResult of None \<Rightarrow> NO_RESULT | Some r \<Rightarrow> trim r)"

definition resultBody :: "string \<Rightarrow> string \<Rightarrow> string \<Rightarrow> string option \<Rightarrow> string" where
  "resultBody isoNow childTaskId childStatus childResult =
     ''# Child Task Result'' @ nl @ nl @
     ''**Task ID**: '' @ childTaskId @ nl @
     ''**Status**: '' @ childStatus @ nl @
     ''**Completed**: '' @ isoNow @ nl @ nl @
     ''---'' @ nl @ nl @
     resultText childResult @ nl"

definition handleChildCompletion ::
  "Engine \<Rightarrow> string \<Rightarrow> string option \<Rightarrow> string \<Rightarrow> string \<Rightarrow> string \<Rightarrow> Engine" where
  "handleChildCompletion s childTaskId childResult childStatus parentTaskId parentAgent =
     (let isoNow = now s;
          s1 = tick s;
          fileName = resultFileName isoNow childTaskId;
          body = resultBody isoNow childTaskId childStatus childResult
      in s1\<lparr>resultsDir := (resultsDir s1)((parentAgent, fileName) \<mapsto> body)\<rparr>)"

text \<open>
  The block that \<^verbatim>\<open>completeAgent\<close> and \<^verbatim>\<open>finish_task\<close> share word for word:
  \<^verbatim>\<open>if (task.parentTaskId && task.delegatorId) { const parentTask = await
  tasks.get(task.parentTaskId); if (parentTask) await handleChildCompletion(...) }\<close>.
\<close>

definition deliverResult :: "Engine \<Rightarrow> TaskState \<Rightarrow> string \<Rightarrow> string option \<Rightarrow> string \<Rightarrow> Engine" where
  "deliverResult s task taskId result statusText =
     (case task_parentTaskId task of
        None \<Rightarrow> s
      | Some parentTaskId \<Rightarrow>
          if parentTaskId \<noteq> [] \<and> truthy (task_delegatorId task) then
            (case TaskStorage_get (tasksDir s) parentTaskId of
               None \<Rightarrow> s
             | Some parentTask \<Rightarrow>
                 handleChildCompletion s taskId result statusText parentTaskId
                   (task_assigneeId parentTask))
          else s)"

subsection \<open>engine.ts\<close>

record SpawnOptions =
  opt_agentConfig :: AgentConfig
  opt_task :: TaskState

text \<open>The error thrown at the gate, with the two values its message prints.\<close>

datatype EngineError = ConcurrencyLimitReached int string

text \<open>
  \<^verbatim>\<open>spawnAgent\<close> returns the state it leaves behind together with the error raised or
  the task id returned. The two records of the caller that the source updates in place
  are the records it saves. The prompt and the MCP server that the source builds after
  the two saves only read the workspace and are dropped at the end of the call; of them
  the model keeps the clock reading that \<^verbatim>\<open>buildAgentSystemPrompt\<close> makes (\<open>s7\<close>).
\<close>

definition spawnAgent :: "Engine \<Rightarrow> SpawnOptions \<Rightarrow> Engine \<times> (EngineError + string)" where
  "spawnAgent s options =
     (if concurrencyLimit s \<le> int (length (runningAgents s)) then
        (s, Inl (ConcurrencyLimitReached (concurrencyLimit s) (agent_name (opt_agentConfig options))))
      else
        (let agent1 = (opt_agentConfig options)
               \<lparr>agent_status := agent_running,
                agent_currentTaskId := Some (task_id (opt_task options)),
                agent_updatedAt := now s\<rparr>;
             s1 = tick s;
             s2 = s1\<lparr>agentsDir := AgentStorage_save (agentsDir s1) agent1\<rparr>;
             s3 = emit s2 (agent_status_changed (agent_name agent1) agent_running);
             task1 = (opt_task options)
               \<lparr>task_status := task_running, task_startedAt := Some (now s3)\<rparr>;
             s4 = tick s3;
             s5 = s4\<lparr>tasksDir := TaskStorage_save (tasksDir s4) task1\<rparr>;
             s6 = emit s5 (task_status_changed (task_id task1) task_running);
             s7 = tick s6;
             s8 = s7\<lparr>runningAgents :=
                    AList.update (agent_name agent1)
                      \<lparr>ra_name = agent_name agent1, ra_taskId = task_id task1,
                       ra_startedAt = now s7\<rparr>
                      (runningAgents s7)\<rparr>
         in (tick s8, Inr (task_id task1))))"

text \<open>
  \<^verbatim>\<open>if (costUsd !== undefined) task.costUsd = costUsd\<close>, and likewise for the other
  two optional arguments.
\<close>

definition orKeep :: "int option \<Rightarrow> int option \<Rightarrow> int option" where
  "orKeep given old = (case given of None \<Rightarrow> old | Some v \<Rightarrow> Some v)"

text \<open>The first half of \<^verbatim>\<open>completeAgent\<close>: \<^verbatim>\<open>// Update task\<close>.\<close>

definition completeAgent_task ::
  "Engine \<Rightarrow> string \<Rightarrow> FinalStatus \<Rightarrow> string option \<Rightarrow> int option \<Rightarrow> int option \<Rightarrow> int option
     \<Rightarrow> Engine" where
  "completeAgent_task s taskId status result costUsd durationMs numTurns =
     (case TaskStorage_get (tasksDir s) taskId of
        None \<Rightarrow> s
      | Some task0 \<Rightarrow>
          (let task1 = task0
                 \<lparr>task_status := toTaskStatus status,
                  task_result := result,
                  task_completedAt := Some (now s),
                  task_costUsd := orKeep costUsd (task_costUsd task0),
                  task_durationMs := orKeep durationMs (task_durationMs task0),
                  task_numTurns := orKeep numTurns (task_numTurns task0)\<rparr>;
               s1 = tick s;
               s2 = s1\<lparr>tasksDir := TaskStorage_save (tasksDir s1) task1\<rparr>;
               s3 = emit s2 (task_status_changed taskId (toTaskStatus status))
           in deliverResult s3 task1 taskId result (finalStatusText status)))"

text \<open>The second half: \<^verbatim>\<open>// Update agent status\<close>.\<close>

definition completeAgent_agent :: "Engine \<Rightarrow> string \<Rightarrow> Engine" where
  "completeAgent_agent s agent =
     (case AgentStorage_get (agentsDir s) agent of
        None \<Rightarrow> s
      | Some agent0 \<Rightarrow>
          (let agent1 = agent0
                 \<lparr>agent_status := agent_idle,
                  agent_currentTaskId := None,
                  agent_updatedAt := now s\<rparr>;
               s1 = tick s;
               s2 = s1\<lparr>agentsDir := AgentStorage_save (agentsDir s1) agent1\<rparr>
           in emit s2 (agent_status_changed agent agent_idle)))"

text \<open>
  No statement of \<^verbatim>\<open>completeAgent\<close> raises, so the call always returns and the model
  is a function to the state it leaves behind.
\<close>

definition completeAgent ::
  "Engine \<Rightarrow> string \<Rightarrow> string \<Rightarrow> FinalStatus \<Rightarrow> string option \<Rightarrow> int option \<Rightarrow> int option
     \<Rightarrow> int option \<Rightarrow> Engine" where
  "completeAgent s agent taskId status result costUsd durationMs numTurns =
     (let s1 = completeAgent_task s taskId status result costUsd durationMs numTurns;
          s2 = completeAgent_agent s1 agent
      in s2\<lparr>runningAgents := AList.delete agent (runningAgents s2)\<rparr>)"

text \<open>
  The handler of the \<^verbatim>\<open>finish_task\<close> tool, for the task id of its \<^verbatim>\<open>deps\<close>; it
  returns the state and the text shown to the agent.
\<close>

definition finish_task :: "Engine \<Rightarrow> string \<Rightarrow> FinalStatus \<Rightarrow> string \<Rightarrow> Engine \<times> string" where
  "finish_task s taskId status result =
     (case TaskStorage_get (tasksDir s) taskId of
        None \<Rightarrow> (s, ''Unknown task: '' @ taskId)
      | Some task0 \<Rightarrow>
          (let task1 = task0
                 \<lparr>task_status := toTaskStatus status,
                  task_result := Some result,
                  task_completedAt := Some (now s)\<rparr>;
               s1 = tick s;
               s2 = s1\<lparr>tasksDir := TaskStorage_save (tasksDir s1) task1\<rparr>;
               s3 = emit s2 (task_status_changed taskId (toTaskStatus status));
               s4 = deliverResult s3 task1 taskId (Some result) (finalStatusText status)
           in (s4, ''Task '' @ taskId @ '' marked as '' @ finalStatusText status @ ''.'')))"

text \<open>
  A stand-in for \<^verbatim>\<open>new Date(s).getTime()\<close> in examples: a text of the shape that
  \<^verbatim>\<open>toISOString\<close> gives has the time of its decimal digits read as one number, which
  orders such texts by time; any other text is no date.
\<close>

definition digitsValue :: "string \<Rightarrow> int" where
  "digitsValue s =
     foldl (\<lambda>acc c. if CHR ''0'' \<le> c \<and> c \<le> CHR ''9''
                     then 10 * acc + (int (of_char c) - 48) else acc) 0 s"

definition isoShaped :: "string \<Rightarrow> bool" where
  "isoShaped s =
     list_all2 (\<lambda>c t. if t = CHR ''0'' then CHR ''0'' \<le> c \<and> c \<le> CHR ''9'' else c = t)
       s ''0000-00-00T00:00:00.000Z''"

definition sampleTime :: "string \<Rightarrow> int option" where
  "sampleTime s = (if isoShaped s then Some (digitsValue s) else None)"


section \<open>Sample entities (the helpers of the test suites)\<close>

text \<open>
  \<^verbatim>\<open>makeAgent\<close> and \<^verbatim>\<open>makeTask\<close> of storage.test.ts, with the overridden fields as
  arguments and a fixed text for the time of creation.
\<close>

definition makeAgent :: "string \<Rightarrow> AgentConfig" where
  "makeAgent name =
     \<lparr>agent_name = name, agent_displayName = ''Test Agent'', agent_role = ''Engineer'',
      agent_department = ''Engineering'', agent_level = ic, agent_personality = ''Hardworking'',
      agent_status = agent_idle, agent_currentTaskId = None, agent_avatarColor = None,
      agent_createdAt = ''2024-01-01T00:00:00.000Z'',
      agent_updatedAt = ''2024-01-01T00:00:00.000Z''\<rparr>"

definition makeTask :: "string \<Rightarrow> string \<Rightarrow> string option \<Rightarrow> string option \<Rightarrow> string \<Rightarrow> TaskState" where
  "makeTask ident assignee parent delegator created =
     \<lparr>task_id = ident, task_parentTaskId = parent, task_assigneeId = assignee,
      task_delegatorId = delegator, task_prompt = ''Do something'', task_context = None,
      task_priority = 0, task_status = task_pending, task_tags = [], task_result = None,
      task_costUsd = None, task_durationMs = None, task_numTurns = None,
      task_createdAt = created, task_startedAt = None, task_completedAt = None\<rparr>"

text \<open>
  \<^verbatim>\<open>makeMessage\<close> of storage.test.ts, and the board item of the test
  "handles colons in summary field".
\<close>

definition makeMessage :: "string \<Rightarrow> string \<Rightarrow> string \<Rightarrow> Message" where
  "makeMessage ident thread created =
     \<lparr>msg_id = ident, msg_fromAgentId = Some ''sender'', msg_toAgentId = ''receiver'',
      msg_threadId = thread, msg_subject = Some ''Hello'', msg_body = ''Test message body'',
      msg_type = msg_direct, msg_status = msg_pending, msg_createdAt = created,
      msg_readAt = None\<rparr>"

definition colonItem :: BoardItem where
  "colonItem =
     \<lparr>item_id = ''colon-test'', item_type = Some ''finding'', item_author = ''alice'',
      item_summary = ''Bug found: API returns 500: timeout'', item_body = ''Details here'',
      item_createdAt = ''2024-06-15T10:30:00.000Z'', item_path = []\<rparr>"

section \<open>Sample states\<close>

text \<open>
  An engine on an empty workspace after three admitted calls of \<^verbatim>\<open>spawnAgent\<close>, one
  whose workspace holds a single agent, and one whose workspace holds a single task.
\<close>

definition threeRunning :: Engine where
  "threeRunning =
     fst (spawnAgent (fst (spawnAgent (fst (spawnAgent (newEngine (\<lambda>n. ''2024-06-01T00:00:00.000Z''))
       \<lparr>opt_agentConfig = makeAgent ''a1'',
        opt_task = makeTask ''T1'' ''a1'' None None ''2024-01-01T00:00:00.000Z''\<rparr>))
       \<lparr>opt_agentConfig = makeAgent ''a2'',
        opt_task = makeTask ''T2'' ''a2'' None None ''2024-01-01T00:00:00.000Z''\<rparr>))
       \<lparr>opt_agentConfig = makeAgent ''a3'',
        opt_task = makeTask ''T3'' ''a3'' None None ''2024-01-01T00:00:00.000Z''\<rparr>)"

definition onlyAgent :: Engine where
  "onlyAgent = (newEngine (\<lambda>n. ''2024-06-01T00:00:00.000Z''))
     \<lparr>agentsDir := AgentStorage_save Map.empty (makeAgent ''eng'')\<rparr>"

definition onlyTask :: Engine where
  "onlyTask = (newEngine (\<lambda>n. ''2024-06-01T00:00:00.000Z''))
     \<lparr>tasksDir := TaskStorage_save Map.empty
        (makeTask ''T1'' ''eng'' None None ''2024-01-01T00:00:00.000Z'')\<rparr>"

text \<open>
  A workspace with a parent task \<open>T0\<close> of \<open>ceo\<close> and a child \<open>T1\<close> of \<open>eng\<close> that
  \<open>ceo\<close> delegated; the same with the empty text as the delegator of \<open>T1\<close>; and the
  single-task workspace after \<open>T1\<close> has been completed once. The clock of each reads the
  same millisecond at every reading.
\<close>

definition delegated :: Engine where
  "delegated = (newEngine (\<lambda>n. ''2024-06-01T00:00:00.000Z''))
     \<lparr>tasksDir := TaskStorage_save
        (TaskStorage_save Map.empty
           (makeTask ''T0'' ''ceo'' None None ''2024-01-01T00:00:00.000Z''))
        (makeTask ''T1'' ''eng'' (Some ''T0'') (Some ''ceo'') ''2024-01-02T00:00:00.000Z'')\<rparr>"

definition delegatedByNobody :: Engine where
  "delegatedByNobody = (newEngine (\<lambda>n. ''2024-06-01T00:00:00.000Z''))
     \<lparr>tasksDir := TaskStorage_save
        (TaskStorage_save Map.empty
           (makeTask ''T0'' ''ceo'' None None ''2024-01-01T00:00:00.000Z''))
        (makeTask ''T1'' ''eng'' (Some ''T0'') (Some []) ''2024-01-02T00:00:00.000Z'')\<rparr>"

definition completedOnce :: Engine where
  "completedOnce = completeAgent onlyTask ''eng'' ''T1'' completed (Some ''done'') None None None"

text \<open>
  Two tasks, and two messages of one thread, created in the same millisecond.
\<close>

definition sameInstantTasks :: TaskDir where
  "sameInstantTasks =
     TaskStorage_save
       (TaskStorage_save Map.empty
          (makeTask ''t-a'' ''eng'' None None ''2024-01-01T00:00:00.000Z''))
       (makeTask ''t-b'' ''eng'' None None ''2024-01-01T00:00:00.000Z'')"

text \<open>
  Two tasks and two messages of one thread with different dates, the directory listing the
  older task first and the newer message first; and three tasks of which the second has a
  creation time that is no date.
\<close>

definition datedTasks :: TaskDir where
  "datedTasks =
     TaskStorage_save
       (TaskStorage_save Map.empty
          (makeTask ''t-old'' ''eng'' None None ''2024-01-01T00:00:00.000Z''))
       (makeTask ''t-new'' ''eng'' None None ''2025-01-01T00:00:00.000Z'')"

definition datedMessages :: MessageDir where
  "datedMessages =
     MessageStorage_save
       (MessageStorage_save Map.empty
          (makeMessage ''m-late'' ''thread-1'' ''2025-01-01T00:00:00.000Z''))
       (makeMessage ''m-early'' ''thread-1'' ''2024-01-01T00:00:00.000Z'')"

definition undatedTasks :: TaskDir where
  "undatedTasks =
     TaskStorage_save
       (TaskStorage_save
          (TaskStorage_save Map.empty
             (makeTask ''a'' ''eng'' None None ''2024-01-01T00:00:00.000Z''))
          (makeTask ''b'' ''eng'' None None ''not a date''))
       (makeTask ''c'' ''eng'' None None ''2025-01-01T00:00:00.000Z'')"

definition sameInstantMessages :: MessageDir where
  "sameInstantMessages =
     MessageStorage_save
       (MessageStorage_save Map.empty
          (makeMessage ''m-a'' ''thread-1'' ''2024-01-01T00:00:00.000Z''))
       (makeMessage ''m-b'' ''thread-1'' ''2024-01-01T00:00:00.000Z'')"

text \<open>
  An org tree of five agents: \<open>vp\<close> with one report and \<open>cfo\<close> under \<open>ceo\<close>, and a second
  root \<open>D\<close>.
\<close>

definition sampleOrg :: OrgTree where
  "sampleOrg =
     \<lparr>roots =
        [OrgNode ''ceo'' None
           [OrgNode ''vp'' (Some ''ceo'') [OrgNode ''e1'' (Some ''vp'') [] 0] 0,
            OrgNode ''cfo'' (Some ''ceo'') [] 1] 0,
         OrgNode ''D'' None [] 1]\<rparr>"

text \<open>
  A task value whose priority is NaN, whose cost is Infinity and whose duration is
  negative zero: a \<^verbatim>\<open>TaskState\<close> by its type.
\<close>

definition nonFiniteTask :: json where
  "nonFiniteTask =
     JObj [(''id'', JStr ''t-1''),
           (''parentTaskId'', JNull),
           (''assigneeId'', JStr ''eng''),
           (''delegatorId'', JNull),
           (''prompt'', JStr ''Do something''),
           (''context'', JNull),
           (''priority'', JNum NaN),
           (''status'', JStr ''pending''),
           (''tags'', JArr []),
           (''result'', JNull),
           (''costUsd'', JNum PosInfinity),
           (''durationMs'', JNum NegZero),
           (''numTurns'', JNull),
           (''createdAt'', JStr ''2024-01-01T00:00:00.000Z''),
           (''startedAt'', JNull),
           (''completedAt'', JNull)]"

section \<open>Facts about the org tree\<close>

lemmas org_defs = setParent_def removeAgent_def getParent_def getChildren_def
  removeFromTree_def attach_def pushNode_def reparent_def placed_def emptyTree_def Let_def

lemma findNode_append:
  "findNode (xs @ ys) a = (case findNode xs a of Some f \<Rightarrow> Some f | None \<Rightarrow> findNode ys a)"
  by (induction xs a rule: findNode.induct) (auto split: option.splits)

lemma findNode_None_iff: "findNode ns a = None \<longleftrightarrow> a \<notin> set (names ns)"
  by (induction ns a rule: findNode.induct) (auto split: option.splits)

lemma findNode_agentName: "findNode ns a = Some n \<Longrightarrow> agentName n = a"
  by (induction ns a rule: findNode.induct) (auto split: option.splits if_splits)

lemma findNode_children_names:
  "findNode ns a = Some n \<Longrightarrow> set (names (children n)) \<subseteq> set (names ns)"
  by (induction ns a rule: findNode.induct) (auto split: option.splits if_splits)

lemma pushChild_None_iff: "pushChild ns q c = None \<longleftrightarrow> findNode ns q = None"
proof (induction ns rule: names.induct)
  case 1
  show ?case by simp
next
  case (2 nm p cs pos ns)
  show ?case
    by (cases "nm = q"; cases "findNode cs q"; cases "findNode ns q"; cases "pushChild cs q c";
        cases "pushChild ns q c") (use 2 in simp_all)
qed

lemma pushChild_find:
  "findNode ns q = Some (OrgNode q' pp pcs ppos) \<Longrightarrow> pushChild ns q c = Some ns' \<Longrightarrow>
   findNode ns' q = Some (OrgNode q' pp (pushNode pcs c) ppos)"
proof (induction ns arbitrary: ns' rule: names.induct)
  case 1
  then show ?case by simp
next
  case (2 nm p cs pos ns)
  show ?case
  proof (cases "nm = q")
    case True
    with 2(3,4) show ?thesis by auto
  next
    case False
    show ?thesis
    proof (cases "findNode cs q")
      case (Some m)
      then obtain cs' where cs': "pushChild cs q c = Some cs'"
        using pushChild_None_iff[of cs q c] by (cases "pushChild cs q c") auto
      from 2(3) False Some have "findNode cs q = Some (OrgNode q' pp pcs ppos)" by simp
      from 2(1)[OF this cs'] 2(4) False cs' show ?thesis by auto
    next
      case None
      then have n: "pushChild cs q c = None" by (simp add: pushChild_None_iff)
      from 2(3) False None have f: "findNode ns q = Some (OrgNode q' pp pcs ppos)" by simp
      from 2(4) False n obtain ns2 where n2: "pushChild ns q c = Some ns2"
        and e: "ns' = OrgNode nm p cs pos # ns2"
        by (auto split: option.splits)
      from 2(2)[OF f n2] e False None show ?thesis by simp
    qed
  qed
qed

lemma names_append: "names (xs @ ys) = names xs @ names ys"
  by (induction xs rule: names.induct) auto

lemma names_pushNode: "names (pushNode xs c) = names xs @ agentName c # names (children c)"
  by (simp add: pushNode_def names_append)

lemma findNode_pushNode_new:
  "findNode xs a = None \<Longrightarrow> agentName c = a \<Longrightarrow>
   findNode (pushNode xs c) a = Some (OrgNode a (parentAgentName c) (children c) (length xs))"
  by (simp add: pushNode_def findNode_append)

lemma pushChild_find_new:
  "findNode ns a = None \<Longrightarrow> pushChild ns q c = Some ns' \<Longrightarrow> agentName c = a \<Longrightarrow>
   \<exists>k. findNode ns' a = Some (OrgNode a (parentAgentName c) (children c) k)"
proof (induction ns arbitrary: ns' rule: names.induct)
  case 1
  then show ?case by simp
next
  case (2 nm p cs pos ns)
  from 2 have na: "nm \<noteq> a" and ca: "findNode cs a = None" and nsa: "findNode ns a = None"
    by (auto split: if_splits option.splits)
  show ?case
  proof (cases "nm = q")
    case True
    with 2 na ca show ?thesis by (auto simp: findNode_pushNode_new)
  next
    case False
    show ?thesis
    proof (cases "pushChild cs q c")
      case (Some cs')
      with 2(1)[OF ca Some 2(5)] 2 False na show ?thesis by auto
    next
      case None
      with 2 False obtain ns2 where n2: "pushChild ns q c = Some ns2" and e: "ns' = OrgNode nm p cs pos # ns2"
        by (auto split: option.splits)
      from 2(2)[OF nsa n2 2(5)] e na ca show ?thesis by auto
    qed
  qed
qed

lemma removeFromTree_Nil: "removeFromTree [] a = []"
  by (simp add: removeFromTree_def)

lemma removeFromTree_Cons:
  "removeFromTree (OrgNode nm p cs pos # ns) a =
     (if nm = a then removeFromTree ns a
      else OrgNode nm p (removeFromTree cs a) pos # removeFromTree ns a)"
  by (simp add: removeFromTree_def)

lemma names_removeFromTree_subset: "set (names (removeFromTree ns a)) \<subseteq> set (names ns)"
  by (induction ns rule: names.induct) (auto simp: removeFromTree_Nil removeFromTree_Cons)

lemma names_removeFromTree_absent: "a \<notin> set (names (removeFromTree ns a))"
  by (induction ns rule: names.induct) (auto simp: removeFromTree_Nil removeFromTree_Cons)

lemma removeFromTree_absent_id: "a \<notin> set (names ns) \<Longrightarrow> removeFromTree ns a = ns"
  by (induction ns rule: names.induct) (auto simp: removeFromTree_Nil removeFromTree_Cons)

lemma removeFromTree_drops_subtree:
  "distinct (names ns) \<Longrightarrow> findNode ns a = Some n \<Longrightarrow>
   set (names (removeFromTree ns a)) \<inter> set (names (children n)) = {}"
proof (induction ns rule: names.induct)
  case 1
  then show ?case by simp
next
  case (2 nm p cs pos ns)
  note sub = names_removeFromTree_subset
  show ?case
  proof (cases "nm = a")
    case True
    with 2 have n: "children n = cs" and d: "set (names cs) \<inter> set (names ns) = {}"
      by auto
    from True have "removeFromTree (OrgNode nm p cs pos # ns) a = removeFromTree ns a"
      by (simp add: removeFromTree_Cons)
    with n d sub[of ns a] show ?thesis by auto
  next
    case False
    show ?thesis
    proof (cases "findNode cs a")
      case (Some m)
      with False 2 have n: "m = n" by simp
      from Some n have c: "set (names (children n)) \<subseteq> set (names cs)"
        using findNode_children_names by blast
      from 2 Some n have ih: "set (names (removeFromTree cs a)) \<inter> set (names (children n)) = {}"
        by simp
      from 2 False c ih sub[of ns a] show ?thesis
        by (auto simp: removeFromTree_Cons)
    next
      case None
      with False 2 have f: "findNode ns a = Some n" by simp
      then have c: "set (names (children n)) \<subseteq> set (names ns)"
        using findNode_children_names by blast
      from 2 f have ih: "set (names (removeFromTree ns a)) \<inter> set (names (children n)) = {}"
        by simp
      from 2 False c ih sub[of cs a] show ?thesis
        by (auto simp: removeFromTree_Cons)
    qed
  qed
qed

lemma names_pushChild:
  "pushChild ns q c = Some ns' \<Longrightarrow>
   set (names ns') = set (names ns) \<union> insert (agentName c) (set (names (children c)))"
proof (induction ns arbitrary: ns' rule: names.induct)
  case 1
  then show ?case by simp
next
  case (2 nm p cs pos ns)
  let ?C = "insert (agentName c) (set (names (children c)))"
  show ?case
  proof (cases "nm = q")
    case True
    with 2(3) have e: "ns' = OrgNode nm p (pushNode cs c) pos # ns" by simp
    have "set (names (pushNode cs c)) = set (names cs) \<union> ?C"
      by (simp add: names_pushNode)
    then show ?thesis unfolding e by (simp only: names.simps set_append set_simps) blast
  next
    case False
    show ?thesis
    proof (cases "pushChild cs q c")
      case (Some cs')
      with 2(3) False have e: "ns' = OrgNode nm p cs' pos # ns" by simp
      from 2(1)[OF Some] have "set (names cs') = set (names cs) \<union> ?C" .
      then show ?thesis unfolding e by (simp only: names.simps set_append set_simps) blast
    next
      case None
      with 2(3) False obtain ns2 where n2: "pushChild ns q c = Some ns2"
        and e: "ns' = OrgNode nm p cs pos # ns2"
        by (cases "pushChild ns q c") simp_all
      from 2(2)[OF n2] have "set (names ns2) = set (names ns) \<union> ?C" .
      then show ?thesis unfolding e by (simp only: names.simps set_append set_simps) blast
    qed
  qed
qed

lemma names_attach:
  "set (names (attach rs parentName c)) =
   set (names rs) \<union> insert (agentName c) (set (names (children c)))"
proof (cases parentName)
  case None
  then show ?thesis by (simp add: attach_def names_pushNode)
next
  case (Some q)
  show ?thesis
  proof (cases "pushChild rs q c")
    case None
    with Some show ?thesis by (simp add: attach_def names_pushNode)
  next
    case (Some rs')
    from names_pushChild[OF Some] Some \<open>parentName = Some q\<close> show ?thesis
      by (simp add: attach_def)
  qed
qed

lemma findNode_not_own_descendant:
  "distinct (names ns) \<Longrightarrow> findNode ns a = Some n \<Longrightarrow> a \<notin> set (names (children n))"
proof (induction ns rule: names.induct)
  case 1
  then show ?case by simp
next
  case (2 nm p cs pos ns)
  show ?case
  proof (cases "nm = a")
    case True
    with 2(3,4) show ?thesis by auto
  next
    case False
    show ?thesis
    proof (cases "findNode cs a")
      case (Some m)
      with 2 False show ?thesis by auto
    next
      case None
      with 2 False show ?thesis by auto
    qed
  qed
qed









lemma findNode_attach_new:
  "findNode rs a = None \<Longrightarrow>
   \<exists>k. findNode (attach rs p (OrgNode a p' cs 0)) a = Some (OrgNode a p' cs k)"
proof (cases p)
  case None
  assume "findNode rs a = None"
  with None show ?thesis
    using findNode_pushNode_new[of rs a "OrgNode a p' cs 0"] by (simp add: attach_def)
next
  case (Some q)
  assume f: "findNode rs a = None"
  show ?thesis
  proof (cases "pushChild rs q (OrgNode a p' cs 0)")
    case None
    with Some f show ?thesis
      using findNode_pushNode_new[of rs a "OrgNode a p' cs 0"] by (simp add: attach_def)
  next
    case (Some rs')
    from pushChild_find_new[OF f Some] Some \<open>p = Some q\<close> show ?thesis
      by (simp add: attach_def)
  qed
qed

lemma findNode_removeFromTree_self: "findNode (removeFromTree rs a) a = None"
  by (simp add: findNode_None_iff names_removeFromTree_absent)

lemma removeFromTree_append:
  "removeFromTree (xs @ ys) a = removeFromTree xs a @ removeFromTree ys a"
  by (induction xs rule: names.induct) (simp_all add: removeFromTree_Nil removeFromTree_Cons)

lemma removeFromTree_pushNode:
  "agentName c = a \<Longrightarrow> removeFromTree (pushNode xs c) a = removeFromTree xs a"
  by (simp add: pushNode_def removeFromTree_append removeFromTree_Cons removeFromTree_Nil)

lemma removeFromTree_pushChild:
  "pushChild ns q c = Some ns' \<Longrightarrow> agentName c = a \<Longrightarrow>
   removeFromTree ns' a = removeFromTree ns a"
proof (induction ns arbitrary: ns' rule: names.induct)
  case 1
  then show ?case by simp
next
  case (2 nm p cs pos ns)
  show ?case
  proof (cases "nm = q")
    case True
    with 2(3) have e: "ns' = OrgNode nm p (pushNode cs c) pos # ns" by simp
    show ?thesis unfolding e
      by (simp add: removeFromTree_Cons removeFromTree_pushNode[OF 2(4)])
  next
    case False
    show ?thesis
    proof (cases "pushChild cs q c")
      case (Some cs')
      with 2(3) False have e: "ns' = OrgNode nm p cs' pos # ns" by simp
      from 2(1)[OF Some 2(4)] show ?thesis unfolding e by (simp add: removeFromTree_Cons)
    next
      case None
      with 2(3) False obtain ns2 where n2: "pushChild ns q c = Some ns2"
        and e: "ns' = OrgNode nm p cs pos # ns2"
        by (cases "pushChild ns q c") simp_all
      from 2(2)[OF n2 2(4)] show ?thesis unfolding e by (simp add: removeFromTree_Cons)
    qed
  qed
qed

lemma removeFromTree_attach:
  "agentName c = a \<Longrightarrow> removeFromTree (attach rs p c) a = removeFromTree rs a"
proof (cases p)
  case None
  assume "agentName c = a"
  with None show ?thesis by (simp add: attach_def removeFromTree_pushNode)
next
  case (Some q)
  assume h: "agentName c = a"
  show ?thesis
  proof (cases "pushChild rs q c")
    case None
    with Some h show ?thesis by (simp add: attach_def removeFromTree_pushNode)
  next
    case (Some rs')
    from removeFromTree_pushChild[OF Some h] Some \<open>p = Some q\<close> show ?thesis
      by (simp add: attach_def)
  qed
qed

lemma removeFromTree_idem: "removeFromTree (removeFromTree rs a) a = removeFromTree rs a"
  by (simp add: removeFromTree_absent_id names_removeFromTree_absent)

lemma mset_names_pushNode:
  "mset (names (pushNode xs c)) = mset (names xs) + mset (agentName c # names (children c))"
  by (simp add: names_pushNode)

lemma mset_names_pushChild:
  "pushChild ns q c = Some ns' \<Longrightarrow>
   mset (names ns') = mset (names ns) + mset (agentName c # names (children c))"
proof (induction ns arbitrary: ns' rule: names.induct)
  case 1
  then show ?case by simp
next
  case (2 nm p cs pos ns)
  show ?case
  proof (cases "nm = q")
    case True
    with 2(3) have e: "ns' = OrgNode nm p (pushNode cs c) pos # ns" by simp
    show ?thesis unfolding e by (simp add: names_pushNode)
  next
    case False
    show ?thesis
    proof (cases "pushChild cs q c")
      case (Some cs')
      with 2(3) False have e: "ns' = OrgNode nm p cs' pos # ns" by simp
      from 2(1)[OF Some] show ?thesis unfolding e by simp
    next
      case None
      with 2(3) False obtain ns2 where n2: "pushChild ns q c = Some ns2"
        and e: "ns' = OrgNode nm p cs pos # ns2"
        by (cases "pushChild ns q c") simp_all
      from 2(2)[OF n2] show ?thesis unfolding e by simp
    qed
  qed
qed

lemma mset_names_attach:
  "mset (names (attach rs p c)) = mset (names rs) + mset (agentName c # names (children c))"
proof (cases p)
  case None
  then show ?thesis by (simp add: attach_def names_pushNode)
next
  case (Some q)
  show ?thesis
  proof (cases "pushChild rs q c")
    case None
    with Some show ?thesis by (simp add: attach_def names_pushNode)
  next
    case (Some rs')
    from mset_names_pushChild[OF Some] Some \<open>p = Some q\<close> show ?thesis
      by (simp add: attach_def)
  qed
qed

lemma count_setParent:
  "count_list (names (roots (setParent tree a p))) a = 1"
proof -
  have "mset (names (roots (setParent tree a p))) =
      mset (names (removeFromTree (roots tree) a)) + {#a#}"
    by (simp add: setParent_def Let_def mset_names_attach)
  then have "count (mset (names (roots (setParent tree a p)))) a =
      count (mset (names (removeFromTree (roots tree) a))) a + 1"
    by simp
  moreover have "count (mset (names (removeFromTree (roots tree) a))) a = 0"
    using names_removeFromTree_absent[of a "roots tree"] by (simp add: count_eq_zero_iff)
  ultimately show ?thesis by (simp add: count_mset)
qed

lemma distinct_names_removeFromTree:
  "distinct (names ns) \<Longrightarrow> distinct (names (removeFromTree ns a))"
proof (induction ns rule: names.induct)
  case 1
  then show ?case by (simp add: removeFromTree_Nil)
next
  case (2 nm p cs pos ns)
  note sub = names_removeFromTree_subset
  from 2 have d: "distinct (names (removeFromTree cs a))" "distinct (names (removeFromTree ns a))"
    by simp_all
  from 2(3) have x: "nm \<notin> set (names cs)" "nm \<notin> set (names ns)"
    "set (names cs) \<inter> set (names ns) = {}" by auto
  with sub[of cs a] sub[of ns a] have
    "nm \<notin> set (names (removeFromTree cs a))" "nm \<notin> set (names (removeFromTree ns a))"
    "set (names (removeFromTree cs a)) \<inter> set (names (removeFromTree ns a)) = {}"
    by blast+
  with d show ?case by (simp add: removeFromTree_Cons)
qed

lemma names_removeFromTree_distinct:
  "distinct (names ns) \<Longrightarrow> findNode ns a = Some n \<Longrightarrow>
   set (names (removeFromTree ns a)) = set (names ns) - insert a (set (names (children n)))"
proof (induction ns rule: names.induct)
  case 1
  then show ?case by simp
next
  case (2 nm p cs pos ns)
  from 2(3) have x: "nm \<notin> set (names cs)" "nm \<notin> set (names ns)"
    "set (names cs) \<inter> set (names ns) = {}" "distinct (names cs)" "distinct (names ns)"
    by auto
  show ?case
  proof (cases "nm = a")
    case True
    with 2(4) have n: "children n = cs" by auto
    from True x have "removeFromTree ns a = ns" by (simp add: removeFromTree_absent_id)
    with True have r: "removeFromTree (OrgNode nm p cs pos # ns) a = ns"
      by (simp add: removeFromTree_Cons)
    from x True show ?thesis unfolding r n by auto
  next
    case False
    show ?thesis
    proof (cases "findNode cs a")
      case (Some m)
      with False 2(4) have f: "findNode cs a = Some n" by simp
      then have c: "set (names (children n)) \<subseteq> set (names cs)" "a \<in> set (names cs)"
        using findNode_children_names findNode_None_iff[of cs a] by (blast, simp)
      with x have "a \<notin> set (names ns)" by blast
      then have rn: "removeFromTree ns a = ns" by (simp add: removeFromTree_absent_id)
      from 2(1)[OF x(4) f] have ih: "set (names (removeFromTree cs a)) =
          set (names cs) - insert a (set (names (children n)))" .
      from False have r: "removeFromTree (OrgNode nm p cs pos # ns) a =
          OrgNode nm p (removeFromTree cs a) pos # ns"
        by (simp add: removeFromTree_Cons rn)
      from x c False show ?thesis unfolding r by (simp add: ih) blast
    next
      case None
      with False 2(4) have f: "findNode ns a = Some n" by simp
      then have c: "set (names (children n)) \<subseteq> set (names ns)"
        using findNode_children_names by blast
      from None have "a \<notin> set (names cs)" by (simp add: findNode_None_iff)
      then have rc: "removeFromTree cs a = cs" by (simp add: removeFromTree_absent_id)
      from 2(2)[OF x(5) f] have ih: "set (names (removeFromTree ns a)) =
          set (names ns) - insert a (set (names (children n)))" .
      from False have r: "removeFromTree (OrgNode nm p cs pos # ns) a =
          OrgNode nm p cs pos # removeFromTree ns a"
        by (simp add: removeFromTree_Cons rc)
      from x c False \<open>a \<notin> set (names cs)\<close> show ?thesis unfolding r by (simp add: ih) blast
    qed
  qed
qed

lemma findNode_removed_iff:
  assumes "distinct (names ns)" and "findNode ns a = Some n"
  shows "findNode (removeFromTree ns a) q = None \<longleftrightarrow>
     q \<notin> set (names ns) \<or> q = a \<or> q \<in> set (names (children n))"
  using names_removeFromTree_distinct[OF assms] by (auto simp: findNode_None_iff)

section \<open>Claims about the org tree\<close>




text \<open>
  C6, as stated, fails where the parent named sits in the agent's own subtree, or is the
  agent itself. In the tree where \<open>B\<close> is the child of \<open>A\<close>, the parent \<open>B\<close> exists when
  \<^verbatim>\<open>setParent(A, B)\<close> is called; the detach removes it together with \<open>A\<close>, and \<open>A\<close> becomes
  the only root, storing the parent \<open>B\<close>, which no node has any more. And
  \<^verbatim>\<open>setParent(A, A)\<close> leaves \<open>A\<close> as a root that stores itself as parent.
\<close>

theorem setParent_own_subtree_counterexample:
  "roots (setParent (setParent emptyTree ''A'' None) ''B'' (Some ''A'')) =
     [OrgNode ''A'' None [OrgNode ''B'' (Some ''A'') [] 0] 0] \<and>
   findNode [OrgNode ''A'' None [OrgNode ''B'' (Some ''A'') [] 0] 0] ''B'' =
     Some (OrgNode ''B'' (Some ''A'') [] 0) \<and>
   roots (setParent \<lparr>roots = [OrgNode ''A'' None [OrgNode ''B'' (Some ''A'') [] 0] 0]\<rparr>
            ''A'' (Some ''B'')) =
     [OrgNode ''A'' (Some ''B'') [] 0] \<and>
   getChildren (setParent \<lparr>roots = [OrgNode ''A'' None [OrgNode ''B'' (Some ''A'') [] 0] 0]\<rparr>
            ''A'' (Some ''B'')) ''B'' = [] \<and>
   roots (setParent (setParent emptyTree ''A'' None) ''A'' (Some ''A'')) =
     [OrgNode ''A'' (Some ''A'') [] 0] \<and>
   getChildren (setParent (setParent emptyTree ''A'' None) ''A'' (Some ''A'')) ''A'' = []"
  by (simp add: org_defs)

text \<open>
  C6, amended. \<^verbatim>\<open>setParent(agentName, parent)\<close> first detaches: every node named
  \<open>agentName\<close> is removed with all that is below it, at every depth, and every other node
  is kept as it is, in its place (the two equations of \<open>removeFromTree\<close>); removing an
  absent name changes nothing. Where every name occurs once, the names that the detach
  leaves without a node are \<open>agentName\<close> and the names below it. It then inserts a fresh
  node without children: appended to the root list, with the next root position, when the
  parent is null or names no node of the detached tree; appended as the last child of the
  first node named \<open>q\<close> of the detached tree when the parent is \<open>q\<close> and such a node
  exists. Nothing else changes: detaching \<open>agentName\<close> from the result gives the detached
  tree again, and the result has exactly one node named \<open>agentName\<close>, which stores the
  parent given and has no children. In particular, for two different names,
  \<^verbatim>\<open>setParent(a, null)\<close> then \<^verbatim>\<open>setParent(b, a)\<close> on the empty tree gives
  \<^verbatim>\<open>getParent(b) = a\<close> and one child of \<open>a\<close>, the node of \<open>b\<close>.
\<close>

theorem setParent_detaches_then_inserts:
  "removeFromTree [] a = [] \<and>
   removeFromTree (OrgNode nm np cs pos # ns) a =
     (if nm = a then removeFromTree ns a
      else OrgNode nm np (removeFromTree cs a) pos # removeFromTree ns a) \<and>
   (findNode (roots tree) a = None \<longrightarrow> removeFromTree (roots tree) a = roots tree) \<and>
   (p = None \<or> (\<exists>q. p = Some q \<and> findNode (removeFromTree (roots tree) a) q = None) \<longrightarrow>
      roots (setParent tree a p) =
        removeFromTree (roots tree) a @ [OrgNode a p [] (length (removeFromTree (roots tree) a))]) \<and>
   (p = Some q \<and> findNode (removeFromTree (roots tree) a) q = Some (OrgNode q' pp pcs ppos) \<longrightarrow>
      findNode (roots (setParent tree a p)) q =
        Some (OrgNode q' pp (pcs @ [OrgNode a p [] (length pcs)]) ppos)) \<and>
   removeFromTree (roots (setParent tree a p)) a = removeFromTree (roots tree) a \<and>
   count_list (names (roots (setParent tree a p))) a = 1 \<and>
   getParent (setParent tree a p) a = p \<and>
   getChildren (setParent tree a p) a = [] \<and>
   (distinct (names (roots tree)) \<and> findNode (roots tree) a = Some n \<longrightarrow>
      (findNode (removeFromTree (roots tree) a) q = None \<longleftrightarrow>
         q \<notin> set (names (roots tree)) \<or> q = a \<or> q \<in> set (names (children n)))) \<and>
   (a \<noteq> b \<longrightarrow>
      getParent (setParent (setParent emptyTree a None) b (Some a)) b = Some a \<and>
      getChildren (setParent (setParent emptyTree a None) b (Some a)) a =
        [OrgNode b (Some a) [] 0])"
proof (intro conjI impI)
  show "removeFromTree [] a = []" by (rule removeFromTree_Nil)
next
  show "removeFromTree (OrgNode nm np cs pos # ns) a =
     (if nm = a then removeFromTree ns a
      else OrgNode nm np (removeFromTree cs a) pos # removeFromTree ns a)"
    by (rule removeFromTree_Cons)
next
  assume "findNode (roots tree) a = None"
  then show "removeFromTree (roots tree) a = roots tree"
    by (simp add: findNode_None_iff removeFromTree_absent_id)
next
  assume "p = None \<or> (\<exists>q. p = Some q \<and> findNode (removeFromTree (roots tree) a) q = None)"
  then show "roots (setParent tree a p) =
      removeFromTree (roots tree) a @ [OrgNode a p [] (length (removeFromTree (roots tree) a))]"
  proof
    assume "p = None"
    then show ?thesis by (simp add: setParent_def attach_def pushNode_def Let_def)
  next
    assume "\<exists>q. p = Some q \<and> findNode (removeFromTree (roots tree) a) q = None"
    then obtain q where q: "p = Some q" "findNode (removeFromTree (roots tree) a) q = None"
      by blast
    then have "pushChild (removeFromTree (roots tree) a) q (OrgNode a p [] 0) = None"
      by (simp add: pushChild_None_iff)
    with q show ?thesis by (simp add: setParent_def attach_def pushNode_def Let_def)
  qed
next
  assume h: "p = Some q \<and> findNode (removeFromTree (roots tree) a) q = Some (OrgNode q' pp pcs ppos)"
  then obtain rs' where r: "pushChild (removeFromTree (roots tree) a) q (OrgNode a p [] 0) = Some rs'"
    using pushChild_None_iff[of "removeFromTree (roots tree) a" q "OrgNode a p [] 0"]
    by (cases "pushChild (removeFromTree (roots tree) a) q (OrgNode a p [] 0)") auto
  from h have f: "findNode (removeFromTree (roots tree) a) q = Some (OrgNode q' pp pcs ppos)" by simp
  from pushChild_find[OF f r] h r
  show "findNode (roots (setParent tree a p)) q =
      Some (OrgNode q' pp (pcs @ [OrgNode a p [] (length pcs)]) ppos)"
    by (simp add: setParent_def attach_def pushNode_def Let_def)
next
  show "removeFromTree (roots (setParent tree a p)) a = removeFromTree (roots tree) a"
    by (simp add: setParent_def Let_def removeFromTree_attach removeFromTree_idem)
next
  show "count_list (names (roots (setParent tree a p))) a = 1"
    by (rule count_setParent)
next
  have "\<exists>k. findNode (attach (removeFromTree (roots tree) a) p (OrgNode a p [] 0)) a =
      Some (OrgNode a p [] k)"
    by (rule findNode_attach_new) (rule findNode_removeFromTree_self)
  then show "getParent (setParent tree a p) a = p"
    by (auto simp: getParent_def setParent_def Let_def)
next
  have "\<exists>k. findNode (attach (removeFromTree (roots tree) a) p (OrgNode a p [] 0)) a =
      Some (OrgNode a p [] k)"
    by (rule findNode_attach_new) (rule findNode_removeFromTree_self)
  then show "getChildren (setParent tree a p) a = []"
    by (auto simp: getChildren_def setParent_def Let_def)
next
  assume "distinct (names (roots tree)) \<and> findNode (roots tree) a = Some n"
  then have d: "distinct (names (roots tree))" and f: "findNode (roots tree) a = Some n"
    by simp_all
  show "findNode (removeFromTree (roots tree) a) q = None \<longleftrightarrow>
         q \<notin> set (names (roots tree)) \<or> q = a \<or> q \<in> set (names (children n))"
    by (rule findNode_removed_iff[OF d f])
next
  assume "a \<noteq> b"
  then show "getParent (setParent (setParent emptyTree a None) b (Some a)) b = Some a"
    by (simp add: getParent_def setParent_def emptyTree_def removeFromTree_def attach_def
        pushNode_def Let_def)
next
  assume "a \<noteq> b"
  then show "getChildren (setParent (setParent emptyTree a None) b (Some a)) a =
      [OrgNode b (Some a) [] 0]"
    by (simp add: getChildren_def setParent_def emptyTree_def removeFromTree_def attach_def
        pushNode_def Let_def)
qed

theorem setParent_detaches_then_inserts_witness:
  "findNode (roots sampleOrg) ''vp'' =
     Some (OrgNode ''vp'' (Some ''ceo'') [OrgNode ''e1'' (Some ''vp'') [] 0] 0) \<and>
   distinct (names (roots sampleOrg)) \<and>
   removeFromTree (roots sampleOrg) ''vp'' =
     [OrgNode ''ceo'' None [OrgNode ''cfo'' (Some ''ceo'') [] 1] 0, OrgNode ''D'' None [] 1] \<and>
   findNode (roots sampleOrg) ''new'' = None \<and>
   removeFromTree (roots sampleOrg) ''new'' = roots sampleOrg \<and>
   roots (setParent sampleOrg ''vp'' None) =
     [OrgNode ''ceo'' None [OrgNode ''cfo'' (Some ''ceo'') [] 1] 0, OrgNode ''D'' None [] 1,
      OrgNode ''vp'' None [] 2] \<and>
   findNode (removeFromTree (roots sampleOrg) ''vp'') ''e1'' = None \<and>
   roots (setParent sampleOrg ''vp'' (Some ''e1'')) =
     [OrgNode ''ceo'' None [OrgNode ''cfo'' (Some ''ceo'') [] 1] 0, OrgNode ''D'' None [] 1,
      OrgNode ''vp'' (Some ''e1'') [] 2] \<and>
   findNode (removeFromTree (roots sampleOrg) ''vp'') ''cfo'' =
     Some (OrgNode ''cfo'' (Some ''ceo'') [] 1) \<and>
   findNode (roots (setParent sampleOrg ''vp'' (Some ''cfo''))) ''cfo'' =
     Some (OrgNode ''cfo'' (Some ''ceo'') [OrgNode ''vp'' (Some ''cfo'') [] 0] 1) \<and>
   removeFromTree (roots (setParent sampleOrg ''vp'' (Some ''cfo''))) ''vp'' =
     [OrgNode ''ceo'' None [OrgNode ''cfo'' (Some ''ceo'') [] 1] 0, OrgNode ''D'' None [] 1] \<and>
   count_list (names (roots (setParent sampleOrg ''vp'' (Some ''cfo'')))) ''vp'' = 1 \<and>
   getParent (setParent sampleOrg ''vp'' (Some ''cfo'')) ''vp'' = Some ''cfo'' \<and>
   getChildren (setParent sampleOrg ''vp'' (Some ''cfo'')) ''vp'' = [] \<and>
   getParent (setParent (setParent emptyTree ''ceo'' None) ''vp'' (Some ''ceo'')) ''vp'' =
     Some ''ceo'' \<and>
   getChildren (setParent (setParent emptyTree ''ceo'' None) ''vp'' (Some ''ceo'')) ''ceo'' =
     [OrgNode ''vp'' (Some ''ceo'') [] 0]"
  using
    setParent_detaches_then_inserts[where tree = sampleOrg and a = "''vp''" and p = None
      and nm = "''ceo''" and np = None
      and cs = "[OrgNode ''vp'' (Some ''ceo'') [OrgNode ''e1'' (Some ''vp'') [] 0] 0,
                 OrgNode ''cfo'' (Some ''ceo'') [] 1]"
      and pos = 0 and ns = "[OrgNode ''D'' None [] 1]"
      and q = "''e1''" and q' = "''e1''" and pp = None and pcs = "[]" and ppos = 0
      and n = "OrgNode ''vp'' (Some ''ceo'') [OrgNode ''e1'' (Some ''vp'') [] 0] 0"
      and b = "''vp''"]
    setParent_detaches_then_inserts[where tree = sampleOrg and a = "''vp''" and p = "Some ''e1''"
      and nm = "''vp''" and np = "Some ''ceo''" and cs = "[OrgNode ''e1'' (Some ''vp'') [] 0]"
      and pos = 0 and ns = "[OrgNode ''cfo'' (Some ''ceo'') [] 1]"
      and q = "''e1''" and q' = "''e1''" and pp = None and pcs = "[]" and ppos = 0
      and n = "OrgNode ''vp'' (Some ''ceo'') [OrgNode ''e1'' (Some ''vp'') [] 0] 0"
      and b = "''vp''"]
    setParent_detaches_then_inserts[where tree = sampleOrg and a = "''vp''" and p = "Some ''cfo''"
      and nm = "''D''" and np = None and cs = "[]" and pos = 1 and ns = "[]"
      and q = "''cfo''" and q' = "''cfo''" and pp = "Some ''ceo''" and pcs = "[]" and ppos = 1
      and n = "OrgNode ''vp'' (Some ''ceo'') [OrgNode ''e1'' (Some ''vp'') [] 0] 0"
      and b = "''vp''"]
    setParent_detaches_then_inserts[where tree = sampleOrg and a = "''new''" and p = None
      and nm = "''D''" and np = None and cs = "[]" and pos = 1 and ns = "[]"
      and q = "''cfo''" and q' = "''cfo''" and pp = "Some ''ceo''" and pcs = "[]" and ppos = 1
      and n = "OrgNode ''vp'' (Some ''ceo'') [OrgNode ''e1'' (Some ''vp'') [] 0] 0"
      and b = "''vp''"]
    setParent_detaches_then_inserts[where tree = emptyTree and a = "''ceo''" and p = None
      and nm = "''D''" and np = None and cs = "[]" and pos = 1 and ns = "[]"
      and q = "''cfo''" and q' = "''cfo''" and pp = "Some ''ceo''" and pcs = "[]" and ppos = 1
      and n = "OrgNode ''vp'' (Some ''ceo'') [OrgNode ''e1'' (Some ''vp'') [] 0] 0"
      and b = "''vp''"]
  by (simp add: sampleOrg_def removeFromTree_Cons removeFromTree_Nil)

text \<open>
  C10. After \<^verbatim>\<open>setParent(a, p)\<close> the tree has exactly one node named \<open>a\<close>, it stores the
  parent \<open>p\<close> and its list of children is empty, whatever \<open>a\<close> had before, so
  \<^verbatim>\<open>getChildren(a)\<close> is empty. In a tree where every name occurs once, the names of the
  result are \<open>a\<close> and the former names that were not below \<open>a\<close>, each once: every name
  that was below \<open>a\<close> is gone from the tree, and nothing else is. The former subtree is
  dropped, not moved and not reparented.
\<close>

theorem setParent_discards_subtree:
  "(\<exists>k. findNode (roots (setParent tree a p)) a = Some (OrgNode a p [] k)) \<and>
   getChildren (setParent tree a p) a = [] \<and>
   count_list (names (roots (setParent tree a p))) a = 1 \<and>
   (distinct (names (roots tree)) \<and> findNode (roots tree) a = Some n \<longrightarrow>
      set (names (roots (setParent tree a p))) =
        insert a (set (names (roots tree)) - set (names (children n))) \<and>
      distinct (names (roots (setParent tree a p))) \<and>
      (d \<in> set (names (children n)) \<longrightarrow> findNode (roots (setParent tree a p)) d = None))"
proof (intro conjI impI)
  have e: "\<exists>k. findNode (attach (removeFromTree (roots tree) a) p (OrgNode a p [] 0)) a =
      Some (OrgNode a p [] k)"
    by (rule findNode_attach_new) (rule findNode_removeFromTree_self)
  then show "\<exists>k. findNode (roots (setParent tree a p)) a = Some (OrgNode a p [] k)"
    by (simp add: setParent_def Let_def)
  from e show "getChildren (setParent tree a p) a = []"
    by (auto simp: getChildren_def setParent_def Let_def)
  show "count_list (names (roots (setParent tree a p))) a = 1"
    by (rule count_setParent)
next
  assume h: "distinct (names (roots tree)) \<and> findNode (roots tree) a = Some n"
  then have dist: "distinct (names (roots tree))" and f: "findNode (roots tree) a = Some n"
    by simp_all
  have s: "set (names (roots (setParent tree a p))) =
      insert a (set (names (removeFromTree (roots tree) a)))"
    by (simp add: setParent_def names_attach Let_def)
  from findNode_not_own_descendant[OF dist f] have na: "a \<notin> set (names (children n))" .
  from f have "a \<in> set (names (roots tree))"
    using findNode_None_iff[of "roots tree" a] by simp
  with na show eq: "set (names (roots (setParent tree a p))) =
        insert a (set (names (roots tree)) - set (names (children n)))"
    unfolding s names_removeFromTree_distinct[OF dist f] by blast
  have m: "mset (names (roots (setParent tree a p))) =
      mset (names (removeFromTree (roots tree) a)) + {#a#}"
    by (simp add: setParent_def Let_def mset_names_attach)
  have "distinct (a # names (removeFromTree (roots tree) a))"
    using distinct_names_removeFromTree[OF dist, of a] names_removeFromTree_absent[of a "roots tree"]
    by simp
  moreover have "mset (names (roots (setParent tree a p))) =
      mset (a # names (removeFromTree (roots tree) a))"
    using m by simp
  ultimately show "distinct (names (roots (setParent tree a p)))"
    by (metis mset_eq_imp_distinct_iff)
  {
    assume d: "d \<in> set (names (children n))"
    with na have "d \<noteq> a" by blast
    with d eq show "findNode (roots (setParent tree a p)) d = None"
      by (simp add: findNode_None_iff)
  }
qed

theorem setParent_discards_subtree_witness:
  "distinct (names (roots sampleOrg)) \<and>
   findNode (roots sampleOrg) ''vp'' =
     Some (OrgNode ''vp'' (Some ''ceo'') [OrgNode ''e1'' (Some ''vp'') [] 0] 0) \<and>
   ''e1'' \<in> set (names [OrgNode ''e1'' (Some ''vp'') [] 0]) \<and>
   findNode (roots (setParent sampleOrg ''vp'' (Some ''D''))) ''vp'' =
     Some (OrgNode ''vp'' (Some ''D'') [] 0) \<and>
   getChildren (setParent sampleOrg ''vp'' (Some ''D'')) ''vp'' = [] \<and>
   set (names (roots (setParent sampleOrg ''vp'' (Some ''D'')))) =
     {''ceo'', ''cfo'', ''D'', ''vp''} \<and>
   findNode (roots (setParent sampleOrg ''vp'' (Some ''D''))) ''e1'' = None"
proof -
  have r: "roots (setParent sampleOrg ''vp'' (Some ''D'')) =
      [OrgNode ''ceo'' None [OrgNode ''cfo'' (Some ''ceo'') [] 1] 0,
       OrgNode ''D'' None [OrgNode ''vp'' (Some ''D'') [] 0] 1]"
    by (simp add: sampleOrg_def org_defs)
  show ?thesis
    using setParent_discards_subtree[where tree = sampleOrg and a = "''vp''" and p = "Some ''D''"
        and n = "OrgNode ''vp'' (Some ''ceo'') [OrgNode ''e1'' (Some ''vp'') [] 0] 0"
        and d = "''e1''"]
    unfolding r
    by (auto simp: sampleOrg_def getChildren_def)
qed

section \<open>Facts about the engine\<close>

lemmas engine_defs = spawnAgent_def completeAgent_def completeAgent_task_def
  completeAgent_agent_def finish_task_def deliverResult_def handleChildCompletion_def
  tick_def emit_def now_def TaskStorage_save_def TaskStorage_get_def AgentStorage_save_def
  AgentStorage_get_def getRunningAgentCount_def Let_def

lemma deliverResult_agentsDir: "agentsDir (deliverResult s t i r st) = agentsDir s"
  by (simp add: deliverResult_def handleChildCompletion_def tick_def Let_def
      split: option.splits)

lemma deliverResult_tasksDir: "tasksDir (deliverResult s t i r st) = tasksDir s"
  by (simp add: deliverResult_def handleChildCompletion_def tick_def Let_def
      split: option.splits)

lemma completeAgent_task_agentsDir:
  "agentsDir (completeAgent_task s i st r c d n) = agentsDir s"
  by (simp add: completeAgent_task_def deliverResult_agentsDir tick_def emit_def Let_def
      split: option.splits)

lemma completeAgent_agent_tasksDir:
  "tasksDir (completeAgent_agent s a) = tasksDir s"
  by (simp add: completeAgent_agent_def tick_def emit_def Let_def split: option.splits)

lemma completeAgent_task_missing:
  "TaskStorage_get (tasksDir s) i = None \<Longrightarrow> completeAgent_task s i st r c d n = s"
  by (simp add: completeAgent_task_def)

lemma threeRunning_count: "getRunningAgentCount threeRunning = 3 \<and> concurrencyLimit threeRunning = 3"
  by (simp add: threeRunning_def engine_defs newEngine_def makeAgent_def makeTask_def
      DEFAULT_CONCURRENCY_LIMIT_def)

lemma stamp_Cons: "stamp (c # cs) = (if c = CHR '':'' \<or> c = CHR ''.'' then CHR ''-'' else c) # stamp cs"
  by (simp add: stamp_def)

lemma stamp_Nil: "stamp [] = []"
  by (simp add: stamp_def)

lemma length_stamp: "length (stamp s) = length s"
  by (simp add: stamp_def)

lemma sameShape_Cons:
  "sameShape (a # as) (b # bs) \<longleftrightarrow> (if isMark a \<or> isMark b then a = b else True) \<and> sameShape as bs"
  by (simp add: sameShape_def)

lemma sameShape_length: "sameShape xs ys \<Longrightarrow> length xs = length ys"
  by (simp add: sameShape_def list_all2_lengthD)

lemma stamp_less:
  "sameShape xs ys \<Longrightarrow> xs < ys \<Longrightarrow> stamp xs @ r1 < stamp ys @ r2"
  unfolding sameShape_def
proof (induction xs ys rule: list_all2_induct)
  case Nil
  then show ?case by simp
next
  case (Cons a as b bs)
  from Cons.prems have "a < b \<or> (a = b \<and> as < bs)" by simp
  then show ?case
  proof
    assume lt: "a < b"
    then have "a \<noteq> b" by simp
    with Cons.hyps(1) have "\<not> isMark a" "\<not> isMark b" by (auto split: if_splits)
    then have "stamp [a] = [a]" "stamp [b] = [b]" by (simp_all add: stamp_def isMark_def)
    with lt show ?thesis by (simp add: stamp_Cons stamp_Nil split: if_splits)
  next
    assume "a = b \<and> as < bs"
    with Cons.IH show ?thesis by (simp add: stamp_Cons)
  qed
qed

lemma stamp_inj:
  "sameShape xs ys \<Longrightarrow> stamp xs = stamp ys \<Longrightarrow> xs = ys"
  unfolding sameShape_def
proof (induction xs ys rule: list_all2_induct)
  case Nil
  then show ?case by simp
next
  case (Cons a as b bs)
  from Cons.prems have h: "(if a = CHR '':'' \<or> a = CHR ''.'' then CHR ''-'' else a) =
      (if b = CHR '':'' \<or> b = CHR ''.'' then CHR ''-'' else b)" and t: "stamp as = stamp bs"
    by (simp_all add: stamp_Cons)
  from h Cons.hyps(1) have "a = b" by (auto simp: isMark_def split: if_splits)
  with Cons.IH[OF t] show ?case by simp
qed

lemma resultFileName_inj:
  assumes "sameShape iso1 iso2" "resultFileName iso1 c1 = resultFileName iso2 c2"
  shows "iso1 = iso2 \<and> c1 = c2"
proof -
  from assms(1) have l: "length (stamp iso1) = length (stamp iso2)"
    by (simp add: length_stamp sameShape_length)
  from assms(2) have "stamp iso1 @ (''-'' @ c1 @ ''.md'') = stamp iso2 @ (''-'' @ c2 @ ''.md'')"
    by (simp add: resultFileName_def)
  with l have "stamp iso1 = stamp iso2" and "''-'' @ c1 @ ''.md'' = ''-'' @ c2 @ ''.md''"
    by (simp_all add: append_eq_append_conv)
  with assms(1) show ?thesis by (simp add: stamp_inj)
qed

lemma resultsDir_completeAgent_agent: "resultsDir (completeAgent_agent s a) = resultsDir s"
  by (simp add: completeAgent_agent_def tick_def emit_def Let_def split: option.splits)

lemma sublist_mid: "sublist x (pre @ x @ post)"
  by (auto simp: sublist_def)

lemma completeAgent_resultsDir_delivered:
  assumes "TaskStorage_get (tasksDir s) taskId = Some t" and "task_id t = taskId"
    and "task_parentTaskId t = Some parentId" and "parentId \<noteq> []"
    and "task_delegatorId t = Some delegator" and "delegator \<noteq> []"
    and "TaskStorage_get (tasksDir s) parentId = Some parentTask"
  shows "resultsDir (completeAgent s agent taskId status result costUsd durationMs numTurns) =
     (resultsDir s)
       ((task_assigneeId parentTask, resultFileName (clock s (Suc (ticks s))) taskId) \<mapsto>
          resultBody (clock s (Suc (ticks s))) taskId (finalStatusText status) result)"
proof (cases "parentId = taskId")
  case True
  with assms have "parentTask = t" by simp
  with assms True show ?thesis
    by (simp add: completeAgent_def resultsDir_completeAgent_agent completeAgent_task_def
        deliverResult_def handleChildCompletion_def TaskStorage_get_def TaskStorage_save_def
        tick_def emit_def now_def Let_def)
next
  case False
  with assms show ?thesis
    by (simp add: completeAgent_def resultsDir_completeAgent_agent completeAgent_task_def
        deliverResult_def handleChildCompletion_def TaskStorage_get_def TaskStorage_save_def
        tick_def emit_def now_def Let_def)
qed

lemma sample_stamps:
  "sameShape ''2024-06-01T00:00:00.000Z'' ''2024-06-01T00:00:00.001Z'' \<and>
   ''2024-06-01T00:00:00.000Z'' < ''2024-06-01T00:00:00.001Z''"
  by code_simp

lemma completeAgent_tasksDir:
  "tasksDir (completeAgent s agent taskId status result costUsd durationMs numTurns) =
     (case TaskStorage_get (tasksDir s) taskId of
        None \<Rightarrow> tasksDir s
      | Some t \<Rightarrow> TaskStorage_save (tasksDir s)
          (t\<lparr>task_status := toTaskStatus status, task_result := result,
             task_completedAt := Some (now s),
             task_costUsd := orKeep costUsd (task_costUsd t),
             task_durationMs := orKeep durationMs (task_durationMs t),
             task_numTurns := orKeep numTurns (task_numTurns t)\<rparr>))"
  by (simp add: completeAgent_def completeAgent_agent_tasksDir completeAgent_task_def
      deliverResult_tasksDir tick_def emit_def Let_def split: option.splits)

lemma finish_task_tasksDir:
  "tasksDir (fst (finish_task s taskId status result)) =
     (case TaskStorage_get (tasksDir s) taskId of
        None \<Rightarrow> tasksDir s
      | Some t \<Rightarrow> TaskStorage_save (tasksDir s)
          (t\<lparr>task_status := toTaskStatus status, task_result := Some result,
             task_completedAt := Some (now s)\<rparr>))"
  by (simp add: finish_task_def deliverResult_tasksDir tick_def emit_def Let_def
      split: option.splits)

lemma isTerminal_toTaskStatus: "isTerminal (toTaskStatus status)"
  by (cases status) simp_all

lemma completedOnce_tasks:
  "tasksDir completedOnce =
     Map.empty(''T1.json'' \<mapsto> (makeTask ''T1'' ''eng'' None None ''2024-01-01T00:00:00.000Z'')
       \<lparr>task_status := task_completed, task_result := Some ''done'',
        task_completedAt := Some ''2024-06-01T00:00:00.000Z''\<rparr>)"
  by (simp add: completedOnce_def completeAgent_tasksDir onlyTask_def newEngine_def
      TaskStorage_get_def TaskStorage_save_def makeTask_def now_def orKeep_def)

lemma completedOnce_gate:
  "getRunningAgentCount completedOnce = 0 \<and> concurrencyLimit completedOnce = 3"
  by (simp add: completedOnce_def onlyTask_def newEngine_def completeAgent_def
      completeAgent_agent_def completeAgent_task_def deliverResult_def TaskStorage_get_def
      TaskStorage_save_def AgentStorage_get_def makeTask_def tick_def emit_def Let_def
      getRunningAgentCount_def DEFAULT_CONCURRENCY_LIMIT_def)

lemma spawnAgent_tasksDir:
  "int (getRunningAgentCount s) < concurrencyLimit s \<Longrightarrow>
   tasksDir (fst (spawnAgent s options)) =
     TaskStorage_save (tasksDir s)
       ((opt_task options)\<lparr>task_status := task_running,
          task_startedAt := Some (clock s (Suc (ticks s)))\<rparr>)"
  by (simp add: engine_defs)

section \<open>Claims about the engine\<close>

text \<open>
  C1. The limit of a new engine is 3. In every state where the number of running agents
  has reached the limit, \<^verbatim>\<open>spawnAgent\<close> raises the limit error and leaves the whole
  state as it was: no store, no event, no clock reading, no entry of the running registry
  changes.
\<close>

theorem spawnAgent_rejected_at_limit:
  "concurrencyLimit (newEngine clk) = 3 \<and>
   (concurrencyLimit s \<le> int (getRunningAgentCount s) \<longrightarrow>
      spawnAgent s options =
        (s, Inl (ConcurrencyLimitReached (concurrencyLimit s)
                   (agent_name (opt_agentConfig options)))))"
  by (simp add: newEngine_def DEFAULT_CONCURRENCY_LIMIT_def spawnAgent_def
      getRunningAgentCount_def)

theorem spawnAgent_rejected_at_limit_witness:
  "concurrencyLimit threeRunning \<le> int (getRunningAgentCount threeRunning) \<and>
   spawnAgent threeRunning
     \<lparr>opt_agentConfig = makeAgent ''a4'',
      opt_task = makeTask ''T4'' ''a4'' None None ''2024-01-01T00:00:00.000Z''\<rparr> =
     (threeRunning, Inl (ConcurrencyLimitReached 3 ''a4''))"
  using spawnAgent_rejected_at_limit[of "\<lambda>n. []" threeRunning
      "\<lparr>opt_agentConfig = makeAgent ''a4'',
        opt_task = makeTask ''T4'' ''a4'' None None ''2024-01-01T00:00:00.000Z''\<rparr>"]
  by (simp add: threeRunning_count makeAgent_def)

text \<open>
  C9. \<^verbatim>\<open>completeAgent\<close> is a total function, so a missing record never raises. When
  the task file is missing and the agent file holds the agent of that name, the agent is
  stored again as idle, without a current task, with the time of the call, and the task
  store is unchanged. When the agent file is missing and the task file holds the task of
  that id, the task is stored with the status given, the result, the time of completion
  and the telemetry given, and the agent store is unchanged.
\<close>

theorem completeAgent_skips_missing_side:
  "(TaskStorage_get (tasksDir s) taskId = None \<and>
    AgentStorage_get (agentsDir s) agent = Some a \<and> agent_name a = agent \<longrightarrow>
      AgentStorage_get
        (agentsDir (completeAgent s agent taskId status result costUsd durationMs numTurns))
        agent =
        Some (a\<lparr>agent_status := agent_idle, agent_currentTaskId := None,
                agent_updatedAt := now s\<rparr>) \<and>
      tasksDir (completeAgent s agent taskId status result costUsd durationMs numTurns) =
        tasksDir s) \<and>
   (AgentStorage_get (agentsDir s) agent = None \<and>
    TaskStorage_get (tasksDir s) taskId = Some t \<and> task_id t = taskId \<longrightarrow>
      TaskStorage_get
        (tasksDir (completeAgent s agent taskId status result costUsd durationMs numTurns))
        taskId =
        Some (t\<lparr>task_status := toTaskStatus status, task_result := result,
                task_completedAt := Some (now s),
                task_costUsd := orKeep costUsd (task_costUsd t),
                task_durationMs := orKeep durationMs (task_durationMs t),
                task_numTurns := orKeep numTurns (task_numTurns t)\<rparr>) \<and>
      agentsDir (completeAgent s agent taskId status result costUsd durationMs numTurns) =
        agentsDir s)"
proof (intro conjI impI)
  assume h: "TaskStorage_get (tasksDir s) taskId = None \<and>
    AgentStorage_get (agentsDir s) agent = Some a \<and> agent_name a = agent"
  then have t: "completeAgent_task s taskId status result costUsd durationMs numTurns = s"
    by (simp add: completeAgent_task_missing)
  from h show "AgentStorage_get
        (agentsDir (completeAgent s agent taskId status result costUsd durationMs numTurns))
        agent =
        Some (a\<lparr>agent_status := agent_idle, agent_currentTaskId := None,
                agent_updatedAt := now s\<rparr>)"
    by (simp add: completeAgent_def t completeAgent_agent_def AgentStorage_get_def
        AgentStorage_save_def tick_def emit_def now_def Let_def)
  show "tasksDir (completeAgent s agent taskId status result costUsd durationMs numTurns) =
        tasksDir s"
    by (simp add: completeAgent_def t completeAgent_agent_tasksDir Let_def)
next
  assume h: "AgentStorage_get (agentsDir s) agent = None \<and>
    TaskStorage_get (tasksDir s) taskId = Some t \<and> task_id t = taskId"
  then have g: "AgentStorage_get
      (agentsDir (completeAgent_task s taskId status result costUsd durationMs numTurns)) agent
      = None"
    by (simp add: completeAgent_task_agentsDir)
  from h show "TaskStorage_get
        (tasksDir (completeAgent s agent taskId status result costUsd durationMs numTurns))
        taskId =
        Some (t\<lparr>task_status := toTaskStatus status, task_result := result,
                task_completedAt := Some (now s),
                task_costUsd := orKeep costUsd (task_costUsd t),
                task_durationMs := orKeep durationMs (task_durationMs t),
                task_numTurns := orKeep numTurns (task_numTurns t)\<rparr>)"
    by (simp add: completeAgent_def completeAgent_agent_tasksDir completeAgent_task_def
        deliverResult_tasksDir TaskStorage_get_def TaskStorage_save_def tick_def emit_def
        now_def Let_def)
  from g show "agentsDir (completeAgent s agent taskId status result costUsd durationMs numTurns) =
        agentsDir s"
    by (simp add: completeAgent_def completeAgent_agent_def completeAgent_task_agentsDir
        Let_def)
qed

theorem completeAgent_skips_missing_side_witness:
  "TaskStorage_get (tasksDir onlyAgent) ''T1'' = None \<and>
   AgentStorage_get (agentsDir onlyAgent) ''eng'' = Some (makeAgent ''eng'') \<and>
   agent_name (makeAgent ''eng'') = ''eng'' \<and>
   map_option agent_status (AgentStorage_get
       (agentsDir (completeAgent onlyAgent ''eng'' ''T1'' completed (Some ''done'') None None None))
       ''eng'') = Some agent_idle \<and>
   AgentStorage_get (agentsDir onlyTask) ''eng'' = None \<and>
   TaskStorage_get (tasksDir onlyTask) ''T1'' =
     Some (makeTask ''T1'' ''eng'' None None ''2024-01-01T00:00:00.000Z'') \<and>
   map_option task_status (TaskStorage_get
       (tasksDir (completeAgent onlyTask ''eng'' ''T1'' failed None None None None))
       ''T1'') = Some task_failed"
  using completeAgent_skips_missing_side[of onlyAgent "''T1''" "''eng''" "makeAgent ''eng''"
      completed "Some ''done''" None None None
      "makeTask ''T1'' ''eng'' None None ''2024-01-01T00:00:00.000Z''"]
    completeAgent_skips_missing_side[of onlyTask "''T1''" "''eng''" "makeAgent ''eng''"
      failed None None None None
      "makeTask ''T1'' ''eng'' None None ''2024-01-01T00:00:00.000Z''"]
  by (simp add: onlyAgent_def onlyTask_def newEngine_def makeAgent_def makeTask_def
      TaskStorage_get_def TaskStorage_save_def AgentStorage_get_def AgentStorage_save_def)

text \<open>
  C2, as stated, fails. \<open>T1\<close> is completed. A second \<^verbatim>\<open>completeAgent\<close> with status
  failed stores it as failed, \<^verbatim>\<open>finish_task\<close> with status blocked stores it as
  blocked, and \<^verbatim>\<open>spawnAgent\<close> with the completed task stores it as running: no
  operation looks at the status a task has.
\<close>

theorem terminal_status_changes_counterexample:
  "map_option task_status (TaskStorage_get (tasksDir completedOnce) ''T1'') =
     Some task_completed \<and>
   map_option task_status (TaskStorage_get
     (tasksDir (completeAgent completedOnce ''eng'' ''T1'' failed None None None None))
     ''T1'') = Some task_failed \<and>
   map_option task_status (TaskStorage_get
     (tasksDir (fst (finish_task completedOnce ''T1'' blocked ''stuck''))) ''T1'') =
     Some task_blocked \<and>
   map_option task_status (TaskStorage_get
     (tasksDir (fst (spawnAgent completedOnce
        \<lparr>opt_agentConfig = makeAgent ''eng'',
         opt_task = (makeTask ''T1'' ''eng'' None None ''2024-01-01T00:00:00.000Z'')
           \<lparr>task_status := task_completed\<rparr>\<rparr>))) ''T1'') = Some task_running"
  by (simp add: completeAgent_tasksDir finish_task_tasksDir spawnAgent_tasksDir
      completedOnce_gate completedOnce_tasks TaskStorage_get_def TaskStorage_save_def
      makeTask_def)

text \<open>
  C2, amended. \<^verbatim>\<open>completeAgent\<close> and \<^verbatim>\<open>finish_task\<close> never leave a stored task
  that was in a terminal state in a state that is not terminal: every task file that held
  a terminal task holds one afterwards. They do overwrite the status of the task they
  name with the terminal status given, whatever it was. \<^verbatim>\<open>spawnAgent\<close>, when the gate
  admits it, stores the task it is given as running, whatever its status was.
\<close>

theorem terminal_task_stays_terminal:
  "(tasksDir s k = Some t \<and> isTerminal (task_status t) \<longrightarrow>
      map_option (\<lambda>t'. isTerminal (task_status t'))
        (tasksDir (completeAgent s agent taskId status result costUsd durationMs numTurns) k) =
        Some True \<and>
      map_option (\<lambda>t'. isTerminal (task_status t'))
        (tasksDir (fst (finish_task s taskId status summary)) k) = Some True) \<and>
   (TaskStorage_get (tasksDir s) taskId = Some t0 \<and> task_id t0 = taskId \<longrightarrow>
      map_option task_status (TaskStorage_get
        (tasksDir (completeAgent s agent taskId status result costUsd durationMs numTurns))
        taskId) = Some (toTaskStatus status) \<and>
      map_option task_status (TaskStorage_get
        (tasksDir (fst (finish_task s taskId status summary))) taskId) =
        Some (toTaskStatus status)) \<and>
   (int (getRunningAgentCount s) < concurrencyLimit s \<longrightarrow>
      map_option task_status (TaskStorage_get (tasksDir (fst (spawnAgent s options)))
        (task_id (opt_task options))) = Some task_running)"
proof (intro conjI impI)
  assume h: "tasksDir s k = Some t \<and> isTerminal (task_status t)"
  then show "map_option (\<lambda>t'. isTerminal (task_status t'))
        (tasksDir (completeAgent s agent taskId status result costUsd durationMs numTurns) k) =
        Some True"
    by (simp add: completeAgent_tasksDir TaskStorage_save_def isTerminal_toTaskStatus
        split: option.splits)
  from h show "map_option (\<lambda>t'. isTerminal (task_status t'))
        (tasksDir (fst (finish_task s taskId status summary)) k) = Some True"
    by (simp add: finish_task_tasksDir TaskStorage_save_def isTerminal_toTaskStatus
        split: option.splits)
next
  assume h: "TaskStorage_get (tasksDir s) taskId = Some t0 \<and> task_id t0 = taskId"
  then show "map_option task_status (TaskStorage_get
        (tasksDir (completeAgent s agent taskId status result costUsd durationMs numTurns))
        taskId) = Some (toTaskStatus status)"
    by (simp add: completeAgent_tasksDir TaskStorage_save_def TaskStorage_get_def)
  from h show "map_option task_status (TaskStorage_get
        (tasksDir (fst (finish_task s taskId status summary))) taskId) =
        Some (toTaskStatus status)"
    by (simp add: finish_task_tasksDir TaskStorage_save_def TaskStorage_get_def)
next
  assume "int (getRunningAgentCount s) < concurrencyLimit s"
  then show "map_option task_status (TaskStorage_get (tasksDir (fst (spawnAgent s options)))
        (task_id (opt_task options))) = Some task_running"
    by (simp add: engine_defs)
qed

theorem terminal_task_stays_terminal_witness:
  "tasksDir completedOnce ''T1.json'' \<noteq> None \<and>
   map_option (\<lambda>t'. isTerminal (task_status t')) (tasksDir completedOnce ''T1.json'') = Some True \<and>
   map_option (\<lambda>t'. isTerminal (task_status t'))
     (tasksDir (completeAgent completedOnce ''eng'' ''T1'' failed None None None None)
        ''T1.json'') = Some True \<and>
   map_option task_status (TaskStorage_get
     (tasksDir (fst (finish_task completedOnce ''T1'' blocked ''stuck''))) ''T1'') =
     Some task_blocked \<and>
   int (getRunningAgentCount completedOnce) < concurrencyLimit completedOnce \<and>
   map_option task_status (TaskStorage_get
     (tasksDir (fst (spawnAgent completedOnce
        \<lparr>opt_agentConfig = makeAgent ''eng'',
         opt_task = makeTask ''T2'' ''eng'' None None ''2024-01-01T00:00:00.000Z''\<rparr>))) ''T2'') =
     Some task_running"
  using terminal_task_stays_terminal[where s = completedOnce and k = "''T1.json''"
      and t = "(makeTask ''T1'' ''eng'' None None ''2024-01-01T00:00:00.000Z'')
           \<lparr>task_status := task_completed, task_result := Some ''done'',
            task_completedAt := Some ''2024-06-01T00:00:00.000Z''\<rparr>"
      and ?t0.0 = "(makeTask ''T1'' ''eng'' None None ''2024-01-01T00:00:00.000Z'')
           \<lparr>task_status := task_completed, task_result := Some ''done'',
            task_completedAt := Some ''2024-06-01T00:00:00.000Z''\<rparr>"
      and agent = "''eng''" and taskId = "''T1''" and status = failed and result = None
      and costUsd = None and durationMs = None and numTurns = None
      and summary = "''stuck''"
      and options = "\<lparr>opt_agentConfig = makeAgent ''eng'',
         opt_task = makeTask ''T2'' ''eng'' None None ''2024-01-01T00:00:00.000Z''\<rparr>"]
    terminal_task_stays_terminal[where s = completedOnce and k = "''T1.json''"
      and ?t0.0 = "(makeTask ''T1'' ''eng'' None None ''2024-01-01T00:00:00.000Z'')
           \<lparr>task_status := task_completed, task_result := Some ''done'',
            task_completedAt := Some ''2024-06-01T00:00:00.000Z''\<rparr>"
      and agent = "''eng''" and taskId = "''T1''" and status = blocked and result = None
      and costUsd = None and durationMs = None and numTurns = None
      and summary = "''stuck''"
      and options = "\<lparr>opt_agentConfig = makeAgent ''eng'',
         opt_task = makeTask ''T2'' ''eng'' None None ''2024-01-01T00:00:00.000Z''\<rparr>"]
  by (simp add: completedOnce_tasks completedOnce_gate TaskStorage_get_def makeTask_def)

text \<open>
  C3, as stated, fails. With a clock that reads the same millisecond twice, the second
  completion of the same child writes the same file name: the mailbox holds one file
  after two deliveries, and the first delivery is overwritten. And a child whose
  delegator is the empty text, which is not null, delivers nothing although its parent
  task is found.
\<close>

theorem delivery_overwrite_counterexample:
  "resultsDir (completeAgent delegated ''eng'' ''T1'' completed (Some ''first'') None None None) =
     Map.empty((''ceo'', ''2024-06-01T00-00-00-000Z-T1.md'') \<mapsto>
       ''# Child Task Result'' @ nl @ nl @ ''**Task ID**: T1'' @ nl @
       ''**Status**: completed'' @ nl @ ''**Completed**: 2024-06-01T00:00:00.000Z'' @ nl @ nl @
       ''---'' @ nl @ nl @ ''first'' @ nl) \<and>
   resultsDir (completeAgent
       (completeAgent delegated ''eng'' ''T1'' completed (Some ''first'') None None None)
       ''eng'' ''T1'' completed (Some ''second'') None None None) =
     Map.empty((''ceo'', ''2024-06-01T00-00-00-000Z-T1.md'') \<mapsto>
       ''# Child Task Result'' @ nl @ nl @ ''**Task ID**: T1'' @ nl @
       ''**Status**: completed'' @ nl @ ''**Completed**: 2024-06-01T00:00:00.000Z'' @ nl @ nl @
       ''---'' @ nl @ nl @ ''second'' @ nl) \<and>
   map_option task_parentTaskId (TaskStorage_get (tasksDir delegatedByNobody) ''T1'') =
     Some (Some ''T0'') \<and>
   map_option task_delegatorId (TaskStorage_get (tasksDir delegatedByNobody) ''T1'') =
     Some (Some []) \<and>
   map_option task_assigneeId (TaskStorage_get (tasksDir delegatedByNobody) ''T0'') =
     Some ''ceo'' \<and>
   resultsDir (completeAgent delegatedByNobody ''eng'' ''T1'' completed (Some ''done'')
       None None None) = Map.empty"
  by (simp add: delegated_def delegatedByNobody_def newEngine_def makeTask_def engine_defs
      resultFileName_def stamp_def resultBody_def resultText_def trim_def trimEnd_def
      trimStart_def isWhiteSpace_def)

text \<open>
  C3, amended. For a call of \<^verbatim>\<open>completeAgent\<close> on a stored task whose parent task id
  and delegator are both not null and not empty and whose parent task is found, the
  results directory afterwards is the one before with exactly one file written: in the
  mailbox of the assignee of the parent task, named by the second clock reading of the
  call with \<open>:\<close> and \<open>.\<close> replaced by \<open>-\<close>, then \<open>-\<close>, the id of the child and
  \<open>.md\<close>. The file is new unless one of that name was there, which it replaces. The body
  contains the id of the child and the status given. For timestamps of the same shape the
  file names are ordered as the timestamps are, and two file names are equal only for the
  same timestamp and the same child.
\<close>

theorem completeAgent_delivers_artifact:
  "(TaskStorage_get (tasksDir s) taskId = Some t \<and> task_id t = taskId \<and>
    task_parentTaskId t = Some parentId \<and> parentId \<noteq> [] \<and>
    task_delegatorId t = Some delegator \<and> delegator \<noteq> [] \<and>
    TaskStorage_get (tasksDir s) parentId = Some parentTask \<longrightarrow>
      resultsDir (completeAgent s agent taskId status result costUsd durationMs numTurns) =
        (resultsDir s)
          ((task_assigneeId parentTask, resultFileName (clock s (Suc (ticks s))) taskId) \<mapsto>
             resultBody (clock s (Suc (ticks s))) taskId (finalStatusText status) result)) \<and>
   resultFileName isoNow taskId = stamp isoNow @ ''-'' @ taskId @ ''.md'' \<and>
   sublist taskId (resultBody isoNow taskId (finalStatusText status) result) \<and>
   sublist (finalStatusText status) (resultBody isoNow taskId (finalStatusText status) result) \<and>
   (sameShape iso1 iso2 \<and> iso1 < iso2 \<longrightarrow> resultFileName iso1 c1 < resultFileName iso2 c2) \<and>
   (sameShape iso1 iso2 \<and> resultFileName iso1 c1 = resultFileName iso2 c2 \<longrightarrow>
      iso1 = iso2 \<and> c1 = c2)"
proof (intro conjI impI)
  assume "TaskStorage_get (tasksDir s) taskId = Some t \<and> task_id t = taskId \<and>
    task_parentTaskId t = Some parentId \<and> parentId \<noteq> [] \<and>
    task_delegatorId t = Some delegator \<and> delegator \<noteq> [] \<and>
    TaskStorage_get (tasksDir s) parentId = Some parentTask"
  then show "resultsDir (completeAgent s agent taskId status result costUsd durationMs numTurns) =
        (resultsDir s)
          ((task_assigneeId parentTask, resultFileName (clock s (Suc (ticks s))) taskId) \<mapsto>
             resultBody (clock s (Suc (ticks s))) taskId (finalStatusText status) result)"
    using completeAgent_resultsDir_delivered by blast
next
  show "resultFileName isoNow taskId = stamp isoNow @ ''-'' @ taskId @ ''.md''"
    by (simp add: resultFileName_def)
next
  have "resultBody isoNow taskId (finalStatusText status) result =
      (''# Child Task Result'' @ nl @ nl @ ''**Task ID**: '') @ taskId @
      (nl @ ''**Status**: '' @ finalStatusText status @ nl @ ''**Completed**: '' @ isoNow @ nl @ nl @
       ''---'' @ nl @ nl @ resultText result @ nl)"
    by (simp add: resultBody_def)
  then show "sublist taskId (resultBody isoNow taskId (finalStatusText status) result)"
    by (simp only: sublist_mid)
next
  have "resultBody isoNow taskId (finalStatusText status) result =
      (''# Child Task Result'' @ nl @ nl @ ''**Task ID**: '' @ taskId @ nl @ ''**Status**: '') @
      finalStatusText status @
      (nl @ ''**Completed**: '' @ isoNow @ nl @ nl @
       ''---'' @ nl @ nl @ resultText result @ nl)"
    by (simp add: resultBody_def)
  then show "sublist (finalStatusText status)
      (resultBody isoNow taskId (finalStatusText status) result)"
    by (simp only: sublist_mid)
next
  assume "sameShape iso1 iso2 \<and> iso1 < iso2"
  then show "resultFileName iso1 c1 < resultFileName iso2 c2"
    by (simp add: resultFileName_def stamp_less)
next
  assume h: "sameShape iso1 iso2 \<and> resultFileName iso1 c1 = resultFileName iso2 c2"
  then show "iso1 = iso2" using resultFileName_inj by blast
  from h show "c1 = c2" using resultFileName_inj by blast
qed

theorem completeAgent_delivers_artifact_witness:
  "TaskStorage_get (tasksDir delegated) ''T1'' =
     Some (makeTask ''T1'' ''eng'' (Some ''T0'') (Some ''ceo'') ''2024-01-02T00:00:00.000Z'') \<and>
   TaskStorage_get (tasksDir delegated) ''T0'' =
     Some (makeTask ''T0'' ''ceo'' None None ''2024-01-01T00:00:00.000Z'') \<and>
   resultsDir (completeAgent delegated ''eng'' ''T1'' failed None None None None)
     (''ceo'', ''2024-06-01T00-00-00-000Z-T1.md'') =
     Some (''# Child Task Result'' @ nl @ nl @ ''**Task ID**: T1'' @ nl @
       ''**Status**: failed'' @ nl @ ''**Completed**: 2024-06-01T00:00:00.000Z'' @ nl @ nl @
       ''---'' @ nl @ nl @ ''(no result provided)'' @ nl) \<and>
   sameShape ''2024-06-01T00:00:00.000Z'' ''2024-06-01T00:00:00.001Z'' \<and>
   ''2024-06-01T00:00:00.000Z'' < ''2024-06-01T00:00:00.001Z'' \<and>
   resultFileName ''2024-06-01T00:00:00.000Z'' ''T9'' <
     resultFileName ''2024-06-01T00:00:00.001Z'' ''T1'' \<and>
   sameShape ''2024-06-01T00:00:00.000Z'' ''2024-06-01T00:00:00.000Z'' \<and>
   resultFileName ''2024-06-01T00:00:00.000Z'' ''T1'' =
     resultFileName ''2024-06-01T00:00:00.000Z'' ''T1''"
  using completeAgent_delivers_artifact[where s = delegated and taskId = "''T1''"
      and t = "makeTask ''T1'' ''eng'' (Some ''T0'') (Some ''ceo'') ''2024-01-02T00:00:00.000Z''"
      and parentId = "''T0''" and delegator = "''ceo''"
      and parentTask = "makeTask ''T0'' ''ceo'' None None ''2024-01-01T00:00:00.000Z''"
      and agent = "''eng''" and status = failed and result = None and costUsd = None
      and durationMs = None and numTurns = None
      and ?iso1.0 = "''2024-06-01T00:00:00.000Z''" and ?iso2.0 = "''2024-06-01T00:00:00.001Z''"
      and ?c1.0 = "''T9''" and ?c2.0 = "''T1''" and isoNow = "[]"]
    completeAgent_delivers_artifact[where s = delegated and taskId = "''T1''"
      and ?iso1.0 = "''2024-06-01T00:00:00.000Z''" and ?iso2.0 = "''2024-06-01T00:00:00.000Z''"
      and ?c1.0 = "''T1''" and ?c2.0 = "''T1''" and isoNow = "[]"]
    sample_stamps
  by (simp add: delegated_def newEngine_def makeTask_def TaskStorage_get_def
      TaskStorage_save_def resultFileName_def stamp_def resultBody_def resultText_def
      NO_RESULT_def sameShape_def isMark_def)

text \<open>
  C4, as stated, fails. An empty result is not null, so the body ends with an empty line
  and does not hold the placeholder; and a result with spaces around it is stored without
  them, not as it was given.
\<close>

theorem delivery_placeholder_counterexample:
  "resultsDir (handleChildCompletion (newEngine (\<lambda>n. ''2024-06-01T00:00:00.000Z''))
       ''T1'' (Some []) ''completed'' ''T0'' ''ceo'')
     (''ceo'', ''2024-06-01T00-00-00-000Z-T1.md'') =
     Some (''# Child Task Result'' @ nl @ nl @ ''**Task ID**: T1'' @ nl @
           ''**Status**: completed'' @ nl @ ''**Completed**: 2024-06-01T00:00:00.000Z'' @ nl @ nl @
           ''---'' @ nl @ nl @ nl) \<and>
   \<not> sublist ''(no result provided)''
       (resultBody ''2024-06-01T00:00:00.000Z'' ''T1'' ''completed'' (Some [])) \<and>
   \<not> sublist '' done ''
       (resultBody ''2024-06-01T00:00:00.000Z'' ''T1'' ''completed'' (Some '' done ''))"
proof (intro conjI)
  show "resultsDir (handleChildCompletion (newEngine (\<lambda>n. ''2024-06-01T00:00:00.000Z''))
       ''T1'' (Some []) ''completed'' ''T0'' ''ceo'')
     (''ceo'', ''2024-06-01T00-00-00-000Z-T1.md'') =
     Some (''# Child Task Result'' @ nl @ nl @ ''**Task ID**: T1'' @ nl @
           ''**Status**: completed'' @ nl @ ''**Completed**: 2024-06-01T00:00:00.000Z'' @ nl @ nl @
           ''---'' @ nl @ nl @ nl)"
    by (simp add: handleChildCompletion_def newEngine_def tick_def now_def Let_def
        resultFileName_def stamp_def resultBody_def resultText_def trim_def trimEnd_def
        trimStart_def)
next
  show "\<not> sublist ''(no result provided)''
       (resultBody ''2024-06-01T00:00:00.000Z'' ''T1'' ''completed'' (Some []))"
    by code_simp
next
  show "\<not> sublist '' done ''
       (resultBody ''2024-06-01T00:00:00.000Z'' ''T1'' ''completed'' (Some '' done ''))"
    by code_simp
qed

text \<open>
  C4, amended. Every delivery stores, under the name of its file, a body that holds the
  line of the child task id, the line of its status and the line of the completion time,
  each with the text as given, and ends with the rule, an empty line and the result: the
  placeholder \<open>(no result provided)\<close> when the result is null, and, when the result holds
  more than white space, the result with the white space at both ends trimmed.
\<close>

theorem delivery_body_fields:
  "resultsDir (handleChildCompletion s childTaskId childResult childStatus parentTaskId parentAgent)
     (parentAgent, resultFileName (now s) childTaskId) =
     Some (resultBody (now s) childTaskId childStatus childResult) \<and>
   sublist (''**Task ID**: '' @ childTaskId @ nl)
     (resultBody isoNow childTaskId childStatus childResult) \<and>
   sublist (''**Status**: '' @ childStatus @ nl)
     (resultBody isoNow childTaskId childStatus childResult) \<and>
   sublist (''**Completed**: '' @ isoNow @ nl)
     (resultBody isoNow childTaskId childStatus childResult) \<and>
   (childResult = None \<longrightarrow>
      suffix (''---'' @ nl @ nl @ ''(no result provided)'' @ nl)
        (resultBody isoNow childTaskId childStatus childResult)) \<and>
   (childResult = Some r \<and> trim r \<noteq> [] \<longrightarrow>
      suffix (''---'' @ nl @ nl @ trim r @ nl)
        (resultBody isoNow childTaskId childStatus childResult))"
proof (intro conjI impI)
  show "resultsDir (handleChildCompletion s childTaskId childResult childStatus parentTaskId parentAgent)
     (parentAgent, resultFileName (now s) childTaskId) =
     Some (resultBody (now s) childTaskId childStatus childResult)"
    by (simp add: handleChildCompletion_def tick_def Let_def)
next
  have "resultBody isoNow childTaskId childStatus childResult =
      (''# Child Task Result'' @ nl @ nl) @ (''**Task ID**: '' @ childTaskId @ nl) @
      (''**Status**: '' @ childStatus @ nl @ ''**Completed**: '' @ isoNow @ nl @ nl @
       ''---'' @ nl @ nl @ resultText childResult @ nl)"
    by (simp add: resultBody_def)
  then show "sublist (''**Task ID**: '' @ childTaskId @ nl)
     (resultBody isoNow childTaskId childStatus childResult)"
    by (simp only: sublist_mid)
next
  have "resultBody isoNow childTaskId childStatus childResult =
      (''# Child Task Result'' @ nl @ nl @ ''**Task ID**: '' @ childTaskId @ nl) @
      (''**Status**: '' @ childStatus @ nl) @ (''**Completed**: '' @ isoNow @ nl @ nl @
       ''---'' @ nl @ nl @ resultText childResult @ nl)"
    by (simp add: resultBody_def)
  then show "sublist (''**Status**: '' @ childStatus @ nl)
     (resultBody isoNow childTaskId childStatus childResult)"
    by (simp only: sublist_mid)
next
  have "resultBody isoNow childTaskId childStatus childResult =
      (''# Child Task Result'' @ nl @ nl @ ''**Task ID**: '' @ childTaskId @ nl @
       ''**Status**: '' @ childStatus @ nl) @ (''**Completed**: '' @ isoNow @ nl) @
      (nl @ ''---'' @ nl @ nl @ resultText childResult @ nl)"
    by (simp add: resultBody_def)
  then show "sublist (''**Completed**: '' @ isoNow @ nl)
     (resultBody isoNow childTaskId childStatus childResult)"
    by (simp only: sublist_mid)
next
  assume "childResult = None"
  then have "resultBody isoNow childTaskId childStatus childResult =
      (''# Child Task Result'' @ nl @ nl @ ''**Task ID**: '' @ childTaskId @ nl @
       ''**Status**: '' @ childStatus @ nl @ ''**Completed**: '' @ isoNow @ nl @ nl) @
      (''---'' @ nl @ nl @ ''(no result provided)'' @ nl)"
    by (simp add: resultBody_def resultText_def NO_RESULT_def)
  then show "suffix (''---'' @ nl @ nl @ ''(no result provided)'' @ nl)
        (resultBody isoNow childTaskId childStatus childResult)"
    by (simp only: suffix_def) blast
next
  assume "childResult = Some r \<and> trim r \<noteq> []"
  then have "resultBody isoNow childTaskId childStatus childResult =
      (''# Child Task Result'' @ nl @ nl @ ''**Task ID**: '' @ childTaskId @ nl @
       ''**Status**: '' @ childStatus @ nl @ ''**Completed**: '' @ isoNow @ nl @ nl) @
      (''---'' @ nl @ nl @ trim r @ nl)"
    by (simp add: resultBody_def resultText_def)
  then show "suffix (''---'' @ nl @ nl @ trim r @ nl)
        (resultBody isoNow childTaskId childStatus childResult)"
    by (simp only: suffix_def) blast
qed

theorem delivery_body_fields_witness:
  "suffix (''---'' @ nl @ nl @ ''(no result provided)'' @ nl)
     (resultBody ''2024-06-01T00:00:00.000Z'' ''T1'' ''failed'' None) \<and>
   trim '' done '' = ''done'' \<and>
   suffix (''---'' @ nl @ nl @ ''done'' @ nl)
     (resultBody ''2024-06-01T00:00:00.000Z'' ''T1'' ''completed'' (Some '' done ''))"
  using
    delivery_body_fields[where childResult = None and isoNow = "''2024-06-01T00:00:00.000Z''"
      and childTaskId = "''T1''" and childStatus = "''failed''" and r = "[]"]
    delivery_body_fields[where childResult = "Some '' done ''"
      and isoNow = "''2024-06-01T00:00:00.000Z''"
      and childTaskId = "''T1''" and childStatus = "''completed''" and r = "'' done ''"]
  by (simp add: trim_def trimStart_def trimEnd_def isWhiteSpace_def)

section \<open>Facts about the stores\<close>

subsection \<open>Paths\<close>

lemma splitOn_nonempty: "splitOn sep s \<noteq> []"
  by (induction s) (auto split: list.splits)

lemma splitOn_append: "splitOn sep (a @ sep # b) = splitOn sep a @ splitOn sep b"
proof (induction a)
  case Nil
  show ?case by simp
next
  case (Cons c a)
  obtain l ls where e: "splitOn sep a = l # ls"
    using splitOn_nonempty[of sep a] by (cases "splitOn sep a") auto
  show ?case using Cons e by simp
qed

lemma splitOn_free: "x \<in> set (splitOn sep s) \<Longrightarrow> sep \<notin> set x"
proof (induction s arbitrary: x)
  case Nil
  then show ?case by simp
next
  case (Cons c s)
  obtain l ls where e: "splitOn sep s = l # ls"
    using splitOn_nonempty[of sep s] by (cases "splitOn sep s") auto
  show ?case
  proof (cases "c = sep")
    case True
    then show ?thesis using Cons by auto
  next
    case False
    then have "x = c # l \<or> x \<in> set ls" using Cons.prems e by auto
    then show ?thesis using Cons.IH e False by auto
  qed
qed

lemma splitOn_single: "sep \<notin> set x \<Longrightarrow> splitOn sep x = [x]"
  by (induction x) auto

lemma splitOn_joinWith:
  "R \<noteq> [] \<Longrightarrow> \<forall>x\<in>set R. sep \<notin> set x \<Longrightarrow> splitOn sep (joinWith [sep] R) = R"
proof (induction "[sep]" R rule: joinWith.induct)
  case 1
  then show ?case by simp
next
  case (2 x)
  then show ?case by (simp add: splitOn_single)
next
  case (3 x y zs)
  have "splitOn sep (x @ sep # joinWith [sep] (y # zs)) =
      splitOn sep x @ splitOn sep (joinWith [sep] (y # zs))"
    by (rule splitOn_append)
  then show ?case using 3 by (simp add: splitOn_single)
qed

lemma normalizeSegments_append:
  "normalizeSegments allow acc (xs @ ys) =
     normalizeSegments allow (rev (normalizeSegments allow acc xs)) ys"
  by (induction xs arbitrary: acc) (auto split: list.splits)

lemma normalizeSegments_normal:
  "normalStack allow acc \<Longrightarrow>
     \<exists>acc'. normalizeSegments allow acc xs = rev acc' \<and> normalStack allow acc'"
proof (induction xs arbitrary: acc)
  case Nil
  then show ?case by auto
next
  case (Cons seg xs)
  show ?case
  proof (cases "seg = [] \<or> seg = ''.''")
    case True
    then show ?thesis using Cons by auto
  next
    case False
    show ?thesis
    proof (cases "seg = ''..''")
      case dots: True
      show ?thesis
      proof (cases acc)
        case Nil
        have "normalStack allow [''..''] \<or> \<not> allow" by simp
        then show ?thesis using Cons.IH[of "[''..'']"] Cons.IH[of "[]"] dots Nil
          by (cases allow) auto
      next
        case (Cons t below)
        have nb: "normalStack allow below" using Cons.prems Cons by simp
        show ?thesis
        proof (cases "t = ''..''")
          case True
          then have al: allow using Cons.prems Cons by simp
          have "normalStack allow (''..'' # acc)" using Cons.prems Cons True al by simp
          then show ?thesis using Cons.IH[of "''..'' # acc"] dots Cons True al by simp
        next
          case False
          then show ?thesis using Cons.IH[OF nb] dots Cons by simp
        qed
      qed
    next
      case nd: False
      have "normalStack allow (seg # acc)" using Cons.prems False nd by simp
      then show ?thesis using Cons.IH[of "seg # acc"] False nd by simp
    qed
  qed
qed

lemma normalizeSegments_idem:
  "normalStack allow acc \<Longrightarrow> normalizeSegments allow [] (rev acc) = rev acc"
proof (induction acc)
  case Nil
  show ?case by simp
next
  case (Cons s below)
  have nb: "normalStack allow below" using Cons.prems by simp
  have "normalizeSegments allow [] (rev below @ [s]) =
      normalizeSegments allow (rev (normalizeSegments allow [] (rev below))) [s]"
    by (rule normalizeSegments_append)
  also have "\<dots> = normalizeSegments allow below [s]"
    using Cons.IH[OF nb] by simp
  also have "\<dots> = rev (s # below)"
    using Cons.prems by (cases below) auto
  finally show ?case by simp
qed

lemma normalStack_segments:
  "normalStack allow acc \<Longrightarrow> x \<in> set acc \<Longrightarrow> x \<noteq> []"
  by (induction acc) auto

lemma normalizeSegments_set:
  "set (normalizeSegments allow acc xs) \<subseteq> set acc \<union> set xs \<union> {''..''}"
proof (induction xs arbitrary: acc)
  case Nil
  show ?case by auto
next
  case (Cons seg xs)
  show ?case
    using Cons[of acc] Cons[of "[''..'']"] Cons[of "[]"] Cons[of "tl acc"]
      Cons[of "''..'' # acc"] Cons[of "seg # acc"]
    by (cases acc) (auto split: if_splits)
qed

lemma normalizeSegments_skip:
  "set pre \<subseteq> {[], ''.''} \<Longrightarrow>
     normalizeSegments allow acc (pre @ xs) = normalizeSegments allow acc xs"
  by (induction pre) auto

lemma joinWith_hd:
  "R \<noteq> [] \<Longrightarrow> hd R \<noteq> [] \<Longrightarrow> joinWith sep R \<noteq> [] \<and> hd (joinWith sep R) = hd (hd R)"
  by (induction sep R rule: joinWith.induct) auto

lemma prefix_slash: "prefix ''/'' x \<longleftrightarrow> x \<noteq> [] \<and> hd x = CHR ''/''"
  by (cases x) auto

lemma normalized_segments:
  assumes "R = normalizeSegments allow [] (splitOn CHR ''/'' J)"
  shows "normalizeSegments allow [] R = R"
    and "\<forall>x\<in>set R. x \<noteq> [] \<and> CHR ''/'' \<notin> set x"
proof -
  obtain acc' where a: "R = rev acc'" and n: "normalStack allow acc'"
    using normalizeSegments_normal[of allow "[]" "splitOn CHR ''/'' J"] assms by auto
  show "normalizeSegments allow [] R = R"
    using normalizeSegments_idem[OF n] a by simp
  show "\<forall>x\<in>set R. x \<noteq> [] \<and> CHR ''/'' \<notin> set x"
  proof
    fix x assume x: "x \<in> set R"
    then have "x \<noteq> []" using normalStack_segments[OF n] a by simp
    moreover have "x \<in> set (splitOn CHR ''/'' J) \<or> x = ''..''"
      using x normalizeSegments_set[of allow "[]" "splitOn CHR ''/'' J"] assms by auto
    then have "CHR ''/'' \<notin> set x" using splitOn_free by fastforce
    ultimately show "x \<noteq> [] \<and> CHR ''/'' \<notin> set x" by simp
  qed
qed

lemma splitOn_normalize:
  assumes J: "J \<noteq> []"
    and R: "R = normalizeSegments (\<not> prefix ''/'' J) [] (splitOn CHR ''/'' J)"
  shows "\<exists>pre post. set pre \<subseteq> {[], ''.''} \<and> set post \<subseteq> {[]} \<and>
           splitOn CHR ''/'' (normalize J) = pre @ R @ post"
proof (cases "R = []")
  case True
  then have b: "joinWith ''/'' R = []" by simp
  have "normalize J = ''/'' \<or> normalize J = ''./'' \<or> normalize J = ''.''"
    using J R[symmetric] b by (simp add: normalize_def Let_def)
  then consider "normalize J = ''/''" | "normalize J = ''./''" | "normalize J = ''.''" by blast
  then show ?thesis
  proof cases
    case 1
    then have "splitOn CHR ''/'' (normalize J) = [[], []] @ R @ []" using True by simp
    then show ?thesis by (intro exI[of _ "[[], []]"] exI[of _ "[]"]) simp
  next
    case 2
    then have "splitOn CHR ''/'' (normalize J) = [''.'', []] @ R @ []" using True by simp
    then show ?thesis by (intro exI[of _ "[''.'', []]"] exI[of _ "[]"]) simp
  next
    case 3
    then have "splitOn CHR ''/'' (normalize J) = [''.''] @ R @ []" using True by simp
    then show ?thesis by (intro exI[of _ "[''.'']"] exI[of _ "[]"]) simp
  qed
next
  case False
  have seg: "\<forall>x\<in>set R. x \<noteq> [] \<and> CHR ''/'' \<notin> set x"
    using normalized_segments(2)[OF R] .
  then have hd: "hd R \<noteq> []" using False by (cases R) auto
  have bne: "joinWith ''/'' R \<noteq> []" using joinWith_hd[OF False hd] by simp
  have sp: "splitOn CHR ''/'' (joinWith ''/'' R) = R"
    using splitOn_joinWith[OF False, of "CHR ''/''"] seg by simp
  define pre where "pre = (if prefix ''/'' J then [[]] else ([] :: string list))"
  define post where "post = (if endsWith J ''/'' then [[]] else ([] :: string list))"
  have n: "normalize J = (if prefix ''/'' J then ''/'' else []) @ joinWith ''/'' R @
      (if endsWith J ''/'' then ''/'' else [])"
    using J R[symmetric] bne by (simp add: normalize_def Let_def)
  have t: "splitOn CHR ''/'' (joinWith ''/'' R @ (if endsWith J ''/'' then ''/'' else [])) =
      R @ post"
  proof (cases "endsWith J ''/''")
    case True
    have "splitOn CHR ''/'' (joinWith ''/'' R @ CHR ''/'' # []) =
        splitOn CHR ''/'' (joinWith ''/'' R) @ splitOn CHR ''/'' []"
      by (rule splitOn_append)
    then show ?thesis using True sp by (simp add: post_def)
  next
    case False
    then show ?thesis using sp by (simp add: post_def)
  qed
  have "splitOn CHR ''/'' (normalize J) = pre @ R @ post"
  proof (cases "prefix ''/'' J")
    case True
    have "splitOn CHR ''/'' ([] @ CHR ''/'' #
          (joinWith ''/'' R @ (if endsWith J ''/'' then ''/'' else []))) =
        splitOn CHR ''/'' [] @
          splitOn CHR ''/'' (joinWith ''/'' R @ (if endsWith J ''/'' then ''/'' else []))"
      by (rule splitOn_append)
    then show ?thesis using True n t by (simp add: pre_def)
  next
    case False
    then show ?thesis using n t by (simp add: pre_def)
  qed
  moreover have "set pre \<subseteq> {[], ''.''}" "set post \<subseteq> {[]}"
    by (auto simp: pre_def post_def)
  ultimately show ?thesis by blast
qed

lemma normalize_nonempty: "normalize J \<noteq> []"
  by (auto simp: normalize_def Let_def)

lemma normalize_absolute:
  assumes J: "J \<noteq> []"
  shows "prefix ''/'' (normalize J) = prefix ''/'' J"
proof (cases "prefix ''/'' J")
  case True
  then show ?thesis using J by (auto simp: normalize_def Let_def)
next
  case False
  define R where "R = normalizeSegments (\<not> prefix ''/'' J) [] (splitOn CHR ''/'' J)"
  show ?thesis
  proof (cases "R = []")
    case True
    then show ?thesis using J False R_def[symmetric] by (auto simp: normalize_def Let_def)
  next
    case ne: False
    have seg: "\<forall>x\<in>set R. x \<noteq> [] \<and> CHR ''/'' \<notin> set x"
      using normalized_segments(2)[OF R_def] .
    then have hd: "hd R \<noteq> []" "CHR ''/'' \<notin> set (hd R)" using ne by (cases R; auto)+
    have j: "joinWith ''/'' R \<noteq> []" "hd (joinWith ''/'' R) = hd (hd R)"
      using joinWith_hd[OF ne hd(1)] by auto
    have "hd (hd R) \<in> set (hd R)" using hd(1) by simp
    then have "hd (joinWith ''/'' R) \<noteq> CHR ''/''" using j hd(2) by auto
    moreover have "normalize J = joinWith ''/'' R @ (if endsWith J ''/'' then ''/'' else [])"
      using J False R_def[symmetric] j(1) by (simp add: normalize_def Let_def)
    ultimately show ?thesis using False j(1) by (simp add: prefix_slash)
  qed
qed

lemma normalizeSegments_normalize:
  assumes J: "J \<noteq> []"
  shows "normalizeSegments (\<not> prefix ''/'' J) [] (splitOn CHR ''/'' (normalize J) @ ys) =
         normalizeSegments (\<not> prefix ''/'' J) [] (splitOn CHR ''/'' J @ ys)"
proof -
  define allow where "allow = (\<not> prefix ''/'' J)"
  define R where "R = normalizeSegments allow [] (splitOn CHR ''/'' J)"
  obtain pre post where p: "set pre \<subseteq> {[], ''.''}" "set post \<subseteq> {[]}"
      "splitOn CHR ''/'' (normalize J) = pre @ R @ post"
    using splitOn_normalize[OF J, of R] R_def allow_def by auto
  have post: "set post \<subseteq> {[], ''.''}" using p(2) by auto
  have idem: "normalizeSegments allow [] R = R"
    using normalized_segments(1)[OF R_def] .
  have "normalizeSegments allow [] ((pre @ R @ post) @ ys) =
      normalizeSegments allow [] (R @ (post @ ys))"
    using normalizeSegments_skip[OF p(1), of allow "[]" "R @ post @ ys"] by simp
  also have "\<dots> = normalizeSegments allow (rev (normalizeSegments allow [] R)) (post @ ys)"
    by (rule normalizeSegments_append)
  also have "\<dots> = normalizeSegments allow (rev R) ys"
    using normalizeSegments_skip[OF post] idem by simp
  also have "\<dots> = normalizeSegments allow [] (splitOn CHR ''/'' J @ ys)"
    unfolding R_def by (rule normalizeSegments_append[symmetric])
  finally show ?thesis using p(3) allow_def by simp
qed

lemma endsWith_append:
  "c \<noteq> [] \<Longrightarrow> endsWith (a @ c) ''/'' = endsWith c ''/''"
  by (cases c rule: rev_cases) (auto simp: endsWith_def)

lemma prefix_append_nonempty: "a \<noteq> [] \<Longrightarrow> prefix ''/'' (a @ c) = prefix ''/'' a"
  by (cases a) auto

lemma normalize_cong:
  "x \<noteq> [] \<Longrightarrow> y \<noteq> [] \<Longrightarrow> prefix ''/'' x = prefix ''/'' y \<Longrightarrow>
   endsWith x ''/'' = endsWith y ''/'' \<Longrightarrow>
   normalizeSegments (\<not> prefix ''/'' y) [] (splitOn CHR ''/'' x) =
     normalizeSegments (\<not> prefix ''/'' y) [] (splitOn CHR ''/'' y) \<Longrightarrow>
   normalize x = normalize y"
  by (simp add: normalize_def Let_def)

lemma normalize_join:
  assumes J: "J \<noteq> []" and c: "c \<noteq> []"
  shows "normalize (normalize J @ ''/'' @ c) = normalize (J @ ''/'' @ c)"
proof -
  have a: "prefix ''/'' (normalize J @ ''/'' @ c) = prefix ''/'' (J @ ''/'' @ c)"
    using prefix_append_nonempty[OF normalize_nonempty] prefix_append_nonempty[OF J]
      normalize_absolute[OF J] by simp
  have a': "prefix ''/'' (J @ ''/'' @ c) = prefix ''/'' J"
    using prefix_append_nonempty[OF J] by simp
  have e: "endsWith (normalize J @ ''/'' @ c) ''/'' = endsWith (J @ ''/'' @ c) ''/''"
    using endsWith_append[OF c, of "normalize J @ ''/''"] endsWith_append[OF c, of "J @ ''/''"]
    by simp
  have s1: "splitOn CHR ''/'' (normalize J @ ''/'' @ c) =
      splitOn CHR ''/'' (normalize J) @ splitOn CHR ''/'' c"
    using splitOn_append[of "CHR ''/''" "normalize J" c] by simp
  have s2: "splitOn CHR ''/'' (J @ ''/'' @ c) = splitOn CHR ''/'' J @ splitOn CHR ''/'' c"
    using splitOn_append[of "CHR ''/''" J c] by simp
  have n: "normalizeSegments (\<not> prefix ''/'' (J @ ''/'' @ c)) []
             (splitOn CHR ''/'' (normalize J @ ''/'' @ c)) =
           normalizeSegments (\<not> prefix ''/'' (J @ ''/'' @ c)) []
             (splitOn CHR ''/'' (J @ ''/'' @ c))"
    unfolding s1 s2 a' by (rule normalizeSegments_normalize[OF J])
  show ?thesis
    by (rule normalize_cong[OF _ _ a e n]) (simp_all add: J)
qed

lemma pathJoin_nested:
  assumes a: "a \<noteq> []" and c: "c \<noteq> []"
  shows "pathJoin [pathJoin [a, b], c] = pathJoin [a, b, c]"
proof -
  define J where "J = (if b = [] then a else a @ ''/'' @ b)"
  have J: "J \<noteq> []" using a by (simp add: J_def)
  have p: "pathJoin [a, b] = normalize J" using a by (simp add: pathJoin_def J_def)
  have "pathJoin [normalize J, c] = normalize (normalize J @ ''/'' @ c)"
    using normalize_nonempty[of J] c by (simp add: pathJoin_def)
  moreover have "pathJoin [a, b, c] = normalize (J @ ''/'' @ c)"
    using a c by (simp add: pathJoin_def J_def)
  ultimately show ?thesis using normalize_join[OF J c] p by simp
qed

lemma pathJoin_nonempty: "pathJoin args \<noteq> []"
  by (simp add: pathJoin_def Let_def normalize_nonempty)

lemma sample_paths:
  "pathJoin [''/ws'', ''board''] = ''/ws/board''"
  "pathJoin [pathJoin [''/ws/board'', ''findings''], ''colon-test.md''] =
     ''/ws/board/findings/colon-test.md''"
  "pathJoin [''/ws/board'', ''findings'', ''./x.md''] = ''/ws/board/findings/x.md''"
  "pathJoin [''/ws/board'', ''findings'', ''../x.md''] = ''/ws/board/x.md''"
  "pathJoin [''a'', ''..'', ''..'', ''b/''] = ''../b/''"
  "pathJoin [''/'', ''..''] = ''/''"
  "pathJoin [[], []] = ''.''"
  by (simp_all add: pathJoin_def normalize_def endsWith_def Let_def)

subsection \<open>Sorting\<close>

lemma insortBy_insort_key:
  "\<forall>y\<in>set ys. cmp x y = key x - key y \<Longrightarrow> insortBy cmp x ys = insort_key key x ys"
  by (induction ys) auto

lemma sortBy_sort_key:
  "\<forall>a\<in>set xs. \<forall>b\<in>set xs. cmp a b = key a - key b \<Longrightarrow> sortBy cmp xs = sort_key key xs"
proof (induction xs)
  case Nil
  show ?case by (simp add: sortBy_def)
next
  case (Cons x xs)
  have ih: "sortBy cmp xs = sort_key key xs" using Cons by simp
  have "sortBy cmp (x # xs) = insortBy cmp x (sort_key key xs)"
    using ih by (simp add: sortBy_def)
  also have "\<dots> = insort_key key x (sort_key key xs)"
    using Cons.prems by (intro insortBy_insort_key) simp
  finally show ?case by (simp add: sort_key_def)
qed

lemma conformingSort_sortBy: "conformingSort sortBy"
  unfolding conformingSort_def using sortBy_sort_key by blast

lemma conformingSortD:
  assumes "conformingSort srt"
    and "\<forall>a\<in>set xs. \<forall>b\<in>set xs. cmp a b = key a - key b"
  shows "srt cmp xs = sort_key key xs"
proof -
  have "\<forall>cmp key xs. (\<forall>a\<in>set xs. \<forall>b\<in>set xs. cmp a b = key a - key b)
        \<longrightarrow> srt cmp xs = sort_key key xs"
    using assms(1) by (simp only: conformingSort_def)
  then have "(\<forall>a\<in>set xs. \<forall>b\<in>set xs. cmp a b = key a - key b)
        \<longrightarrow> srt cmp xs = sort_key key xs"
    by (elim allE[where x = cmp] allE[where x = key] allE[where x = xs])
  then show ?thesis using assms(2) by (rule mp)
qed

lemma minusTime_timeOf:
  "getTime x \<noteq> None \<Longrightarrow> getTime y \<noteq> None \<Longrightarrow>
     minusTime (getTime x) (getTime y) = timeOf getTime x - timeOf getTime y"
  by (auto simp: minusTime_def timeOf_def)

lemma TaskStorage_list_sorted:
  assumes "conformingSort srt"
    and "\<forall>t\<in>set (collectTasks tdir flt entries). getTime (task_createdAt t) \<noteq> None"
  shows "TaskStorage_list srt getTime tdir entries flt =
     sort_key (\<lambda>t. - timeOf getTime (task_createdAt t)) (collectTasks tdir flt entries)"
proof -
  have "\<forall>a\<in>set (collectTasks tdir flt entries). \<forall>b\<in>set (collectTasks tdir flt entries).
      minusTime (getTime (task_createdAt b)) (getTime (task_createdAt a)) =
        (- timeOf getTime (task_createdAt a)) - (- timeOf getTime (task_createdAt b))"
    using assms(2) by (simp add: minusTime_timeOf)
  then show ?thesis
    unfolding TaskStorage_list_def by (rule conformingSortD[OF assms(1)])
qed

lemma sorted_messages:
  assumes "conformingSort srt"
    and "\<forall>m\<in>set xs. getTime (msg_createdAt m) \<noteq> None"
  shows "srt (\<lambda>a b. minusTime (getTime (msg_createdAt a)) (getTime (msg_createdAt b))) xs =
     sort_key (\<lambda>m. timeOf getTime (msg_createdAt m)) xs"
proof -
  have "\<forall>a\<in>set xs. \<forall>b\<in>set xs.
      minusTime (getTime (msg_createdAt a)) (getTime (msg_createdAt b)) =
        timeOf getTime (msg_createdAt a) - timeOf getTime (msg_createdAt b)"
    using assms(2) by (simp add: minusTime_timeOf)
  then show ?thesis
    by (rule conformingSortD[OF assms(1)])
qed

lemma collectUnread_sorted:
  assumes c: "conformingSort srt"
    and h: "\<forall>th\<in>set threads. \<forall>m\<in>set (collectMessages mdir th (readdir th)).
              getTime (msg_createdAt m) \<noteq> None"
  shows "collectUnread srt getTime mdir readdir threads agent =
     concat (map (\<lambda>th.
        filter (\<lambda>msg. msg_toAgentId msg = agent \<and> msg_status msg \<noteq> msg_read)
          (sort_key (\<lambda>m. timeOf getTime (msg_createdAt m))
             (collectMessages mdir th (readdir th)))) threads)"
proof -
  have "\<And>th. th \<in> set threads \<Longrightarrow>
      listThread srt getTime mdir readdir th =
        sort_key (\<lambda>m. timeOf getTime (msg_createdAt m)) (collectMessages mdir th (readdir th))"
    unfolding listThread_def using sorted_messages[OF c] h by blast
  then show ?thesis
    unfolding collectUnread_def by (intro arg_cong[where f = concat] map_cong) simp_all
qed

lemma collectUnread_dated:
  assumes c: "conformingSort srt"
    and h: "\<forall>th\<in>set threads. \<forall>m\<in>set (collectMessages mdir th (readdir th)).
              getTime (msg_createdAt m) \<noteq> None"
  shows "\<forall>m\<in>set (collectUnread srt getTime mdir readdir threads agent).
           getTime (msg_createdAt m) \<noteq> None"
  unfolding collectUnread_sorted[OF c h] using h by auto

lemma mset_concat_filter_sort:
  "mset (concat (map (\<lambda>th. filter P (sort_key k (f th))) threads)) =
   mset (concat (map (\<lambda>th. filter P (f th)) threads))"
  by (induction threads) simp_all

lemma sorted_wrt_sort_key_asc:
  "sorted_wrt (\<lambda>a b. k a \<le> k b) (sort_key k xs)"
  using sorted_sort_key[of k xs] by (simp add: sorted_map)

lemma sorted_wrt_sort_key_desc:
  "sorted_wrt (\<lambda>a b. (k b :: int) \<le> k a) (sort_key (\<lambda>x. - k x) xs)"
  using sorted_sort_key[of "\<lambda>x. - k x" xs] by (simp add: sorted_map)

lemma sample_times:
  "sampleTime ''2024-01-01T00:00:00.000Z'' = Some 20240101000000000"
  "sampleTime ''2025-01-01T00:00:00.000Z'' = Some 20250101000000000"
  "sampleTime ''not a date'' = None"
  by (simp_all add: sampleTime_def isoShaped_def digitsValue_def)

lemmas listing_defs =
  TaskStorage_list_def listThread_def getUnread_def collectUnread_def sortBy_def minusTime_def
  TaskStorage_save_def TaskStorage_get_def MessageStorage_save_def MessageStorage_get_def
  makeTask_def makeMessage_def endsWith_def replaceFirst_def taskMatches_def sample_times

subsection \<open>Board files and JSON files\<close>

lemma splitFirst_rule_skip:
  "CHR 0x0A \<notin> set l \<Longrightarrow>
   splitFirst [CHR 0x0A, CHR ''-'', CHR ''-'', CHR ''-'', CHR 0x0A] (l @ cs) =
     map_option (\<lambda>(b, a). (l @ b, a)) (splitFirst [CHR 0x0A, CHR ''-'', CHR ''-'', CHR ''-'', CHR 0x0A] cs)"
  by (induction l) (auto split: option.splits simp: option.map_id0 map_option.compositionality comp_def)

lemma splitFirst_rule_newline:
  "\<not> prefix [CHR ''-'', CHR ''-'', CHR ''-'', CHR 0x0A] cs \<Longrightarrow>
   splitFirst [CHR 0x0A, CHR ''-'', CHR ''-'', CHR ''-'', CHR 0x0A] (CHR 0x0A # cs) =
     map_option (\<lambda>(b, a). (CHR 0x0A # b, a)) (splitFirst [CHR 0x0A, CHR ''-'', CHR ''-'', CHR ''-'', CHR 0x0A] cs)"
  by (auto split: option.splits)

lemma splitFirst_rule_here:
  "splitFirst [CHR 0x0A, CHR ''-'', CHR ''-'', CHR ''-'', CHR 0x0A] (CHR 0x0A # CHR ''-'' # CHR ''-'' # CHR ''-'' # CHR 0x0A # rest) =
     Some ([], rest)"
  by simp

lemma splitLines_single: "CHR 0x0A \<notin> set l \<Longrightarrow> splitLines l = [l]"
  by (induction l) auto

lemma splitLines_line:
  "CHR 0x0A \<notin> set l \<Longrightarrow> splitLines (l @ CHR 0x0A # cs) = l # splitLines cs"
  by (induction l) auto

lemma indexOf_key: "c \<notin> set k \<Longrightarrow> indexOf c (k @ c # rest) = Some (length k)"
  by (induction k) auto

lemma trim_after_space: "trim v = v \<Longrightarrow> trim (CHR '' '' # v) = v"
  by (simp add: trim_def trimStart_def isWhiteSpace_def)

lemma parseFields_line:
  "CHR '':'' \<notin> set k \<Longrightarrow> trim k = k \<Longrightarrow> trim v = v \<Longrightarrow>
   parseFields m ((k @ '': '' @ v) # ls) = parseFields (m(k \<mapsto> v)) ls"
  using indexOf_key[of "CHR '':''" k "CHR '' '' # v"]
  by (simp add: trim_after_space)

lemma trimEnd_newline: "trimEnd (b @ [CHR 0x0A]) = trimEnd b"
  by (simp add: trimEnd_def isWhiteSpace_def)


lemma splitFirst_last_line:
  "CHR 0x0A \<notin> set l \<Longrightarrow>
   splitFirst [CHR 0x0A, CHR ''-'', CHR ''-'', CHR ''-'', CHR 0x0A]
     (l @ CHR 0x0A # CHR ''-'' # CHR ''-'' # CHR ''-'' # CHR 0x0A # rest) = Some (l, rest)"
  using splitFirst_rule_skip[of l "CHR 0x0A # CHR ''-'' # CHR ''-'' # CHR ''-'' # CHR 0x0A # rest"]
  by (simp del: splitFirst.simps add: splitFirst_rule_here)

lemma splitFirst_next_line:
  assumes "CHR 0x0A \<notin> set l"
    and "\<not> prefix [CHR ''-'', CHR ''-'', CHR ''-'', CHR 0x0A] cs"
    and "splitFirst [CHR 0x0A, CHR ''-'', CHR ''-'', CHR ''-'', CHR 0x0A] cs = Some (b, a)"
  shows "splitFirst [CHR 0x0A, CHR ''-'', CHR ''-'', CHR ''-'', CHR 0x0A] (l @ CHR 0x0A # cs) =
     Some (l @ CHR 0x0A # b, a)"
  using splitFirst_rule_skip[OF assms(1), of "CHR 0x0A # cs"] splitFirst_rule_newline[OF assms(2)]
    assms(3)
  by (simp del: splitFirst.simps)

lemma plain_key:
  "CHR '':'' \<notin> set ''id'' \<and> trim ''id'' = ''id'' \<and>
   CHR '':'' \<notin> set ''type'' \<and> trim ''type'' = ''type'' \<and>
   CHR '':'' \<notin> set ''author'' \<and> trim ''author'' = ''author'' \<and>
   CHR '':'' \<notin> set ''summary'' \<and> trim ''summary'' = ''summary'' \<and>
   CHR '':'' \<notin> set ''createdAt'' \<and> trim ''createdAt'' = ''createdAt''"
  by (simp add: trim_def trimStart_def trimEnd_def isWhiteSpace_def)

lemma fromMarkdown_toMarkdown:
  assumes i: "plainValue (item_id item)" and t: "item_type item = Some ty" "plainValue ty"
    and a: "plainValue (item_author item)" and s: "plainValue (item_summary item)"
    and c: "plainValue (item_createdAt item)"
    and b: "trimEnd (item_body item) = item_body item"
  shows "fromMarkdown (toMarkdown item) path = Some (item\<lparr>item_path := path\<rparr>)"
proof -
  define l1 where "l1 = ''id'' @ '': '' @ item_id item"
  define l2 where "l2 = ''type'' @ '': '' @ ty"
  define l3 where "l3 = ''author'' @ '': '' @ item_author item"
  define l4 where "l4 = ''summary'' @ '': '' @ item_summary item"
  define l5 where "l5 = ''createdAt'' @ '': '' @ item_createdAt item"
  define rest where "rest = CHR 0x0A # item_body item @ [CHR 0x0A]"
  define fm where "fm = l1 @ CHR 0x0A # l2 @ CHR 0x0A # l3 @ CHR 0x0A # l4 @ CHR 0x0A # l5"
  note ldefs = l1_def l2_def l3_def l4_def l5_def
  from i t a s c have nn: "CHR 0x0A \<notin> set l1" "CHR 0x0A \<notin> set l2" "CHR 0x0A \<notin> set l3"
      "CHR 0x0A \<notin> set l4" "CHR 0x0A \<notin> set l5"
    by (simp_all add: ldefs plainValue_def)
  have tm: "toMarkdown item =
      ''---'' @ CHR 0x0A # fm @ CHR 0x0A # CHR ''-'' # CHR ''-'' # CHR ''-'' # CHR 0x0A # rest"
    by (simp add: toMarkdown_def typeText_def t nl_def fm_def ldefs rest_def)
  have s5: "splitFirst [CHR 0x0A, CHR ''-'', CHR ''-'', CHR ''-'', CHR 0x0A]
      (l5 @ CHR 0x0A # CHR ''-'' # CHR ''-'' # CHR ''-'' # CHR 0x0A # rest) = Some (l5, rest)"
    by (rule splitFirst_last_line[OF nn(5)])
  have s4: "splitFirst [CHR 0x0A, CHR ''-'', CHR ''-'', CHR ''-'', CHR 0x0A]
      (l4 @ CHR 0x0A # l5 @ CHR 0x0A # CHR ''-'' # CHR ''-'' # CHR ''-'' # CHR 0x0A # rest) =
      Some (l4 @ CHR 0x0A # l5, rest)"
    by (rule splitFirst_next_line[OF nn(4) _ s5]) (simp add: l5_def)
  have s3: "splitFirst [CHR 0x0A, CHR ''-'', CHR ''-'', CHR ''-'', CHR 0x0A]
      (l3 @ CHR 0x0A # l4 @ CHR 0x0A # l5 @ CHR 0x0A # CHR ''-'' # CHR ''-'' # CHR ''-'' # CHR 0x0A # rest) =
      Some (l3 @ CHR 0x0A # l4 @ CHR 0x0A # l5, rest)"
    by (rule splitFirst_next_line[OF nn(3) _ s4]) (simp add: l4_def)
  have s2: "splitFirst [CHR 0x0A, CHR ''-'', CHR ''-'', CHR ''-'', CHR 0x0A]
      (l2 @ CHR 0x0A # l3 @ CHR 0x0A # l4 @ CHR 0x0A # l5 @ CHR 0x0A # CHR ''-'' # CHR ''-'' # CHR ''-'' # CHR 0x0A # rest) =
      Some (l2 @ CHR 0x0A # l3 @ CHR 0x0A # l4 @ CHR 0x0A # l5, rest)"
    by (rule splitFirst_next_line[OF nn(2) _ s3]) (simp add: l3_def)
  have s1: "splitFirst [CHR 0x0A, CHR ''-'', CHR ''-'', CHR ''-'', CHR 0x0A]
      (fm @ CHR 0x0A # CHR ''-'' # CHR ''-'' # CHR ''-'' # CHR 0x0A # rest) = Some (fm, rest)"
    unfolding fm_def append_assoc append_Cons
    by (rule splitFirst_next_line[OF nn(1) _ s2]) (simp add: l2_def)
  have md: "matchDocument (toMarkdown item) = Some (fm, item_body item @ [CHR 0x0A])"
    by (simp add: matchDocument_def tm nl_def s1) (simp add: rest_def)
  have ne: "fm \<noteq> []"
    by (simp add: fm_def l1_def)
  have lines: "splitLines fm = [l1, l2, l3, l4, l5]"
    unfolding fm_def
    by (simp only: splitLines_line[OF nn(1)] splitLines_line[OF nn(2)] splitLines_line[OF nn(3)]
        splitLines_line[OF nn(4)] splitLines_single[OF nn(5)])
  from i t a s c have tr: "trim (item_id item) = item_id item" "trim ty = ty"
      "trim (item_author item) = item_author item" "trim (item_summary item) = item_summary item"
      "trim (item_createdAt item) = item_createdAt item"
    by (simp_all add: plainValue_def)
  have flds: "parseFields Map.empty [l1, l2, l3, l4, l5] =
      [''id'' \<mapsto> item_id item, ''type'' \<mapsto> ty, ''author'' \<mapsto> item_author item,
       ''summary'' \<mapsto> item_summary item, ''createdAt'' \<mapsto> item_createdAt item]"
  proof -
    have p1: "parseFields m (l1 # ls) = parseFields (m(''id'' \<mapsto> item_id item)) ls" for m ls
      unfolding l1_def by (rule parseFields_line) (use plain_key tr in simp_all)
    have p2: "parseFields m (l2 # ls) = parseFields (m(''type'' \<mapsto> ty)) ls" for m ls
      unfolding l2_def by (rule parseFields_line) (use plain_key tr in simp_all)
    have p3: "parseFields m (l3 # ls) = parseFields (m(''author'' \<mapsto> item_author item)) ls"
      for m ls
      unfolding l3_def by (rule parseFields_line) (use plain_key tr in simp_all)
    have p4: "parseFields m (l4 # ls) = parseFields (m(''summary'' \<mapsto> item_summary item)) ls"
      for m ls
      unfolding l4_def by (rule parseFields_line) (use plain_key tr in simp_all)
    have p5: "parseFields m (l5 # ls) = parseFields (m(''createdAt'' \<mapsto> item_createdAt item)) ls"
      for m ls
      unfolding l5_def by (rule parseFields_line) (use plain_key tr in simp_all)
    show ?thesis
      by (simp only: p1 p2 p3 p4 p5 parseFields.simps(1))
  qed
  have body: "trimEnd (item_body item @ [CHR 0x0A]) = item_body item"
    by (simp only: trimEnd_newline b)
  have "fromMarkdown (toMarkdown item) path =
      Some \<lparr>item_id = item_id item, item_type = Some ty, item_author = item_author item,
            item_summary = item_summary item, item_body = item_body item,
            item_createdAt = item_createdAt item, item_path = path\<rparr>"
    by (simp add: fromMarkdown_def md ne lines flds body orEmpty_def Let_def del: parseFields.simps)
  moreover have "\<lparr>item_id = item_id item, item_type = Some ty, item_author = item_author item,
            item_summary = item_summary item, item_body = item_body item,
            item_createdAt = item_createdAt item, item_path = path\<rparr> =
      item\<lparr>item_path := path\<rparr>"
    using t(1) by (cases item) simp
  ultimately show ?thesis by simp
qed

lemma plain_types:
  "BOARD_TYPE_TO_FOLDER (Some ty) = Some folder \<Longrightarrow> plainValue ty"
  by (auto simp: plainValue_def trim_def trimStart_def trimEnd_def isWhiteSpace_def
      split: if_splits)

lemma BoardStorage_path:
  "pathJoin [pathJoin [BoardStorage_boardDir basePath, folder], ident @ ''.md''] =
     boardPath basePath folder ident"
  unfolding boardPath_def BoardStorage_boardDir_def
  by (rule pathJoin_nested) (simp_all add: pathJoin_nonempty)

lemma BoardStorage_round_trip:
  assumes "item_type item = Some ty" and "BOARD_TYPE_TO_FOLDER (Some ty) = Some folder"
    and "plainValue (item_id item)" and "plainValue (item_author item)"
    and "plainValue (item_summary item)" and "plainValue (item_createdAt item)"
    and "trimEnd (item_body item) = item_body item"
  shows "BoardStorage_save basePath bdir item =
      Some (bdir(boardPath basePath folder (item_id item) \<mapsto> toMarkdown item))"
    and "BoardStorage_get basePath
        (bdir(boardPath basePath folder (item_id item) \<mapsto> toMarkdown item))
        ty (item_id item) =
      Some (item\<lparr>item_path := boardPath basePath folder (item_id item)\<rparr>)"
proof -
  from assms(1,2) show "BoardStorage_save basePath bdir item =
      Some (bdir(boardPath basePath folder (item_id item) \<mapsto> toMarkdown item))"
    by (simp add: BoardStorage_save_def BoardStorage_path)
  from plain_types[OF assms(2)] have "plainValue ty" .
  from fromMarkdown_toMarkdown[OF assms(3) assms(1) this assms(4) assms(5) assms(6) assms(7)]
    assms(2)
  show "BoardStorage_get basePath
        (bdir(boardPath basePath folder (item_id item) \<mapsto> toMarkdown item))
        ty (item_id item) =
      Some (item\<lparr>item_path := boardPath basePath folder (item_id item)\<rparr>)"
    by (simp add: BoardStorage_get_def del: BOARD_TYPE_TO_FOLDER.simps)
qed

lemma colonItem_plain:
  "plainValue (item_id colonItem) \<and> plainValue (item_author colonItem) \<and>
   plainValue (item_summary colonItem) \<and> plainValue (item_createdAt colonItem) \<and>
   trimEnd (item_body colonItem) = item_body colonItem"
  by (simp add: colonItem_def plainValue_def trim_def trimStart_def trimEnd_def
      isWhiteSpace_def)

lemma reparse_finite: "finiteJson v \<Longrightarrow> reparse v = v"
proof (induction v)
  case (JNum x)
  then show ?case by (cases x) simp_all
next
  case (JArr vs)
  then show ?case by (auto simp: list_all_iff intro: map_idI)
next
  case (JObj kvs)
  have "map_prod id reparse kv = kv" if kv: "kv \<in> set kvs" for kv
  proof -
    obtain k x where e: "kv = (k, x)" by (cases kv)
    have "finiteJson x" using JObj.prems kv e by (auto simp: list_all_iff)
    moreover have "x \<in> Basic_BNFs.snds kv" using e by simp
    ultimately have "reparse x = x" using JObj.IH[OF kv] by blast
    then show ?thesis using e by simp
  qed
  then show ?case by (auto intro: map_idI)
qed simp_all

lemma reparse_jsonOptStr: "reparse (jsonOptStr v) = jsonOptStr v"
  by (cases v) (simp_all add: jsonOptStr_def)

lemma reparse_jsonOptNum: "reparse (jsonOptNum v) = jsonOptNum v"
  by (cases v) (simp_all add: jsonOptNum_def)

lemma reparse_tagToJson: "reparse (tagToJson g) = tagToJson g"
  by (simp add: tagToJson_def)

lemma reparse_taskToJson: "reparse (taskToJson t) = taskToJson t"
  by (simp add: taskToJson_def reparse_jsonOptStr reparse_jsonOptNum reparse_tagToJson)

lemma reparse_agentToJson: "reparse (agentToJson a) = agentToJson a"
  by (simp add: agentToJson_def reparse_jsonOptStr)

lemma reparse_messageToJson: "reparse (messageToJson m) = messageToJson m"
  by (simp add: messageToJson_def reparse_jsonOptStr)

lemma reparse_nodeToJson: "reparse (nodeToJson n) = nodeToJson n"
  by (induction n rule: nodeToJson.induct) (simp add: reparse_jsonOptStr cong: map_cong)

lemma finiteJson_nodeToJson: "finiteJson (nodeToJson n)"
  by (induction n rule: nodeToJson.induct)
    (simp add: jsonOptStr_def list_all_iff split: option.splits)

lemma reparse_treeToJson: "reparse (treeToJson tree) = treeToJson tree"
  by (simp add: treeToJson_def reparse_nodeToJson)

lemma task_key: "stringProperty ''id'' (taskToJson t) = Some (task_id t)"
  by (simp add: stringProperty_def property_def taskToJson_def)

lemma agent_key: "stringProperty ''name'' (agentToJson a) = Some (agent_name a)"
  by (simp add: stringProperty_def property_def agentToJson_def)

lemma message_key:
  "stringProperty ''id'' (messageToJson m) = Some (msg_id m)"
  "stringProperty ''threadId'' (messageToJson m) = Some (msg_threadId m)"
  by (simp_all add: stringProperty_def property_def messageToJson_def)

lemma TaskStorage_file_round_trip:
  "Option.bind (TaskStorage_save_file basePath fs (taskToJson t))
     (\<lambda>fs'. TaskStorage_get_file basePath fs' (task_id t)) = Some (taskToJson t)"
  by (simp add: TaskStorage_save_file_def TaskStorage_get_file_def task_key writeJsonFile_def
      readJsonFile_def reparse_taskToJson)

lemma AgentStorage_path:
  "pathJoin [ensureAgentDir basePath name, ''config.json''] =
     pathJoin [AgentStorage_agentsDir basePath, name, ''config.json'']"
  unfolding ensureAgentDir_def AgentStorage_agentsDir_def
  by (rule pathJoin_nested) (simp_all add: pathJoin_nonempty)

lemma AgentStorage_file_round_trip:
  "Option.bind (AgentStorage_save_file basePath fs (agentToJson a))
     (\<lambda>fs'. AgentStorage_get_file basePath fs' (agent_name a)) = Some (agentToJson a)"
  by (simp add: AgentStorage_save_file_def AgentStorage_get_file_def agent_key writeJsonFile_def
      readJsonFile_def reparse_agentToJson AgentStorage_path)

lemma MessageStorage_path:
  "pathJoin [pathJoin [MessageStorage_messagesDir basePath, threadId], ident @ ''.json''] =
     pathJoin [MessageStorage_messagesDir basePath, threadId, ident @ ''.json'']"
  unfolding MessageStorage_messagesDir_def
  by (rule pathJoin_nested) (simp_all add: pathJoin_nonempty)

lemma MessageStorage_file_round_trip:
  "Option.bind (MessageStorage_save_file basePath fs (messageToJson m))
     (\<lambda>fs'. MessageStorage_get_file basePath fs' (msg_id m) (msg_threadId m)) =
   Some (messageToJson m)"
  by (simp add: MessageStorage_save_file_def MessageStorage_get_file_def message_key
      writeJsonFile_def readJsonFile_def reparse_messageToJson MessageStorage_path)

lemma OrgStorage_file_round_trip:
  "OrgStorage_get_file basePath (OrgStorage_save_file basePath fs (treeToJson tree)) =
     treeToJson tree"
  by (simp add: OrgStorage_save_file_def OrgStorage_get_file_def writeJsonFile_def
      readJsonFile_def reparse_treeToJson)

lemma sample_dirs:
  "TaskStorage_tasksDir ''/ws'' = ''/ws/tasks''"
  "AgentStorage_agentsDir ''/ws'' = ''/ws/agents''"
  "MessageStorage_messagesDir ''/ws'' = ''/ws/messages''"
  "BoardStorage_boardDir ''/ws'' = ''/ws/board''"
  "OrgStorage_filePath ''/ws'' = ''/ws/org.json''"
  by (simp_all add: TaskStorage_tasksDir_def AgentStorage_agentsDir_def
      MessageStorage_messagesDir_def BoardStorage_boardDir_def OrgStorage_filePath_def
      pathJoin_def normalize_def endsWith_def Let_def)

lemma sample_board_paths:
  "boardPath ''/ws'' ''findings'' ''colon-test'' = ''/ws/board/findings/colon-test.md''"
  "boardPath ''/ws'' ''findings'' ''./x'' = ''/ws/board/findings/x.md''"
  by (simp_all add: boardPath_def sample_dirs pathJoin_def normalize_def endsWith_def Let_def)

lemma sample_file_paths:
  "pathJoin [''/ws/tasks'', ''t-1.json''] = ''/ws/tasks/t-1.json''"
  "pathJoin [''/ws/agents'', ''eng''] = ''/ws/agents/eng''"
  "pathJoin [''/ws/agents/eng'', ''config.json''] = ''/ws/agents/eng/config.json''"
  "pathJoin [''/ws/agents'', ''eng'', ''config.json''] = ''/ws/agents/eng/config.json''"
  "pathJoin [''/ws/messages'', ''thread-1''] = ''/ws/messages/thread-1''"
  "pathJoin [''/ws/messages/thread-1'', ''m-1.json''] = ''/ws/messages/thread-1/m-1.json''"
  "pathJoin [''/ws/messages'', ''thread-1'', ''m-1.json''] = ''/ws/messages/thread-1/m-1.json''"
  by (simp_all add: pathJoin_def normalize_def endsWith_def Let_def)

section \<open>Claims about the stores\<close>

text \<open>
  C7, as stated, fails. The board item of the test suite is saved with an empty path and
  read back with the path of its file, so the value read is not the value saved; and an
  item whose summary starts with a space and whose body ends with one is read back
  without them. A task whose priority is NaN, whose cost is Infinity and whose duration
  is negative zero is read back with priority and cost null and duration zero.
\<close>

theorem board_round_trip_counterexample:
  "BoardStorage_save ''/ws'' Map.empty colonItem =
     Some (Map.empty(''/ws/board/findings/colon-test.md'' \<mapsto> toMarkdown colonItem)) \<and>
   BoardStorage_get ''/ws''
     (Map.empty(''/ws/board/findings/colon-test.md'' \<mapsto> toMarkdown colonItem))
     ''finding'' ''colon-test'' =
     Some (colonItem\<lparr>item_path := ''/ws/board/findings/colon-test.md''\<rparr>) \<and>
   colonItem\<lparr>item_path := ''/ws/board/findings/colon-test.md''\<rparr> \<noteq> colonItem \<and>
   BoardStorage_get ''/ws''
     (Map.empty(''/ws/board/findings/colon-test.md'' \<mapsto>
        toMarkdown (colonItem\<lparr>item_summary := '' spaced'', item_body := ''Details here '',
          item_path := ''/ws/board/findings/colon-test.md''\<rparr>)))
     ''finding'' ''colon-test'' =
     Some (colonItem\<lparr>item_summary := ''spaced'', item_body := ''Details here'',
          item_path := ''/ws/board/findings/colon-test.md''\<rparr>) \<and>
   TaskStorage_save_file ''/ws'' Map.empty nonFiniteTask =
     Some (Map.empty(''/ws/tasks/t-1.json'' \<mapsto> reparse nonFiniteTask)) \<and>
   TaskStorage_get_file ''/ws'' (Map.empty(''/ws/tasks/t-1.json'' \<mapsto> reparse nonFiniteTask))
     ''t-1'' = Some (reparse nonFiniteTask) \<and>
   map (\<lambda>k. property k nonFiniteTask) [''priority'', ''costUsd'', ''durationMs''] =
     [Some (JNum NaN), Some (JNum PosInfinity), Some (JNum NegZero)] \<and>
   map (\<lambda>k. property k (reparse nonFiniteTask)) [''priority'', ''costUsd'', ''durationMs''] =
     [Some JNull, Some JNull, Some (JNum (Finite 0))] \<and>
   reparse nonFiniteTask \<noteq> nonFiniteTask"
  by (simp add: BoardStorage_get_def BoardStorage_save_def fromMarkdown_def matchDocument_def
      toMarkdown_def typeText_def colonItem_def sample_board_paths sample_dirs nl_def orEmpty_def
      trim_def trimStart_def trimEnd_def isWhiteSpace_def Let_def
      TaskStorage_save_file_def TaskStorage_get_file_def writeJsonFile_def readJsonFile_def
      stringProperty_def property_def nonFiniteTask_def sample_paths sample_file_paths)

text \<open>
  C7, amended. What \<^verbatim>\<open>get\<close> returns after \<^verbatim>\<open>save\<close> is the value of the document
  written, which is the value saved where its numbers are finite and not negative zero.
  So for an agent, a task, a message and the org tree with such numbers, \<^verbatim>\<open>save\<close> then
  \<^verbatim>\<open>get\<close> with the key of the entity returns the entity saved: the one file written is
  the file read, since the path that \<^verbatim>\<open>save\<close> joins in two steps is the path that
  \<^verbatim>\<open>get\<close> joins in one. This is stated for a task and a message whose file name
  (\<open>id.json\<close>) is a file name, and for a base path, an agent name and a thread id without
  a NUL character, so that the write succeeds. For a board item of one of the four types
  whose file name (\<open>id.md\<close>) is a file name, whose id, author, summary and creation time
  hold no line feed and no white space at either end, and whose body has no white space
  at its end, \<^verbatim>\<open>save\<close> then \<^verbatim>\<open>get\<close> returns the item saved with its path set to the
  path of the file; colons in the summary, however many, are kept as they are.
\<close>

theorem save_get_round_trip:
  assumes "isFileName (task_id t @ ''.json'')" and "isFileName (msg_id m @ ''.json'')"
    and "CHR 0x00 \<notin> set basePath \<union> set (agent_name a) \<union> set (msg_threadId m)"
  shows
   "(finiteJson v \<longrightarrow> reparse v = v) \<and>
    finiteJson (taskToJson t) \<and> finiteJson (agentToJson a) \<and>
    finiteJson (messageToJson m) \<and> finiteJson (treeToJson tree) \<and>
    (stringProperty ''id'' tv = Some ident \<and> isFileName (ident @ ''.json'') \<longrightarrow>
       Option.bind (TaskStorage_save_file basePath fs tv)
         (\<lambda>fs'. TaskStorage_get_file basePath fs' ident) = Some (reparse tv)) \<and>
    (stringProperty ''name'' av = Some name \<and> CHR 0x00 \<notin> set name \<longrightarrow>
       Option.bind (AgentStorage_save_file basePath fs av)
         (\<lambda>fs'. AgentStorage_get_file basePath fs' name) = Some (reparse av)) \<and>
    (stringProperty ''threadId'' mv = Some threadId \<and> CHR 0x00 \<notin> set threadId \<and>
     stringProperty ''id'' mv = Some messageId \<and> isFileName (messageId @ ''.json'') \<longrightarrow>
       Option.bind (MessageStorage_save_file basePath fs mv)
         (\<lambda>fs'. MessageStorage_get_file basePath fs' messageId threadId) = Some (reparse mv)) \<and>
    OrgStorage_get_file basePath (OrgStorage_save_file basePath fs ov) = reparse ov \<and>
    pathJoin [ensureAgentDir basePath name, ''config.json''] =
      pathJoin [AgentStorage_agentsDir basePath, name, ''config.json''] \<and>
    pathJoin [pathJoin [MessageStorage_messagesDir basePath, threadId], messageId @ ''.json''] =
      pathJoin [MessageStorage_messagesDir basePath, threadId, messageId @ ''.json''] \<and>
    pathJoin [pathJoin [BoardStorage_boardDir basePath, boardFolder], boardId @ ''.md''] =
      boardPath basePath boardFolder boardId \<and>
    reparse (taskToJson t) = taskToJson t \<and>
    reparse (agentToJson a) = agentToJson a \<and>
    reparse (messageToJson m) = messageToJson m \<and>
    reparse (treeToJson tree) = treeToJson tree \<and>
    TaskStorage_save_file basePath fs (taskToJson t) =
      Some (fs(pathJoin [TaskStorage_tasksDir basePath, task_id t @ ''.json'']
                 \<mapsto> taskToJson t)) \<and>
    Option.bind (TaskStorage_save_file basePath fs (taskToJson t))
      (\<lambda>fs'. TaskStorage_get_file basePath fs' (task_id t)) = Some (taskToJson t) \<and>
    AgentStorage_save_file basePath fs (agentToJson a) =
      Some (fs(pathJoin [AgentStorage_agentsDir basePath, agent_name a, ''config.json'']
                 \<mapsto> agentToJson a)) \<and>
    Option.bind (AgentStorage_save_file basePath fs (agentToJson a))
      (\<lambda>fs'. AgentStorage_get_file basePath fs' (agent_name a)) = Some (agentToJson a) \<and>
    MessageStorage_save_file basePath fs (messageToJson m) =
      Some (fs(pathJoin [MessageStorage_messagesDir basePath, msg_threadId m,
                         msg_id m @ ''.json'']
                 \<mapsto> messageToJson m)) \<and>
    Option.bind (MessageStorage_save_file basePath fs (messageToJson m))
      (\<lambda>fs'. MessageStorage_get_file basePath fs' (msg_id m) (msg_threadId m)) =
      Some (messageToJson m) \<and>
    OrgStorage_get_file basePath (OrgStorage_save_file basePath fs (treeToJson tree)) =
      treeToJson tree \<and>
    TaskStorage_get (TaskStorage_save tdir t) (task_id t) = Some t \<and>
    AgentStorage_get (AgentStorage_save adir a) (agent_name a) = Some a \<and>
    MessageStorage_get (MessageStorage_save mdir m) (msg_id m) (msg_threadId m) = Some m \<and>
    OrgStorage_get (OrgStorage_save doc tree) = tree \<and>
    (item_type item = Some ty \<and> BOARD_TYPE_TO_FOLDER (Some ty) = Some folder \<and>
     isFileName (item_id item @ ''.md'') \<and>
     plainValue (item_id item) \<and> plainValue (item_author item) \<and>
     plainValue (item_summary item) \<and> plainValue (item_createdAt item) \<and>
     trimEnd (item_body item) = item_body item \<longrightarrow>
       BoardStorage_save basePath bdir item =
         Some (bdir(boardPath basePath folder (item_id item) \<mapsto> toMarkdown item)) \<and>
       Option.bind (BoardStorage_save basePath bdir item)
         (\<lambda>dir. BoardStorage_get basePath dir ty (item_id item)) =
         Some (item\<lparr>item_path := boardPath basePath folder (item_id item)\<rparr>))"
proof (intro conjI impI)
  assume "finiteJson v"
  then show "reparse v = v" by (rule reparse_finite)
next
  show "finiteJson (taskToJson t)"
    by (simp add: taskToJson_def jsonOptStr_def jsonOptNum_def tagToJson_def list_all_iff
        split: option.splits)
  show "finiteJson (agentToJson a)"
    by (simp add: agentToJson_def jsonOptStr_def split: option.splits)
  show "finiteJson (messageToJson m)"
    by (simp add: messageToJson_def jsonOptStr_def split: option.splits)
  show "finiteJson (treeToJson tree)"
    by (simp add: treeToJson_def list_all_iff finiteJson_nodeToJson)
next
  assume "stringProperty ''id'' tv = Some ident \<and> isFileName (ident @ ''.json'')"
  then show "Option.bind (TaskStorage_save_file basePath fs tv)
         (\<lambda>fs'. TaskStorage_get_file basePath fs' ident) = Some (reparse tv)"
    by (simp add: TaskStorage_save_file_def TaskStorage_get_file_def writeJsonFile_def
        readJsonFile_def)
next
  assume "stringProperty ''name'' av = Some name \<and> CHR 0x00 \<notin> set name"
  then show "Option.bind (AgentStorage_save_file basePath fs av)
         (\<lambda>fs'. AgentStorage_get_file basePath fs' name) = Some (reparse av)"
    by (simp add: AgentStorage_save_file_def AgentStorage_get_file_def writeJsonFile_def
        readJsonFile_def AgentStorage_path)
next
  assume "stringProperty ''threadId'' mv = Some threadId \<and> CHR 0x00 \<notin> set threadId \<and>
     stringProperty ''id'' mv = Some messageId \<and> isFileName (messageId @ ''.json'')"
  then show "Option.bind (MessageStorage_save_file basePath fs mv)
         (\<lambda>fs'. MessageStorage_get_file basePath fs' messageId threadId) = Some (reparse mv)"
    by (simp add: MessageStorage_save_file_def MessageStorage_get_file_def writeJsonFile_def
        readJsonFile_def MessageStorage_path)
next
  show "OrgStorage_get_file basePath (OrgStorage_save_file basePath fs ov) = reparse ov"
    by (simp add: OrgStorage_save_file_def OrgStorage_get_file_def writeJsonFile_def
        readJsonFile_def)
  show "pathJoin [ensureAgentDir basePath name, ''config.json''] =
      pathJoin [AgentStorage_agentsDir basePath, name, ''config.json'']"
    by (rule AgentStorage_path)
  show "pathJoin [pathJoin [MessageStorage_messagesDir basePath, threadId], messageId @ ''.json''] =
      pathJoin [MessageStorage_messagesDir basePath, threadId, messageId @ ''.json'']"
    by (rule MessageStorage_path)
  show "pathJoin [pathJoin [BoardStorage_boardDir basePath, boardFolder], boardId @ ''.md''] =
      boardPath basePath boardFolder boardId"
    by (rule BoardStorage_path)
  show "reparse (taskToJson t) = taskToJson t" by (rule reparse_taskToJson)
  show "reparse (agentToJson a) = agentToJson a" by (rule reparse_agentToJson)
  show "reparse (messageToJson m) = messageToJson m" by (rule reparse_messageToJson)
  show "reparse (treeToJson tree) = treeToJson tree" by (rule reparse_treeToJson)
  show "TaskStorage_save_file basePath fs (taskToJson t) =
      Some (fs(pathJoin [TaskStorage_tasksDir basePath, task_id t @ ''.json'']
                 \<mapsto> taskToJson t))"
    by (simp add: TaskStorage_save_file_def task_key writeJsonFile_def reparse_taskToJson)
  show "Option.bind (TaskStorage_save_file basePath fs (taskToJson t))
      (\<lambda>fs'. TaskStorage_get_file basePath fs' (task_id t)) = Some (taskToJson t)"
    by (rule TaskStorage_file_round_trip)
  show "AgentStorage_save_file basePath fs (agentToJson a) =
      Some (fs(pathJoin [AgentStorage_agentsDir basePath, agent_name a, ''config.json'']
                 \<mapsto> agentToJson a))"
    by (simp add: AgentStorage_save_file_def agent_key writeJsonFile_def reparse_agentToJson
        AgentStorage_path)
  show "Option.bind (AgentStorage_save_file basePath fs (agentToJson a))
      (\<lambda>fs'. AgentStorage_get_file basePath fs' (agent_name a)) = Some (agentToJson a)"
    by (rule AgentStorage_file_round_trip)
  show "MessageStorage_save_file basePath fs (messageToJson m) =
      Some (fs(pathJoin [MessageStorage_messagesDir basePath, msg_threadId m,
                         msg_id m @ ''.json'']
                 \<mapsto> messageToJson m))"
    by (simp add: MessageStorage_save_file_def message_key writeJsonFile_def
        reparse_messageToJson MessageStorage_path)
  show "Option.bind (MessageStorage_save_file basePath fs (messageToJson m))
      (\<lambda>fs'. MessageStorage_get_file basePath fs' (msg_id m) (msg_threadId m)) =
      Some (messageToJson m)"
    by (rule MessageStorage_file_round_trip)
  show "OrgStorage_get_file basePath (OrgStorage_save_file basePath fs (treeToJson tree)) =
      treeToJson tree"
    by (rule OrgStorage_file_round_trip)
  show "TaskStorage_get (TaskStorage_save tdir t) (task_id t) = Some t"
    by (simp add: TaskStorage_get_def TaskStorage_save_def)
  show "AgentStorage_get (AgentStorage_save adir a) (agent_name a) = Some a"
    by (simp add: AgentStorage_get_def AgentStorage_save_def)
  show "MessageStorage_get (MessageStorage_save mdir m) (msg_id m) (msg_threadId m) = Some m"
    by (simp add: MessageStorage_get_def MessageStorage_save_def)
  show "OrgStorage_get (OrgStorage_save doc tree) = tree"
    by (simp add: OrgStorage_get_def OrgStorage_save_def)
next
  assume h: "item_type item = Some ty \<and> BOARD_TYPE_TO_FOLDER (Some ty) = Some folder \<and>
     isFileName (item_id item @ ''.md'') \<and>
     plainValue (item_id item) \<and> plainValue (item_author item) \<and>
     plainValue (item_summary item) \<and> plainValue (item_createdAt item) \<and>
     trimEnd (item_body item) = item_body item"
  then show s: "BoardStorage_save basePath bdir item =
         Some (bdir(boardPath basePath folder (item_id item) \<mapsto> toMarkdown item))"
    using BoardStorage_round_trip(1) by blast
  from h have "BoardStorage_get basePath
        (bdir(boardPath basePath folder (item_id item) \<mapsto> toMarkdown item))
        ty (item_id item) =
      Some (item\<lparr>item_path := boardPath basePath folder (item_id item)\<rparr>)"
    using BoardStorage_round_trip(2) by blast
  then show "Option.bind (BoardStorage_save basePath bdir item)
         (\<lambda>dir. BoardStorage_get basePath dir ty (item_id item)) =
         Some (item\<lparr>item_path := boardPath basePath folder (item_id item)\<rparr>)"
    unfolding s by simp
qed


theorem save_get_round_trip_witness:
  "isFileName (task_id (makeTask ''t-1'' ''eng'' None None ''2024-01-01T00:00:00.000Z'') @ ''.json'') \<and>
   isFileName (msg_id (makeMessage ''m-1'' ''thread-1'' ''2024-01-01T00:00:00.000Z'') @ ''.json'') \<and>
   CHR 0x00 \<notin> set ''/ws'' \<union> set (agent_name (makeAgent ''eng'')) \<union>
     set (msg_threadId (makeMessage ''m-1'' ''thread-1'' ''2024-01-01T00:00:00.000Z'')) \<and>
   item_type colonItem = Some ''finding'' \<and>
   BOARD_TYPE_TO_FOLDER (Some ''finding'') = Some ''findings'' \<and>
   isFileName (item_id colonItem @ ''.md'') \<and>
   plainValue (item_id colonItem) \<and> plainValue (item_author colonItem) \<and>
   plainValue (item_summary colonItem) \<and> plainValue (item_createdAt colonItem) \<and>
   trimEnd (item_body colonItem) = item_body colonItem \<and>
   TaskStorage_save_file ''/ws'' Map.empty
       (taskToJson (makeTask ''t-1'' ''eng'' None None ''2024-01-01T00:00:00.000Z'')) =
     Some (Map.empty(''/ws/tasks/t-1.json'' \<mapsto>
       taskToJson (makeTask ''t-1'' ''eng'' None None ''2024-01-01T00:00:00.000Z''))) \<and>
   TaskStorage_get_file ''/ws''
       (Map.empty(''/ws/tasks/t-1.json'' \<mapsto>
          taskToJson (makeTask ''t-1'' ''eng'' None None ''2024-01-01T00:00:00.000Z'')))
       ''t-1'' =
     Some (taskToJson (makeTask ''t-1'' ''eng'' None None ''2024-01-01T00:00:00.000Z'')) \<and>
   property ''priority''
       (taskToJson (makeTask ''t-1'' ''eng'' None None ''2024-01-01T00:00:00.000Z'')) =
     Some (JNum (Finite 0)) \<and>
   AgentStorage_save_file ''/ws'' Map.empty (agentToJson (makeAgent ''eng'')) =
     Some (Map.empty(''/ws/agents/eng/config.json'' \<mapsto> agentToJson (makeAgent ''eng''))) \<and>
   AgentStorage_get_file ''/ws''
       (Map.empty(''/ws/agents/eng/config.json'' \<mapsto> agentToJson (makeAgent ''eng'')))
       ''eng'' =
     Some (agentToJson (makeAgent ''eng'')) \<and>
   MessageStorage_save_file ''/ws'' Map.empty
       (messageToJson (makeMessage ''m-1'' ''thread-1'' ''2024-01-01T00:00:00.000Z'')) =
     Some (Map.empty(''/ws/messages/thread-1/m-1.json'' \<mapsto>
       messageToJson (makeMessage ''m-1'' ''thread-1'' ''2024-01-01T00:00:00.000Z''))) \<and>
   MessageStorage_get_file ''/ws''
       (Map.empty(''/ws/messages/thread-1/m-1.json'' \<mapsto>
          messageToJson (makeMessage ''m-1'' ''thread-1'' ''2024-01-01T00:00:00.000Z'')))
       ''m-1'' ''thread-1'' =
     Some (messageToJson (makeMessage ''m-1'' ''thread-1'' ''2024-01-01T00:00:00.000Z'')) \<and>
   OrgStorage_get_file ''/ws'' (OrgStorage_save_file ''/ws'' Map.empty (treeToJson sampleOrg)) =
     treeToJson sampleOrg \<and>
   BoardStorage_save ''/ws'' Map.empty colonItem =
     Some (Map.empty(''/ws/board/findings/colon-test.md'' \<mapsto> toMarkdown colonItem)) \<and>
   BoardStorage_get ''/ws''
       (Map.empty(''/ws/board/findings/colon-test.md'' \<mapsto> toMarkdown colonItem))
       ''finding'' ''colon-test'' =
     Some (colonItem\<lparr>item_path := ''/ws/board/findings/colon-test.md''\<rparr>) \<and>
   map_option item_summary
     (BoardStorage_get ''/ws''
        (Map.empty(''/ws/board/findings/colon-test.md'' \<mapsto> toMarkdown colonItem))
        ''finding'' ''colon-test'') =
     Some ''Bug found: API returns 500: timeout'' \<and>
   finiteJson (taskToJson (makeTask ''t-1'' ''eng'' None None ''2024-01-01T00:00:00.000Z'')) \<and>
   reparse (taskToJson (makeTask ''t-1'' ''eng'' None None ''2024-01-01T00:00:00.000Z'')) =
     taskToJson (makeTask ''t-1'' ''eng'' None None ''2024-01-01T00:00:00.000Z'') \<and>
   stringProperty ''id''
       (taskToJson (makeTask ''t-1'' ''eng'' None None ''2024-01-01T00:00:00.000Z'')) =
     Some ''t-1'' \<and>
   stringProperty ''name'' (agentToJson (makeAgent ''eng'')) = Some ''eng'' \<and>
   stringProperty ''threadId''
       (messageToJson (makeMessage ''m-1'' ''thread-1'' ''2024-01-01T00:00:00.000Z'')) =
     Some ''thread-1'' \<and>
   stringProperty ''id''
       (messageToJson (makeMessage ''m-1'' ''thread-1'' ''2024-01-01T00:00:00.000Z'')) =
     Some ''m-1'' \<and>
   pathJoin [pathJoin [BoardStorage_boardDir ''/ws'', ''findings''], ''./x'' @ ''.md''] =
     ''/ws/board/findings/x.md'' \<and>
   boardPath ''/ws'' ''findings'' ''./x'' = ''/ws/board/findings/x.md''"
proof -
  have h1: "isFileName (task_id (makeTask ''t-1'' ''eng'' None None ''2024-01-01T00:00:00.000Z'') @ ''.json'')"
    by (simp add: isFileName_def makeTask_def)
  have h2: "isFileName (msg_id (makeMessage ''m-1'' ''thread-1'' ''2024-01-01T00:00:00.000Z'') @ ''.json'')"
    by (simp add: isFileName_def makeMessage_def)
  have h3: "CHR 0x00 \<notin> set ''/ws'' \<union> set (agent_name (makeAgent ''eng'')) \<union>
     set (msg_threadId (makeMessage ''m-1'' ''thread-1'' ''2024-01-01T00:00:00.000Z''))"
    by (simp add: makeAgent_def makeMessage_def)
  have h4: "isFileName (item_id colonItem @ ''.md'')"
    by (simp add: isFileName_def colonItem_def)
  have k: "task_id (makeTask ''t-1'' ''eng'' None None ''2024-01-01T00:00:00.000Z'') = ''t-1''"
    "agent_name (makeAgent ''eng'') = ''eng''"
    "msg_id (makeMessage ''m-1'' ''thread-1'' ''2024-01-01T00:00:00.000Z'') = ''m-1''"
    "msg_threadId (makeMessage ''m-1'' ''thread-1'' ''2024-01-01T00:00:00.000Z'') = ''thread-1''"
    "item_id colonItem = ''colon-test''" "item_type colonItem = Some ''finding''"
    "item_summary colonItem = ''Bug found: API returns 500: timeout''"
    by (simp_all add: makeTask_def makeAgent_def makeMessage_def colonItem_def)
  have p: "property ''priority''
       (taskToJson (makeTask ''t-1'' ''eng'' None None ''2024-01-01T00:00:00.000Z'')) =
     Some (JNum (Finite 0))"
    by (simp add: property_def taskToJson_def makeTask_def)
  have h5: "item_type colonItem = Some ''finding'' \<and>
      BOARD_TYPE_TO_FOLDER (Some ''finding'') = Some ''findings'' \<and>
      isFileName (item_id colonItem @ ''.md'') \<and>
      plainValue (item_id colonItem) \<and> plainValue (item_author colonItem) \<and>
      plainValue (item_summary colonItem) \<and> plainValue (item_createdAt colonItem) \<and>
      trimEnd (item_body colonItem) = item_body colonItem"
    using h4 colonItem_plain k(6) by simp
  note th = save_get_round_trip[OF h1 h2 h3, where item = colonItem and ty = "''finding''"
      and folder = "''findings''" and bdir = Map.empty and fs = Map.empty
      and tree = sampleOrg and tdir = Map.empty and adir = Map.empty and mdir = Map.empty
      and doc = None
      and v = "taskToJson (makeTask ''t-1'' ''eng'' None None ''2024-01-01T00:00:00.000Z'')"
      and tv = "taskToJson (makeTask ''t-1'' ''eng'' None None ''2024-01-01T00:00:00.000Z'')"
      and ident = "''t-1''"
      and av = "agentToJson (makeAgent ''eng'')" and name = "''eng''"
      and mv = "messageToJson (makeMessage ''m-1'' ''thread-1'' ''2024-01-01T00:00:00.000Z'')"
      and threadId = "''thread-1''" and messageId = "''m-1''"
      and ov = "treeToJson sampleOrg" and boardFolder = "''findings''" and boardId = "''./x''"]
  have t1: "TaskStorage_save_file ''/ws'' Map.empty
       (taskToJson (makeTask ''t-1'' ''eng'' None None ''2024-01-01T00:00:00.000Z'')) =
     Some (Map.empty(''/ws/tasks/t-1.json'' \<mapsto>
       taskToJson (makeTask ''t-1'' ''eng'' None None ''2024-01-01T00:00:00.000Z'')))"
    using th by (simp add: k sample_dirs sample_file_paths)
  have t2: "TaskStorage_get_file ''/ws''
       (Map.empty(''/ws/tasks/t-1.json'' \<mapsto>
          taskToJson (makeTask ''t-1'' ''eng'' None None ''2024-01-01T00:00:00.000Z'')))
       ''t-1'' =
     Some (taskToJson (makeTask ''t-1'' ''eng'' None None ''2024-01-01T00:00:00.000Z''))"
    by (simp add: TaskStorage_get_file_def readJsonFile_def sample_dirs sample_file_paths)
  have a1: "AgentStorage_save_file ''/ws'' Map.empty (agentToJson (makeAgent ''eng'')) =
     Some (Map.empty(''/ws/agents/eng/config.json'' \<mapsto> agentToJson (makeAgent ''eng'')))"
    using th by (simp add: k sample_dirs sample_file_paths)
  have a2: "AgentStorage_get_file ''/ws''
       (Map.empty(''/ws/agents/eng/config.json'' \<mapsto> agentToJson (makeAgent ''eng'')))
       ''eng'' =
     Some (agentToJson (makeAgent ''eng''))"
    by (simp add: AgentStorage_get_file_def readJsonFile_def sample_dirs sample_file_paths)
  have m1: "MessageStorage_save_file ''/ws'' Map.empty
       (messageToJson (makeMessage ''m-1'' ''thread-1'' ''2024-01-01T00:00:00.000Z'')) =
     Some (Map.empty(''/ws/messages/thread-1/m-1.json'' \<mapsto>
       messageToJson (makeMessage ''m-1'' ''thread-1'' ''2024-01-01T00:00:00.000Z'')))"
    using th by (simp add: k sample_dirs sample_file_paths)
  have m2: "MessageStorage_get_file ''/ws''
       (Map.empty(''/ws/messages/thread-1/m-1.json'' \<mapsto>
          messageToJson (makeMessage ''m-1'' ''thread-1'' ''2024-01-01T00:00:00.000Z'')))
       ''m-1'' ''thread-1'' =
     Some (messageToJson (makeMessage ''m-1'' ''thread-1'' ''2024-01-01T00:00:00.000Z''))"
    by (simp add: MessageStorage_get_file_def readJsonFile_def sample_dirs sample_file_paths)
  have o: "OrgStorage_get_file ''/ws''
       (OrgStorage_save_file ''/ws'' Map.empty (treeToJson sampleOrg)) = treeToJson sampleOrg"
    using th by blast
  have b1: "BoardStorage_save ''/ws'' Map.empty colonItem =
     Some (Map.empty(''/ws/board/findings/colon-test.md'' \<mapsto> toMarkdown colonItem))"
    using th h5 by (simp add: k sample_board_paths)
  have "Option.bind (BoardStorage_save ''/ws'' Map.empty colonItem)
         (\<lambda>dir. BoardStorage_get ''/ws'' dir ''finding'' (item_id colonItem)) =
         Some (colonItem\<lparr>item_path := boardPath ''/ws'' ''findings'' (item_id colonItem)\<rparr>)"
    using th h5 by blast
  then have b2: "BoardStorage_get ''/ws''
       (Map.empty(''/ws/board/findings/colon-test.md'' \<mapsto> toMarkdown colonItem))
       ''finding'' ''colon-test'' =
     Some (colonItem\<lparr>item_path := ''/ws/board/findings/colon-test.md''\<rparr>)"
    unfolding b1 by (simp add: k sample_board_paths)
  have b3: "map_option item_summary
     (BoardStorage_get ''/ws''
        (Map.empty(''/ws/board/findings/colon-test.md'' \<mapsto> toMarkdown colonItem))
        ''finding'' ''colon-test'') =
     Some ''Bug found: API returns 500: timeout''"
    unfolding b2 by (simp add: k)
  have f: "finiteJson (taskToJson (makeTask ''t-1'' ''eng'' None None ''2024-01-01T00:00:00.000Z''))"
    using th by blast
  have r: "reparse (taskToJson (makeTask ''t-1'' ''eng'' None None ''2024-01-01T00:00:00.000Z'')) =
     taskToJson (makeTask ''t-1'' ''eng'' None None ''2024-01-01T00:00:00.000Z'')"
    using th f by blast
  have x1: "pathJoin [pathJoin [BoardStorage_boardDir ''/ws'', ''findings''], ''./x'' @ ''.md''] =
     boardPath ''/ws'' ''findings'' ''./x''"
    using th by blast
  have x2: "boardPath ''/ws'' ''findings'' ''./x'' = ''/ws/board/findings/x.md''"
    by (rule sample_board_paths)
  show ?thesis
    using h1 h2 h3 h5 t1 t2 p a1 a2 m1 m2 o b1 b2 b3 f r x1 x2 task_key agent_key message_key k
    by (intro conjI) simp_all
qed

text \<open>
  C8, as stated, fails. Two tasks, two messages of a thread, or two unread messages
  created in the same millisecond are listed next to each other, so no listing is
  strictly ordered. And a store is not ordered at all where a creation time is no date:
  of three tasks listed by the directory as \<open>a\<close> (2024), \<open>b\<close> (no date), \<open>c\<close> (2025), the
  comparison of \<open>b\<close> with either neighbour is NaN, read as 0, and the stable insertion
  sort \<open>sortBy\<close>, which does what the language requires, returns them as they came, the
  older \<open>a\<close> before the newer \<open>c\<close>.
\<close>

theorem listing_not_strict_counterexample:
  "map (\<lambda>t. (task_id t, sampleTime (task_createdAt t)))
     (TaskStorage_list sortBy sampleTime sameInstantTasks [''t-a.json'', ''t-b.json''] None) =
     [(''t-a'', Some 20240101000000000), (''t-b'', Some 20240101000000000)] \<and>
   map (\<lambda>m. (msg_id m, sampleTime (msg_createdAt m)))
     (listThread sortBy sampleTime sameInstantMessages (\<lambda>t. [''m-a.json'', ''m-b.json''])
        ''thread-1'') =
     [(''m-a'', Some 20240101000000000), (''m-b'', Some 20240101000000000)] \<and>
   map (\<lambda>m. (msg_id m, sampleTime (msg_createdAt m)))
     (getUnread sortBy sampleTime sameInstantMessages (\<lambda>t. [''m-a.json'', ''m-b.json''])
        [''thread-1''] ''receiver'') =
     [(''m-a'', Some 20240101000000000), (''m-b'', Some 20240101000000000)] \<and>
   map (\<lambda>t. (task_id t, sampleTime (task_createdAt t)))
     (TaskStorage_list sortBy sampleTime undatedTasks [''a.json'', ''b.json'', ''c.json''] None) =
     [(''a'', Some 20240101000000000), (''b'', None), (''c'', Some 20250101000000000)]"
  by (simp add: listing_defs sameInstantTasks_def sameInstantMessages_def undatedTasks_def)

text \<open>
  C8, amended. For a sort that does what the language requires of
  \<^verbatim>\<open>Array.prototype.sort\<close>, and a store in which the creation time of every entity
  collected is a date: the task listing is the list of the tasks collected, sorted by
  creation time, newest first; the listing of a thread is the list of its messages
  sorted by creation time, oldest first; and the unread messages of an agent are those of
  the threads listed, sorted oldest first. None of the three is strict: entities with the
  same creation time follow each other, in the order in which they were collected.
\<close>

theorem listings_sorted_by_createdAt:
  assumes "conformingSort srtT" and "conformingSort srtM"
    and "\<forall>t\<in>set (collectTasks tdir flt entries). getTime (task_createdAt t) \<noteq> None"
    and "\<forall>th\<in>set (threadId # threads). \<forall>m\<in>set (collectMessages mdir th (readdir th)).
           getTime (msg_createdAt m) \<noteq> None"
  shows
    "TaskStorage_list srtT getTime tdir entries flt =
       sort_key (\<lambda>t. - timeOf getTime (task_createdAt t)) (collectTasks tdir flt entries) \<and>
     sorted_wrt (\<lambda>a b. timeOf getTime (task_createdAt b) \<le> timeOf getTime (task_createdAt a))
       (TaskStorage_list srtT getTime tdir entries flt) \<and>
     mset (TaskStorage_list srtT getTime tdir entries flt) = mset (collectTasks tdir flt entries) \<and>
     listThread srtM getTime mdir readdir threadId =
       sort_key (\<lambda>m. timeOf getTime (msg_createdAt m))
         (collectMessages mdir threadId (readdir threadId)) \<and>
     sorted_wrt (\<lambda>a b. timeOf getTime (msg_createdAt a) \<le> timeOf getTime (msg_createdAt b))
       (listThread srtM getTime mdir readdir threadId) \<and>
     mset (listThread srtM getTime mdir readdir threadId) =
       mset (collectMessages mdir threadId (readdir threadId)) \<and>
     getUnread srtM getTime mdir readdir threads agent =
       sort_key (\<lambda>m. timeOf getTime (msg_createdAt m))
         (collectUnread srtM getTime mdir readdir threads agent) \<and>
     sorted_wrt (\<lambda>a b. timeOf getTime (msg_createdAt a) \<le> timeOf getTime (msg_createdAt b))
       (getUnread srtM getTime mdir readdir threads agent) \<and>
     mset (getUnread srtM getTime mdir readdir threads agent) =
       mset (concat (map (\<lambda>th.
         filter (\<lambda>msg. msg_toAgentId msg = agent \<and> msg_status msg \<noteq> msg_read)
           (collectMessages mdir th (readdir th))) threads))"
proof -
  have t: "TaskStorage_list srtT getTime tdir entries flt =
       sort_key (\<lambda>t. - timeOf getTime (task_createdAt t)) (collectTasks tdir flt entries)"
    using TaskStorage_list_sorted[OF assms(1) assms(3)] .
  have l: "listThread srtM getTime mdir readdir threadId =
       sort_key (\<lambda>m. timeOf getTime (msg_createdAt m))
         (collectMessages mdir threadId (readdir threadId))"
    unfolding listThread_def using sorted_messages[OF assms(2)] assms(4) by simp
  have h: "\<forall>th\<in>set threads. \<forall>m\<in>set (collectMessages mdir th (readdir th)).
           getTime (msg_createdAt m) \<noteq> None"
    using assms(4) by simp
  have u: "getUnread srtM getTime mdir readdir threads agent =
       sort_key (\<lambda>m. timeOf getTime (msg_createdAt m))
         (collectUnread srtM getTime mdir readdir threads agent)"
    unfolding getUnread_def
    using sorted_messages[OF assms(2) collectUnread_dated[OF assms(2) h]] .
  have m: "mset (getUnread srtM getTime mdir readdir threads agent) =
       mset (concat (map (\<lambda>th.
         filter (\<lambda>msg. msg_toAgentId msg = agent \<and> msg_status msg \<noteq> msg_read)
           (collectMessages mdir th (readdir th))) threads))"
    unfolding u collectUnread_sorted[OF assms(2) h]
    by (simp only: mset_sort mset_concat_filter_sort)
  have st: "sorted_wrt
       (\<lambda>a b. timeOf getTime (task_createdAt b) \<le> timeOf getTime (task_createdAt a))
       (TaskStorage_list srtT getTime tdir entries flt)"
    unfolding t by (rule sorted_wrt_sort_key_desc[of "\<lambda>t. timeOf getTime (task_createdAt t)"])
  have sl: "sorted_wrt
       (\<lambda>a b. timeOf getTime (msg_createdAt a) \<le> timeOf getTime (msg_createdAt b))
       (listThread srtM getTime mdir readdir threadId)"
    unfolding l by (rule sorted_wrt_sort_key_asc[of "\<lambda>m. timeOf getTime (msg_createdAt m)"])
  have su: "sorted_wrt
       (\<lambda>a b. timeOf getTime (msg_createdAt a) \<le> timeOf getTime (msg_createdAt b))
       (getUnread srtM getTime mdir readdir threads agent)"
    unfolding u by (rule sorted_wrt_sort_key_asc[of "\<lambda>m. timeOf getTime (msg_createdAt m)"])
  have mt: "mset (TaskStorage_list srtT getTime tdir entries flt) =
      mset (collectTasks tdir flt entries)"
    unfolding t by (rule mset_sort)
  have ml: "mset (listThread srtM getTime mdir readdir threadId) =
       mset (collectMessages mdir threadId (readdir threadId))"
    unfolding l by (rule mset_sort)
  show ?thesis
    using t st mt l sl ml u su m by (intro conjI)
qed

theorem listings_sorted_by_createdAt_witness:
  "map (\<lambda>t. (task_id t, sampleTime (task_createdAt t)))
     (collectTasks datedTasks None [''t-old.json'', ''t-new.json'']) =
     [(''t-old'', Some 20240101000000000), (''t-new'', Some 20250101000000000)] \<and>
   map (\<lambda>m. (msg_id m, sampleTime (msg_createdAt m)))
     (collectMessages datedMessages ''thread-1'' [''m-late.json'', ''m-early.json'']) =
     [(''m-late'', Some 20250101000000000), (''m-early'', Some 20240101000000000)] \<and>
   map task_id
     (TaskStorage_list sortBy sampleTime datedTasks [''t-old.json'', ''t-new.json''] None) =
     [''t-new'', ''t-old''] \<and>
   map msg_id
     (listThread sortBy sampleTime datedMessages (\<lambda>t. [''m-late.json'', ''m-early.json''])
        ''thread-1'') =
     [''m-early'', ''m-late''] \<and>
   map msg_id
     (getUnread sortBy sampleTime datedMessages (\<lambda>t. [''m-late.json'', ''m-early.json''])
        [''thread-1''] ''receiver'') =
     [''m-early'', ''m-late'']"
proof -
  have c: "conformingSort (sortBy :: (TaskState \<Rightarrow> TaskState \<Rightarrow> int) \<Rightarrow> TaskState list \<Rightarrow> TaskState list)"
    "conformingSort (sortBy :: (Message \<Rightarrow> Message \<Rightarrow> int) \<Rightarrow> Message list \<Rightarrow> Message list)"
    by (rule conformingSort_sortBy)+
  have t: "collectTasks datedTasks None [''t-old.json'', ''t-new.json''] =
      [makeTask ''t-old'' ''eng'' None None ''2024-01-01T00:00:00.000Z'',
       makeTask ''t-new'' ''eng'' None None ''2025-01-01T00:00:00.000Z'']"
    by (simp add: datedTasks_def TaskStorage_save_def TaskStorage_get_def endsWith_def
        replaceFirst_def taskMatches_def makeTask_def)
  have m: "\<And>th. collectMessages datedMessages ''thread-1'' [''m-late.json'', ''m-early.json''] =
      [makeMessage ''m-late'' ''thread-1'' ''2025-01-01T00:00:00.000Z'',
       makeMessage ''m-early'' ''thread-1'' ''2024-01-01T00:00:00.000Z'']"
    by (simp add: datedMessages_def MessageStorage_save_def MessageStorage_get_def endsWith_def
        replaceFirst_def makeMessage_def)
  have ht: "\<forall>t\<in>set (collectTasks datedTasks None [''t-old.json'', ''t-new.json'']).
      sampleTime (task_createdAt t) \<noteq> None"
    unfolding t by (simp add: makeTask_def sample_times)
  have hm: "\<forall>th\<in>set [''thread-1'', ''thread-1''].
      \<forall>m\<in>set (collectMessages datedMessages th ((\<lambda>t. [''m-late.json'', ''m-early.json'']) th)).
        sampleTime (msg_createdAt m) \<noteq> None"
    using m by (simp add: makeMessage_def sample_times)
  show ?thesis
    using listings_sorted_by_createdAt[OF c ht hm, where agent = "''receiver''"]
    unfolding t m
    by (simp add: timeOf_def sample_times makeTask_def makeMessage_def collectUnread_def)
qed

end
